(* ===== verification/Kernova_Prelude.thy ===== *)
theory Kernova_Prelude
  imports Main "HOL-Library.Word"
begin

text \<open>
  Shared vocabulary of the development: the machine-integer types, byte-addressed memory
  with 64-bit wrapping addresses, little-endian encoding of words, and stores into
  byte pages. Every component theory imports this one.

  The collections: \<open>mem_simps\<close> reads and writes of memory, \<open>page_simps\<close> reads and
  writes of byte pages, \<open>enc_simps\<close> encodings and their lengths.
\<close>

unbundle bit_operations_syntax

named_theorems mem_simps "reads and writes of byte-addressed memory"
named_theorems page_simps "reads and writes of byte pages"
named_theorems enc_simps "little-endian encodings and their lengths"

type_synonym u8 = "8 word"
type_synonym u16 = "16 word"
type_synonym u32 = "32 word"
type_synonym u64 = "64 word"
type_synonym memory = "u64 \<Rightarrow> u8"

section \<open>Signed reading of 64-bit words\<close>

text \<open>The assembly compares with \<^verbatim>\<open>cmp\<close>/\<^verbatim>\<open>jl\<close>, which reads both operands as
  two's complement: a difference with bit 63 set counts as negative.\<close>

lemma sint_split: "sint (x::u64) = uint x - (if bit x 63 then 2^64 else 0)"
  using take_bit_int_eq_self[of "uint x" 64] uint_lt2p [of x]
  by (simp add: sint_uint signed_take_bit_eq_take_bit_minus bit_uint_iff)

lemma sless_small:
  fixes x k :: u64
  assumes "\<not> bit k 63"
  shows "x <s k \<longleftrightarrow> bit x 63 \<or> x < k"
proof -
  have a: "uint x < 2^64" using uint_lt2p [of x] by simp
  have b: "0 \<le> uint k" by simp
  from a b have "uint x - 2^64 < uint k" by linarith
  then show ?thesis using assms
    by (auto simp: word_sless_alt sint_split word_less_def) 
qed

lemma bit63_iff: "bit (x::u64) 63 \<longleftrightarrow> 2^63 \<le> unat x"
proof -
  have *: "unat x < 2^64" using unsigned_less[of x, where 'a=nat] by simp
  have "bit x 63 \<longleftrightarrow> odd (unat x div 2^63)"
    by (metis bit_iff_odd bit_unsigned_iff possible_bit_nat) 
  moreover have "unat x div 2^63 = (if 2^63 \<le> unat x then 1 else 0)"
    using * by (auto intro!: div_nat_eqI)
  ultimately show ?thesis by simp
qed

lemma unat_sub_less: "(k::'a::len word) \<le> x \<Longrightarrow> 0 < k \<Longrightarrow> unat (x - k) < unat x"
  by (simp add: unat_sub word_le_nat_alt word_less_nat_alt)

section \<open>Little-endian encoding\<close>

definition le_bytes :: "nat \<Rightarrow> 'a::len word \<Rightarrow> u8 list" where
  "le_bytes n w = map (\<lambda>i. ucast (drop_bit (8 * i) w)) [0..<n]"

fun le_word :: "u8 list \<Rightarrow> 'a::len word" where
  "le_word [] = 0"
| "le_word (b # bs) = ucast b OR push_bit 8 (le_word bs)"

lemma length_le_bytes [simp]: "length (le_bytes n w) = n"
  by (simp add: le_bytes_def)

lemma bit_le_word:
  "bit (le_word bs :: 'a::len word) k \<longleftrightarrow>
     k < LENGTH('a) \<and> k div 8 < length bs \<and> bit (bs ! (k div 8)) (k mod 8)"
proof (induction bs arbitrary: k)
  case (Cons b bs)
  show ?case
  proof (cases "k < 8")
    case True
    then show ?thesis by (auto simp: bit_simps dest: bit_imp_le_length)
  next
    case False
    then obtain j where k: "k = j + 8" by (metis add.commute le_Suc_ex not_less)
    have "(j + 8) div 8 = Suc (j div 8)" "(j + 8) mod 8 = j mod 8" by simp_all
    with k show ?thesis
      by (auto simp del: div_add_self2 simp: bit_simps Cons dest: bit_imp_le_length)
  qed
qed simp

lemma le_word_le_bytes:
  assumes "LENGTH('a) \<le> 8 * n"
  shows "le_word (le_bytes n w) = (w :: 'a::len word)"
proof (rule bit_word_eqI)
  fix k assume k: "k < LENGTH('a)"
  then have "k div 8 < n" using assms by (auto simp: less_mult_imp_div_less mult.commute)
  moreover have "8 * (k div 8) + k mod 8 = k" by simp
  ultimately show "bit (le_word (le_bytes n w) :: 'a word) k = bit w k"
    using k by (simp add: bit_le_word le_bytes_def bit_simps)
qed

lemma le_bytes_le_word:
  assumes "length bs = n" and "8 * n \<le> LENGTH('a::len)"
  shows "le_bytes n (le_word bs :: 'a word) = bs"
proof (rule nth_equalityI)
  fix i assume "i < length (le_bytes n (le_word bs :: 'a word))"
  then have i: "i < n" by simp
  show "le_bytes n (le_word bs :: 'a word) ! i = bs ! i"
  proof (rule bit_word_eqI)
    fix k :: nat assume "k < LENGTH(8)"
    then have k: "k < 8" by simp
    then have "8 * i + k < LENGTH('a)" using i assms(2) by simp
    with k i assms(1) show "bit (le_bytes n (le_word bs :: 'a word) ! i) k = bit (bs ! i) k"
      by (simp add: le_bytes_def bit_simps bit_le_word)
  qed
qed (simp add: assms)

lemmas [enc_simps] = length_le_bytes le_word_le_bytes le_bytes_le_word

section \<open>Byte-addressed memory\<close>

definition read_bytes :: "memory \<Rightarrow> u64 \<Rightarrow> nat \<Rightarrow> u8 list" where
  "read_bytes m a n = map (\<lambda>i. m (a + of_nat i)) [0..<n]"

definition write_bytes :: "u64 \<Rightarrow> u8 list \<Rightarrow> memory \<Rightarrow> memory" where
  "write_bytes a bs m = (\<lambda>x. if unat (x - a) < length bs then bs ! unat (x - a) else m x)"

text \<open>The bytes \<open>a .. a+n-1\<close> and \<open>b .. b+k-1\<close> (addresses wrap) do not meet.\<close>

definition separate :: "u64 \<Rightarrow> nat \<Rightarrow> u64 \<Rightarrow> nat \<Rightarrow> bool" where
  "separate a n b k \<longleftrightarrow> (\<forall>i<n. \<forall>j<k. a + of_nat i \<noteq> b + of_nat j)"

text \<open>\<open>memcpy\<close>: all bytes are read before any is written.\<close>

definition copy_mem :: "u64 \<Rightarrow> u64 \<Rightarrow> nat \<Rightarrow> memory \<Rightarrow> memory" where
  "copy_mem d s n m = write_bytes d (read_bytes m s n) m"

lemma length_read_bytes [simp, mem_simps]: "length (read_bytes m a n) = n"
  by (simp add: read_bytes_def)

lemma nth_read_bytes [simp]: "i < n \<Longrightarrow> read_bytes m a n ! i = m (a + of_nat i)"
  by (simp add: read_bytes_def)

lemma read_bytes_0 [simp]: "read_bytes m a 0 = []"
  by (simp add: read_bytes_def)

lemma write_bytes_Nil [simp]: "write_bytes a [] m = m"
  by (simp add: write_bytes_def)

lemma copy_mem_0 [simp]: "copy_mem d s 0 m = m"
  by (simp add: copy_mem_def)

lemma read_bytes_add:
  "read_bytes m a (n + k) = read_bytes m a n @ read_bytes m (a + of_nat n) k"
  by (rule nth_equalityI) (auto simp: nth_append)

lemma separateI:
  assumes "n \<le> unat (b - a)" and "k \<le> unat (a - b)"
  shows "separate a n b k"
  unfolding separate_def
proof (intro allI impI notI)
  fix i j assume i: "i < n" and j: "j < k" and eq: "a + of_nat i = b + of_nat j"
  show False
  proof (cases "j \<le> i")
    case True
    then have "b - a = of_nat (i - j)" using eq by (simp add: of_nat_diff algebra_simps)
    then have "unat (b - a) \<le> i - j" by (simp add: unat_of_nat)
    then show False using i assms(1) by simp
  next
    case False
    then have "a - b = of_nat (j - i)" using eq by (simp add: of_nat_diff algebra_simps)
    then have "unat (a - b) \<le> j - i" by (simp add: unat_of_nat)
    then show False using j assms(2) by simp
  qed
qed

lemma separate_sym: "separate a n b k \<Longrightarrow> separate b k a n"
  unfolding separate_def by metis

lemma separate_part:
  assumes "separate a n b k" and "i + n' \<le> n" and "j + k' \<le> k"
  shows "separate (a + of_nat i) n' (b + of_nat j) k'"
  unfolding separate_def
proof (intro allI impI)
  fix p q assume "p < n'" "q < k'"
  then have "i + p < n" "j + q < k" using assms(2,3) by simp_all
  then have "a + of_nat (i + p) \<noteq> b + of_nat (j + q)"
    using assms(1) unfolding separate_def by blast
  then show "a + of_nat i + of_nat p \<noteq> b + of_nat j + of_nat q" by (simp add: add.assoc)
qed

lemma write_bytes_same:
  assumes "i < length bs" and "length bs \<le> 2 ^ 64"
  shows "write_bytes a bs m (a + of_nat i) = bs ! i"
  using assms by (simp add: write_bytes_def unat_of_nat)

lemma write_bytes_other:
  assumes "\<And>i. i < length bs \<Longrightarrow> x \<noteq> a + of_nat i"
  shows "write_bytes a bs m x = m x"
proof (cases "unat (x - a) < length bs")
  case True
  from assms [OF True] show ?thesis by simp
qed (simp add: write_bytes_def)

lemma read_write_same [mem_simps]:
  "length bs \<le> 2 ^ 64 \<Longrightarrow> n = length bs \<Longrightarrow> read_bytes (write_bytes a bs m) a n = bs"
  by (rule nth_equalityI) (simp_all add: write_bytes_same)

lemma read_write_other [mem_simps]:
  "separate a n b (length bs) \<Longrightarrow> read_bytes (write_bytes b bs m) a n = read_bytes m a n"
  by (rule nth_equalityI) (auto simp: separate_def intro!: write_bytes_other)

lemma write_bytes_append:
  assumes "length xs + length ys \<le> 2 ^ 64"
  shows "write_bytes a (xs @ ys) m = write_bytes (a + of_nat (length xs)) ys (write_bytes a xs m)"
proof
  fix x
  define d where "d = unat (x - a)"
  have x: "x = a + of_nat d" by (simp add: d_def)
  have d: "d < 2 ^ 64" using unsigned_less [of "x - a", where 'a = nat] by (simp add: d_def)
  have sub: "unat (x - (a + of_nat (length xs))) = d - length xs" if "length xs \<le> d"
  proof -
    have "x - (a + of_nat (length xs)) = of_nat (d - length xs)"
      using that by (simp add: x of_nat_diff)
    then show ?thesis using d by (simp add: unat_of_nat)
  qed
  show "write_bytes a (xs @ ys) m x = write_bytes (a + of_nat (length xs)) ys (write_bytes a xs m) x"
  proof (cases "d < length xs")
    case True
    let ?e = "length xs - d"
    have e: "x - (a + of_nat (length xs)) = of_nat (2 ^ 64 - ?e)"
      using True assms by (simp add: x of_nat_diff)
    have "unat (x - (a + of_nat (length xs))) = 2 ^ 64 - ?e"
      unfolding e using True by (simp add: unat_of_nat)
    then have "\<not> unat (x - (a + of_nat (length xs))) < length ys"
      using True assms by linarith
    then show ?thesis using True by (simp add: write_bytes_def nth_append flip: d_def)
  next
    case False
    then show ?thesis using sub by (auto simp: write_bytes_def nth_append simp flip: d_def)
  qed
qed

lemma copy_mem_add:
  assumes "separate d (n + k) s (n + k)" and "n + k \<le> 2 ^ 64"
  shows "copy_mem (d + of_nat n) (s + of_nat n) k (copy_mem d s n m) = copy_mem d s (n + k) m"
proof -
  have "separate (s + of_nat n) k (d + of_nat 0) n"
    by (rule separate_part [OF separate_sym [OF assms(1)]]) simp_all
  then have "read_bytes (copy_mem d s n m) (s + of_nat n) k = read_bytes m (s + of_nat n) k"
    by (simp add: copy_mem_def read_write_other)
  then show ?thesis
    using assms(2) by (simp add: copy_mem_def read_bytes_add write_bytes_append)
qed

section \<open>Byte pages\<close>

text \<open>A 4 KiB page or a structure inside one, as a list of bytes: a store replaces the bytes
  from an offset on, a load takes them.\<close>

definition page_write :: "nat \<Rightarrow> u8 list \<Rightarrow> u8 list \<Rightarrow> u8 list" where
  "page_write off bs p = take off p @ bs @ drop (off + length bs) p"

definition page_read :: "nat \<Rightarrow> nat \<Rightarrow> u8 list \<Rightarrow> u8 list" where
  "page_read off n p = take n (drop off p)"

lemma length_page_write [simp, page_simps]:
  "off + length bs \<le> length p \<Longrightarrow> length (page_write off bs p) = length p"
  by (simp add: page_write_def)

lemma page_read_write_same [page_simps]:
  "off + length bs \<le> length p \<Longrightarrow> n = length bs \<Longrightarrow> page_read off n (page_write off bs p) = bs"
  by (simp add: page_read_def page_write_def)

lemma page_read_write_before [page_simps]:
  "off + n \<le> off' \<Longrightarrow> off' \<le> length p \<Longrightarrow>
     page_read off n (page_write off' bs p) = page_read off n p"
  by (rule nth_equalityI) (simp_all add: page_read_def page_write_def nth_append)

lemma page_read_write_after [page_simps]:
  "off' + length bs \<le> off \<Longrightarrow> off' + length bs \<le> length p \<Longrightarrow>
     page_read off n (page_write off' bs p) = page_read off n p"
  by (simp add: page_read_def page_write_def)

lemma page_read_replicate [page_simps]:
  "off + n \<le> k \<Longrightarrow> page_read off n (replicate k b) = replicate n b"
  by (simp add: page_read_def)

end
