(* ===== verification/X86_Machine.thy ===== *)
theory X86_Machine
  imports Kernova_Prelude
begin

text \<open>
  The part of x86-64 the assembly routines use. A state is the general registers, the low
  bytes of vector register 0, byte-addressed memory and the stack. The stack is kept as a
  list of quadwords with the top first, apart from \<open>mem\<close>: the buffers a routine works on
  are assumed not to be its own stack frame. \<open>rsp\<close> is kept too, so that a frame pointer is
  a value, and \<open>ret\<close> puts the popped quadword into \<open>rip\<close>: a routine that returns with an
  unbalanced stack is seen to go to the wrong address.

  The direction flag is clear (the System V ABI guarantees it at function entry).
\<close>

record cpuid_regs =
  eax :: u32
  ebx :: u32
  ecx :: u32
  edx :: u32

text \<open>CPUID: leaf and subleaf to the four result registers.\<close>

type_synonym cpuid_fn = "u32 \<Rightarrow> u32 \<Rightarrow> cpuid_regs"

record cpu =
  rax :: u64
  rbx :: u64
  rcx :: u64
  rdx :: u64
  rsi :: u64
  rdi :: u64
  rbp :: u64
  rsp :: u64
  r8 :: u64
  r9 :: u64
  r10 :: u64
  r11 :: u64
  r12 :: u64
  r13 :: u64
  r14 :: u64
  r15 :: u64
  rip :: u64
  v0 :: "u8 list"
  mem :: memory
  stk :: "u64 list"

section \<open>Stack and control transfer\<close>

definition push :: "u64 \<Rightarrow> 'a cpu_scheme \<Rightarrow> 'a cpu_scheme" where
  "push v s = s\<lparr>stk := v # stk s, rsp := rsp s - 8\<rparr>"

definition pop :: "((u64 \<Rightarrow> u64) \<Rightarrow> 'a cpu_scheme \<Rightarrow> 'a cpu_scheme) \<Rightarrow> 'a cpu_scheme \<Rightarrow> 'a cpu_scheme" where
  "pop reg_update s = reg_update (\<lambda>_. hd (stk s)) (s\<lparr>stk := tl (stk s), rsp := rsp s + 8\<rparr>)"

definition ret :: "cpu \<Rightarrow> cpu" where
  "ret s = s\<lparr>rip := hd (stk s), stk := tl (stk s), rsp := rsp s + 8\<rparr>"

text \<open>How a routine ends: it reached its own final \<open>ret\<close>, or a \<open>ret\<close> of a subroutine went
  somewhere else than behind the call instruction.\<close>

datatype exec = Returned cpu | Diverted cpu

definition resume_at :: "u64 \<Rightarrow> cpu \<Rightarrow> (cpu \<Rightarrow> exec) \<Rightarrow> exec" where
  "resume_at site s k = (if rip s = site then k s else Diverted s)"

lemmas stack_defs = push_def pop_def ret_def

text \<open>\<open>mov eax, -1\<close> writes a 32-bit register, so the upper half of \<open>rax\<close> becomes zero.\<close>

definition mov_eax :: "u32 \<Rightarrow> 'a cpu_scheme \<Rightarrow> 'a cpu_scheme" where
  "mov_eax v s = s\<lparr>rax := ucast v\<rparr>"

lemma ucast_minus_one [simp]: "ucast (- 1 :: u32) = (0xFFFFFFFF :: u64)"
  by (simp add: unsigned_minus_1_eq_mask mask_numeral)

section \<open>String instructions\<close>

fun rep_movsb_n :: "nat \<Rightarrow> cpu \<Rightarrow> cpu" where
  "rep_movsb_n 0 s = s"
| "rep_movsb_n (Suc n) s = rep_movsb_n n
     (s\<lparr>mem := (mem s)(rdi s := mem s (rsi s)), rdi := rdi s + 1, rsi := rsi s + 1, rcx := rcx s - 1\<rparr>)"

definition rep_movsb :: "cpu \<Rightarrow> cpu" where
  "rep_movsb s = rep_movsb_n (unat (rcx s)) s"

fun rep_stosb_n :: "nat \<Rightarrow> cpu \<Rightarrow> cpu" where
  "rep_stosb_n 0 s = s"
| "rep_stosb_n (Suc n) s = rep_stosb_n n
     (s\<lparr>mem := (mem s)(rdi s := ucast (rax s)), rdi := rdi s + 1, rcx := rcx s - 1\<rparr>)"

definition rep_stosb :: "cpu \<Rightarrow> cpu" where
  "rep_stosb s = rep_stosb_n (unat (rcx s)) s"

section \<open>Vector moves\<close>

datatype vec = XMM | YMM | ZMM

fun vbytes :: "vec \<Rightarrow> nat" where
  "vbytes XMM = 16" | "vbytes YMM = 32" | "vbytes ZMM = 64"

text \<open>A vector load, and a store of the same width.\<close>

definition vload :: "vec \<Rightarrow> u64 \<Rightarrow> cpu \<Rightarrow> cpu" where
  "vload v a s = s\<lparr>v0 := read_bytes (mem s) a (vbytes v)\<rparr>"

definition vstore :: "vec \<Rightarrow> u64 \<Rightarrow> cpu \<Rightarrow> cpu" where
  "vstore v a s = s\<lparr>mem := write_bytes a (take (vbytes v) (v0 s)) (mem s)\<rparr>"

definition vzeroupper :: "cpu \<Rightarrow> cpu" where
  "vzeroupper s = s\<lparr>v0 := take 16 (v0 s)\<rparr>"

lemma vbytes_bounds: "0 < vbytes v" "vbytes v \<le> 64"
  by (cases v; simp)+

lemma vec_copy_mem:
  "mem (vstore v d (vload v a s)) = copy_mem d a (vbytes v) (mem s)"
  by (simp add: vstore_def vload_def copy_mem_def)

section \<open>Frame facts\<close>

lemma push_simps [simp]:
  "rax (push v s) = rax s" "rbx (push v s) = rbx s" "rcx (push v s) = rcx s" "rdx (push v s) = rdx s"
  "rsi (push v s) = rsi s" "rdi (push v s) = rdi s" "rbp (push v s) = rbp s" "rsp (push v s) = rsp s - 8"
  "r12 (push v s) = r12 s" "r13 (push v s) = r13 s" "r14 (push v s) = r14 s" "r15 (push v s) = r15 s"
  "rip (push v s) = rip s" "mem (push v s) = mem s" "stk (push v s) = v # stk s" "v0 (push v s) = v0 s"
  by (simp_all add: push_def)

lemma mov_eax_simps [simp]:
  "rax (mov_eax v s) = ucast v"
  "rbx (mov_eax v s) = rbx s" "rcx (mov_eax v s) = rcx s" "rdx (mov_eax v s) = rdx s" "rsi (mov_eax v s) = rsi s"
  "rdi (mov_eax v s) = rdi s" "rbp (mov_eax v s) = rbp s" "rsp (mov_eax v s) = rsp s" "r8 (mov_eax v s) = r8 s"
  "r9 (mov_eax v s) = r9 s" "r10 (mov_eax v s) = r10 s" "r11 (mov_eax v s) = r11 s" "r12 (mov_eax v s) = r12 s"
  "r13 (mov_eax v s) = r13 s" "r14 (mov_eax v s) = r14 s" "r15 (mov_eax v s) = r15 s" "rip (mov_eax v s) = rip s"
  "v0 (mov_eax v s) = v0 s" "mem (mov_eax v s) = mem s" "stk (mov_eax v s) = stk s"
  by (simp_all add: mov_eax_def)

lemma vzeroupper_frame [simp]:
  "rax (vzeroupper s) = rax s" "rbx (vzeroupper s) = rbx s" "rcx (vzeroupper s) = rcx s"
  "rdx (vzeroupper s) = rdx s" "rsi (vzeroupper s) = rsi s" "rdi (vzeroupper s) = rdi s"
  "rbp (vzeroupper s) = rbp s" "rsp (vzeroupper s) = rsp s" "rip (vzeroupper s) = rip s"
  "r12 (vzeroupper s) = r12 s" "r13 (vzeroupper s) = r13 s" "r14 (vzeroupper s) = r14 s"
  "r15 (vzeroupper s) = r15 s" "stk (vzeroupper s) = stk s" "mem (vzeroupper s) = mem s"
  by (simp_all add: vzeroupper_def)

section \<open>What the string instructions compute\<close>

lemma write_byte: "m(a := b) = write_bytes a [b] m"
  by (rule ext) (auto simp: write_bytes_def unat_eq_0)

lemma rep_movsb_n_frame [simp]:
  "rax (rep_movsb_n n s) = rax s" "rbx (rep_movsb_n n s) = rbx s" "rdx (rep_movsb_n n s) = rdx s"
  "rbp (rep_movsb_n n s) = rbp s" "rsp (rep_movsb_n n s) = rsp s" "stk (rep_movsb_n n s) = stk s"
  "r12 (rep_movsb_n n s) = r12 s" "r13 (rep_movsb_n n s) = r13 s" "r14 (rep_movsb_n n s) = r14 s"
  "r15 (rep_movsb_n n s) = r15 s" "rip (rep_movsb_n n s) = rip s" "v0 (rep_movsb_n n s) = v0 s"
  by (induction n arbitrary: s) simp_all

lemma rep_stosb_n_frame [simp]:
  "rax (rep_stosb_n n s) = rax s" "rbx (rep_stosb_n n s) = rbx s" "rdx (rep_stosb_n n s) = rdx s"
  "rsi (rep_stosb_n n s) = rsi s"
  "rbp (rep_stosb_n n s) = rbp s" "rsp (rep_stosb_n n s) = rsp s" "stk (rep_stosb_n n s) = stk s"
  "r12 (rep_stosb_n n s) = r12 s" "r13 (rep_stosb_n n s) = r13 s" "r14 (rep_stosb_n n s) = r14 s"
  "r15 (rep_stosb_n n s) = r15 s" "rip (rep_stosb_n n s) = rip s" "v0 (rep_stosb_n n s) = v0 s"
  by (induction n arbitrary: s) simp_all

lemma mem_rep_movsb_n:
  assumes "separate (rdi s) n (rsi s) n" and "n \<le> 2 ^ 64"
  shows "mem (rep_movsb_n n s) = copy_mem (rdi s) (rsi s) n (mem s)"
  using assms
proof (induction n arbitrary: s)
  case (Suc n)
  let ?s = "s\<lparr>mem := (mem s)(rdi s := mem s (rsi s)), rdi := rdi s + 1, rsi := rsi s + 1, rcx := rcx s - 1\<rparr>"
  have "separate (rdi s + of_nat 1) n (rsi s + of_nat 1) n"
    using Suc.prems(1) by (rule separate_part) simp_all
  then have "mem (rep_movsb_n n ?s) = copy_mem (rdi ?s) (rsi ?s) n (mem ?s)"
    using Suc.prems(2) by (intro Suc.IH) simp_all
  also have "mem ?s = copy_mem (rdi s) (rsi s) 1 (mem s)"
    by (simp add: copy_mem_def write_byte read_bytes_def)
  also have "copy_mem (rdi ?s) (rsi ?s) n \<dots> = copy_mem (rdi s) (rsi s) (1 + n) (mem s)"
    using copy_mem_add [of "rdi s" 1 n "rsi s" "mem s"] Suc.prems by simp
  finally show ?case by (simp only: rep_movsb_n.simps plus_1_eq_Suc)
qed simp

lemma mem_rep_stosb_n:
  assumes "n \<le> 2 ^ 64"
  shows "mem (rep_stosb_n n s) = write_bytes (rdi s) (replicate n (ucast (rax s))) (mem s)"
  using assms
proof (induction n arbitrary: s)
  case (Suc n)
  then show ?case
    using write_bytes_append [of "[ucast (rax s)]" "replicate n (ucast (rax s))" "rdi s" "mem s"]
    by (simp add: write_byte)
qed simp

lemma rep_movsb_simps [simp]:
  "rax (rep_movsb s) = rax s" "rbx (rep_movsb s) = rbx s" "rdx (rep_movsb s) = rdx s"
  "rbp (rep_movsb s) = rbp s" "rsp (rep_movsb s) = rsp s" "stk (rep_movsb s) = stk s"
  "r12 (rep_movsb s) = r12 s" "r13 (rep_movsb s) = r13 s" "r14 (rep_movsb s) = r14 s"
  "r15 (rep_movsb s) = r15 s" "rip (rep_movsb s) = rip s" "v0 (rep_movsb s) = v0 s"
  by (simp_all add: rep_movsb_def)

lemma rep_stosb_simps [simp]:
  "rax (rep_stosb s) = rax s" "rbx (rep_stosb s) = rbx s" "rdx (rep_stosb s) = rdx s"
  "rsi (rep_stosb s) = rsi s"
  "rbp (rep_stosb s) = rbp s" "rsp (rep_stosb s) = rsp s" "stk (rep_stosb s) = stk s"
  "r12 (rep_stosb s) = r12 s" "r13 (rep_stosb s) = r13 s" "r14 (rep_stosb s) = r14 s"
  "r15 (rep_stosb s) = r15 s" "rip (rep_stosb s) = rip s" "v0 (rep_stosb s) = v0 s"
  by (simp_all add: rep_stosb_def)

lemma mem_rep_movsb:
  assumes "separate (rdi s) (unat (rcx s)) (rsi s) (unat (rcx s))"
  shows "mem (rep_movsb s) = copy_mem (rdi s) (rsi s) (unat (rcx s)) (mem s)"
  using assms unsigned_less [of "rcx s", where 'a = nat]
  by (simp add: rep_movsb_def mem_rep_movsb_n)

lemma mem_rep_stosb:
  "mem (rep_stosb s) = write_bytes (rdi s) (replicate (unat (rcx s)) (ucast (rax s))) (mem s)"
  using unsigned_less [of "rcx s", where 'a = nat]
  by (simp add: rep_stosb_def mem_rep_stosb_n)

end
