(* ===== verification/Simd_Packer.thy ===== *)
theory Simd_Packer
  imports X86_Machine
begin

text \<open>
  The marshalling routines of \<^verbatim>\<open>src/marshall/simd_packer.asm\<close> (the hash is in
  \<open>Simd_Hash\<close>), one definition per routine and one function per loop. A routine is entered
  with its arguments in the System V registers and its return address on top of the stack;
  \<open>ra n\<close> is the return address the call instruction on line \<open>n\<close> of the file pushes.

  What is proved: every loop ends; a routine copies (or zeroes) exactly the bytes it was
  given and leaves every other byte alone, restores the callee-saved registers and returns
  to its caller; and where this fails (the AVX-512 path), what happens instead.
\<close>

section \<open>The vector copy loop\<close>

text \<open>\<^verbatim>\<open>mov rax, r14; sub rax, rbx; cmp rax, W; jl\<close> followed by one load and one store of
  \<open>W\<close> bytes and \<^verbatim>\<open>add rbx, W\<close>.\<close>

function copy_loop :: "vec \<Rightarrow> cpu \<Rightarrow> cpu" where
  "copy_loop v s =
     (let s1 = s\<lparr>rax := r14 s - rbx s\<rparr> in
      if rax s1 <s of_nat (vbytes v) then s1
      else let s2 = vload v (r13 s1 + rbx s1) s1;
               s3 = vstore v (r12 s2 + rbx s2) s2
           in copy_loop v (s3\<lparr>rbx := rbx s3 + of_nat (vbytes v)\<rparr>))"
  by pat_completeness auto

lemma vbytes_word:
  "\<not> bit (of_nat (vbytes v) :: u64) 63" "0 < (of_nat (vbytes v) :: u64)"
  "unat (of_nat (vbytes v) :: u64) = vbytes v"
  by (cases v; simp)+

lemma not_sless_width:
  assumes "\<not> x <s (of_nat (vbytes v) :: u64)"
  shows "of_nat (vbytes v) \<le> x" "vbytes v \<le> unat x"
proof -
  show "of_nat (vbytes v) \<le> x" using assms by (simp add: sless_small [OF vbytes_word(1)] not_less)
  then show "vbytes v \<le> unat x" by (simp add: word_le_nat_alt vbytes_word)
qed

lemma sless_width:
  assumes "unat x < 2 ^ 63"
  shows "x <s (of_nat (vbytes v) :: u64) \<longleftrightarrow> unat x < vbytes v"
  using assms by (simp add: sless_small [OF vbytes_word(1)] bit63_iff word_less_nat_alt vbytes_word(3))

termination copy_loop
proof (relation "measure (\<lambda>(v, s). unat (r14 s - rbx s))")
  fix v s s1 s2 s3
  assume s1: "s1 = s\<lparr>rax := r14 s - rbx s\<rparr>"
    and ge: "\<not> rax s1 <s (of_nat (vbytes v) :: u64)"
    and s2: "s2 = vload v (r13 s1 + rbx s1) s1" and s3: "s3 = vstore v (r12 s2 + rbx s2) s2"
  have "unat (r14 s - rbx s - of_nat (vbytes v)) < unat (r14 s - rbx s)"
    using ge by (intro unat_sub_less not_sless_width) (simp_all add: s1 vbytes_word)
  then show "((v, s3\<lparr>rbx := rbx s3 + of_nat (vbytes v)\<rparr>), (v, s)) \<in> measure (\<lambda>(v, s). unat (r14 s - rbx s))"
    by (simp add: s1 s2 s3 vload_def vstore_def diff_diff_eq)
qed simp

declare copy_loop.simps [simp del]

lemma copy_loop_frame [simp]:
  "rdx (copy_loop v s) = rdx s" "rbp (copy_loop v s) = rbp s" "rsp (copy_loop v s) = rsp s"
  "rsi (copy_loop v s) = rsi s" "rdi (copy_loop v s) = rdi s"
  "r12 (copy_loop v s) = r12 s" "r13 (copy_loop v s) = r13 s" "r14 (copy_loop v s) = r14 s"
  "r15 (copy_loop v s) = r15 s" "rip (copy_loop v s) = rip s" "stk (copy_loop v s) = stk s"
  by (induction v s rule: copy_loop.induct;
      subst copy_loop.simps; simp add: Let_def vload_def vstore_def)+

lemma copy_loop_effect:
  assumes "n = unat (r14 s - rbx s)" and "n < 2 ^ 63"
    and "separate (r12 s + rbx s) n (r13 s + rbx s) n"
  shows "mem (copy_loop v s) = copy_mem (r12 s + rbx s) (r13 s + rbx s) (n div vbytes v * vbytes v) (mem s)
    \<and> rbx (copy_loop v s) = rbx s + of_nat (n div vbytes v * vbytes v)"
  using assms
proof (induction v s arbitrary: n rule: copy_loop.induct)
  case (1 v s)
  let ?w = "vbytes v" and ?W = "of_nat (vbytes v) :: u64"
  let ?t = "vstore v (r12 s + rbx s) (vload v (r13 s + rbx s) (s\<lparr>rax := r14 s - rbx s\<rparr>))\<lparr>rbx := rbx s + ?W\<rparr>"
  have guard: "r14 s - rbx s <s ?W \<longleftrightarrow> n < ?w" using "1.prems" by (simp add: sless_width)
  show ?case
  proof (cases "n < ?w")
    case True
    then show ?thesis using guard by (simp add: copy_loop.simps [of v s] Let_def)
  next
    case False
    define k where "k = n - ?w"
    have n: "n = ?w + k" and q: "n div ?w * ?w = ?w + k div ?w * ?w"
      using False vbytes_bounds [of v] by (simp_all add: k_def le_div_geq)
    have step: "copy_loop v s = copy_loop v ?t"
      using False guard by (simp add: copy_loop.simps [of v s] Let_def vload_def vstore_def)
    have t: "r12 ?t = r12 s" "r13 ?t = r13 s" "r14 ?t = r14 s" "rbx ?t = rbx s + ?W"
      "mem ?t = copy_mem (r12 s + rbx s) (r13 s + rbx s) ?w (mem s)"
      by (simp_all add: vload_def vstore_def copy_mem_def)
    have k: "k = unat (r14 ?t - rbx ?t)"
    proof -
      have "unat (r14 s - rbx s - ?W) = n - ?w"
        using False "1.prems"(1) by (subst unat_sub) (simp_all add: word_le_nat_alt vbytes_word(3))
      then show ?thesis by (simp add: k_def t diff_diff_eq)
    qed
    have "separate (r12 s + rbx s + ?W) k (r13 s + rbx s + ?W) k"
      by (rule separate_part [OF "1.prems"(3)]) (simp_all add: n)
    then have sep: "separate (r12 ?t + rbx ?t) k (r13 ?t + rbx ?t) k" by (simp only: t ac_simps)
    have IH: "mem (copy_loop v ?t) = copy_mem (r12 ?t + rbx ?t) (r13 ?t + rbx ?t) (k div ?w * ?w) (mem ?t)
        \<and> rbx (copy_loop v ?t) = rbx ?t + of_nat (k div ?w * ?w)"
      using "1.IH" [of "s\<lparr>rax := r14 s - rbx s\<rparr>" _ _ k] False guard k sep "1.prems"(2) n
      by (simp add: vload_def vstore_def)
    have bound: "?w + k div ?w * ?w \<le> n"
      using n div_times_less_eq_dividend [of k ?w] by linarith
    then have "?w + k div ?w * ?w \<le> 2 ^ 64" using "1.prems"(2) by simp
    then have "copy_mem (r12 s + rbx s + ?W) (r13 s + rbx s + ?W) (k div ?w * ?w)
        (copy_mem (r12 s + rbx s) (r13 s + rbx s) ?w (mem s))
      = copy_mem (r12 s + rbx s) (r13 s + rbx s) (?w + k div ?w * ?w) (mem s)"
      using bound separate_part [OF "1.prems"(3), of 0 "?w + k div ?w * ?w" 0 "?w + k div ?w * ?w"]
      by (intro copy_mem_add) simp_all
    then show ?thesis using IH unfolding q by (simp add: step t ac_simps)
  qed
qed

section \<open>The packing routines\<close>

definition byte_copy :: "cpu \<Rightarrow> cpu" where
  "byte_copy s = rep_movsb (s\<lparr>rcx := rax s, rsi := r13 s + rbx s, rdi := r12 s + rbx s\<rparr>)"

text \<open>\<open>.pack_remaining\<close>: fewer than 32 bytes are left.\<close>

definition pack_remaining :: "cpu \<Rightarrow> cpu" where
  "pack_remaining s =
     (let s = s\<lparr>rax := r14 s - rbx s\<rparr> in
      if rax s = 0 then s
      else if \<not> rax s <s 16 then
        let s = vload XMM (r13 s + rbx s) s;
            s = vstore XMM (r12 s + rbx s) s;
            s = s\<lparr>rbx := rbx s + 16\<rparr>;
            s = s\<lparr>rax := r14 s - rbx s\<rparr>
        in if rax s = 0 then s else byte_copy s
      else byte_copy s)"

definition simd_pack_256bit :: "cpu \<Rightarrow> cpu" where
  "simd_pack_256bit s =
     (let s = push (rbp s) s;
          s = s\<lparr>rbp := rsp s\<rparr>;
          s = vzeroupper s;
          s = s\<lparr>rbx := 0, rcx := 0\<rparr>;
          s = copy_loop YMM s;
          s = pack_remaining s;
          s = s\<lparr>rax := r14 s\<rparr>;
          s = vzeroupper s;
          s = pop rbp_update s
      in ret s)"

text \<open>The AVX-512 routine jumps (\<^verbatim>\<open>jmp simd_pack_256bit\<close>) with its own frame still
  pushed when fewer than 64 bytes are left.\<close>

definition simd_pack_512bit :: "cpu \<Rightarrow> cpu" where
  "simd_pack_512bit s =
     (let s = push (rbp s) s;
          s = s\<lparr>rbp := rsp s\<rparr>;
          s = s\<lparr>rbx := 0\<rparr>;
          s = copy_loop ZMM s;
          s = s\<lparr>r13 := r13 s + rbx s\<rparr>;
          s = s\<lparr>r12 := r12 s + rbx s\<rparr>;
          s = s\<lparr>r14 := r14 s - rbx s\<rparr>
      in if r14 s = 0 then
           let s = s\<lparr>rax := r14 s\<rparr>;
               s = pop rbp_update s
           in ret s
         else simd_pack_256bit s)"

definition check_avx512_support :: "cpuid_fn \<Rightarrow> cpu \<Rightarrow> cpu" where
  "check_avx512_support cpuid s =
     (let s = push (rbx s) s;
          s = push (rcx s) s;
          q = cpuid 7 0;
          s = s\<lparr>rax := ucast (eax q), rbx := ucast (ebx q), rcx := ucast (ecx q), rdx := ucast (edx q)\<rparr>;
          s = (if bit (rbx s) 16 then mov_eax 1 s else mov_eax 0 s);
          s = pop rcx_update s;
          s = pop rbx_update s
      in ret s)"

text \<open>Prologue and epilogue of \<open>simd_pack_data\<close>.\<close>

definition pack_enter :: "cpu \<Rightarrow> cpu" where
  "pack_enter s =
     (let s = push (rbp s) s;
          s = s\<lparr>rbp := rsp s\<rparr>;
          s = push (rbx s) s;
          s = push (r12 s) s;
          s = push (r13 s) s;
          s = push (r14 s) s;
          s = push (r15 s) s
      in s\<lparr>r12 := rdi s, r13 := rsi s, r14 := rdx s, r15 := rcx s\<rparr>)"

definition pack_exit :: "cpu \<Rightarrow> cpu" where
  "pack_exit s =
     (let s = pop r15_update s;
          s = pop r14_update s;
          s = pop r13_update s;
          s = pop r12_update s;
          s = pop rbx_update s;
          s = pop rbp_update s
      in ret s)"

definition simd_pack_data :: "cpuid_fn \<Rightarrow> (nat \<Rightarrow> u64) \<Rightarrow> cpu \<Rightarrow> exec" where
  "simd_pack_data cpuid ra s =
     (let s = pack_enter s;
          use_avx2 = (\<lambda>s. resume_at (ra 63) (simd_pack_256bit (push (ra 63) s))
                       (\<lambda>s. Returned (pack_exit (vzeroupper s))))
      in if r12 s = 0 then Returned (pack_exit (mov_eax (- 1) s))
         else if r13 s = 0 then Returned (pack_exit (mov_eax (- 1) s))
         else if r14 s = 0 then Returned (pack_exit (mov_eax 0 s))
         else if bit (r14 s) 63 then Returned (pack_exit (mov_eax (- 1) s))
         else if \<not> bit (r15 s) 0 then use_avx2 s
         else resume_at (ra 68) (check_avx512_support cpuid (push (ra 68) s))
           (\<lambda>s. if (ucast (rax s) :: u32) = 0 then use_avx2 s
                else resume_at (ra 73) (simd_pack_512bit (push (ra 73) s))
                       (\<lambda>s. Returned (pack_exit (vzeroupper s)))))"

section \<open>The other routines\<close>

definition frame_enter :: "cpu \<Rightarrow> cpu" where
  "frame_enter s =
     (let s = push (rbp s) s;
          s = s\<lparr>rbp := rsp s\<rparr>;
          s = push (rbx s) s;
          s = push (r12 s) s;
          s = push (r13 s) s;
          s = push (r14 s) s
      in s\<lparr>r12 := rdi s, r13 := rsi s, r14 := rdx s\<rparr>)"

definition frame_exit :: "cpu \<Rightarrow> cpu" where
  "frame_exit s =
     (let s = vzeroupper s;
          s = pop r14_update s;
          s = pop r13_update s;
          s = pop r12_update s;
          s = pop rbx_update s;
          s = pop rbp_update s
      in ret s)"

text \<open>\<open>.unpack_remaining\<close> and \<open>.memcpy_remaining\<close>: fewer than 32 bytes, one at a time.\<close>

definition copy_remaining :: "cpu \<Rightarrow> cpu" where
  "copy_remaining s =
     (let s = s\<lparr>rax := r14 s - rbx s\<rparr> in if rax s = 0 then s else byte_copy s)"

text \<open>\<open>.invalid_param\<close> has no jump behind it and runs into \<open>.zero_size\<close>.\<close>

definition simd_unpack_data :: "cpu \<Rightarrow> cpu" where
  "simd_unpack_data s =
     (let s = frame_enter s;
          zero_size = (\<lambda>s. frame_exit (mov_eax 0 s));
          invalid_param = (\<lambda>s. zero_size (mov_eax (- 1) s))
      in if r12 s = 0 then invalid_param s
         else if r13 s = 0 then invalid_param s
         else if r14 s = 0 then zero_size s
         else if bit (r14 s) 63 then invalid_param s
         else let s = vzeroupper s;
                  s = s\<lparr>rbx := 0\<rparr>;
                  s = copy_loop YMM s;
                  s = copy_remaining s;
                  s = s\<lparr>rax := r14 s\<rparr>
              in frame_exit s)"

text \<open>The loop of \<open>simd_secure_memcpy\<close> for aligned buffers. \<^verbatim>\<open>vmovdqa\<close> raises a
  general-protection fault on an address that is not a multiple of 32: \<open>None\<close>.\<close>

function memcpy_loop :: "cpu \<Rightarrow> cpu option" where
  "memcpy_loop s =
     (let s1 = s\<lparr>rax := r14 s - rbx s\<rparr> in
      if rax s1 <s 32 then Some s1
      else if (r13 s1 + rbx s1) AND 0x1F \<noteq> 0 then None
      else let s2 = vload YMM (r13 s1 + rbx s1) s1 in
           if (r12 s2 + rbx s2) AND 0x1F \<noteq> 0 then None
           else let s3 = vstore YMM (r12 s2 + rbx s2) s2
                in memcpy_loop (s3\<lparr>rbx := rbx s3 + 32\<rparr>))"
  by pat_completeness auto

lemma sub32_less: "\<not> (x::u64) <s 32 \<Longrightarrow> unat (x - 32) < unat x"
  using not_sless_width [of x YMM] by (intro unat_sub_less) simp_all

termination memcpy_loop
  by (relation "measure (\<lambda>s. unat (r14 s - rbx s))")
    (auto simp: vload_def vstore_def diff_diff_eq [symmetric] sub32_less)

declare memcpy_loop.simps [simp del]

definition simd_secure_memcpy :: "cpu \<Rightarrow> cpu option" where
  "simd_secure_memcpy s =
     (let s = frame_enter s;
          memcpy_remaining = (\<lambda>s. let s = copy_remaining s; s = s\<lparr>rax := r14 s\<rparr> in frame_exit s)
      in if r12 s AND 0x1F \<noteq> 0 \<or> r13 s AND 0x1F \<noteq> 0
         then Some (memcpy_remaining (copy_loop YMM (s\<lparr>rbx := 0\<rparr>)))
         else map_option memcpy_remaining (memcpy_loop (s\<lparr>rbx := 0\<rparr>)))"

function zero_loop :: "cpu \<Rightarrow> cpu" where
  "zero_loop s =
     (let s1 = s\<lparr>rax := rsi s - rbx s\<rparr> in
      if rax s1 <s 32 then s1
      else let s2 = vstore YMM (rdi s1 + rbx s1) s1
           in zero_loop (s2\<lparr>rbx := rbx s2 + 32\<rparr>))"
  by pat_completeness auto
termination zero_loop
  by (relation "measure (\<lambda>s. unat (rsi s - rbx s))")
    (auto simp: vstore_def diff_diff_eq [symmetric] sub32_less)

declare zero_loop.simps [simp del]

text \<open>\<open>simd_zero_memory\<close> with a null buffer or size 0 goes to \<open>.zero_done\<close> with
  whatever \<open>rax\<close> held at entry.\<close>

definition zero_fill :: "cpu \<Rightarrow> cpu" where
  "zero_fill s =
     (let s = s\<lparr>v0 := replicate 32 0\<rparr>;
          s = s\<lparr>rbx := 0\<rparr>;
          s = zero_loop s;
          s = s\<lparr>rax := rsi s - rbx s\<rparr>;
          s = (if rax s = 0 then s
               else let s = s\<lparr>rdi := rdi s + rbx s\<rparr>;
                        s = s\<lparr>rcx := rax s\<rparr>;
                        s = mov_eax 0 s
                    in rep_stosb s)
      in s\<lparr>rax := rsi s\<rparr>)"

definition simd_zero_memory :: "cpu \<Rightarrow> cpu" where
  "simd_zero_memory s =
     (let s = push (rbp s) s;
          s = s\<lparr>rbp := rsp s\<rparr>;
          s = push (rbx s) s;
          s = push (rdi s) s;
          s = push (rsi s) s;
          zero_done = (\<lambda>s. let s = vzeroupper s;
                              s = pop rsi_update s;
                              s = pop rdi_update s;
                              s = pop rbx_update s;
                              s = pop rbp_update s
                          in ret s)
      in if rdi s = 0 then zero_done s
         else if rsi s = 0 then zero_done s
         else zero_done (zero_fill s))"

section \<open>What the tails of the loops do\<close>

lemma byte_copy_frame [simp]:
  "rdx (byte_copy s) = rdx s" "rbp (byte_copy s) = rbp s" "rsp (byte_copy s) = rsp s"
  "r12 (byte_copy s) = r12 s" "r13 (byte_copy s) = r13 s" "r14 (byte_copy s) = r14 s"
  "r15 (byte_copy s) = r15 s" "rip (byte_copy s) = rip s" "stk (byte_copy s) = stk s"
  by (simp_all add: byte_copy_def)

lemma copy_remaining_frame [simp]:
  "rdx (copy_remaining s) = rdx s" "rbp (copy_remaining s) = rbp s" "rsp (copy_remaining s) = rsp s"
  "r12 (copy_remaining s) = r12 s" "r13 (copy_remaining s) = r13 s" "r14 (copy_remaining s) = r14 s"
  "r15 (copy_remaining s) = r15 s" "rip (copy_remaining s) = rip s" "stk (copy_remaining s) = stk s"
  by (simp_all add: copy_remaining_def Let_def)

lemma pack_remaining_frame [simp]:
  "rdx (pack_remaining s) = rdx s" "rbp (pack_remaining s) = rbp s" "rsp (pack_remaining s) = rsp s"
  "r12 (pack_remaining s) = r12 s" "r13 (pack_remaining s) = r13 s" "r14 (pack_remaining s) = r14 s"
  "r15 (pack_remaining s) = r15 s" "rip (pack_remaining s) = rip s" "stk (pack_remaining s) = stk s"
  by (simp_all add: pack_remaining_def Let_def vload_def vstore_def)

lemma mem_byte_copy:
  assumes "n = unat (rax s)" and "separate (r12 s + rbx s) n (r13 s + rbx s) n"
  shows "mem (byte_copy s) = copy_mem (r12 s + rbx s) (r13 s + rbx s) n (mem s)"
  using assms by (simp add: byte_copy_def mem_rep_movsb)

lemma mem_copy_remaining:
  assumes "n = unat (r14 s - rbx s)" and "separate (r12 s + rbx s) n (r13 s + rbx s) n"
  shows "mem (copy_remaining s) = copy_mem (r12 s + rbx s) (r13 s + rbx s) n (mem s)"
  using assms mem_byte_copy [of n "s\<lparr>rax := r14 s - rbx s\<rparr>"]
  by (simp add: copy_remaining_def Let_def)

lemma mem_pack_remaining:
  assumes n: "n = unat (r14 s - rbx s)" "n < 32"
    and sep: "separate (r12 s + rbx s) n (r13 s + rbx s) n"
  shows "mem (pack_remaining s) = copy_mem (r12 s + rbx s) (r13 s + rbx s) n (mem s)"
proof (cases "n < 16")
  case True
  then have "r14 s - rbx s <s 16"
    using n sless_width [of "r14 s - rbx s" XMM] by simp
  then show ?thesis
    using n(1) sep mem_byte_copy [of n "s\<lparr>rax := r14 s - rbx s\<rparr>"]
    by (simp add: pack_remaining_def Let_def)
next
  case False
  define k where "k = n - 16"
  define t where "t = vstore XMM (r12 s + rbx s) (vload XMM (r13 s + rbx s) (s\<lparr>rax := r14 s - rbx s\<rparr>))
      \<lparr>rbx := rbx s + 16, rax := r14 s - (rbx s + 16)\<rparr>"
  have ge: "\<not> r14 s - rbx s <s 16" "r14 s - rbx s \<noteq> 0"
    using n False sless_width [of "r14 s - rbx s" XMM] by auto
  have rest: "k = unat (r14 s - (rbx s + 16))"
  proof -
    have "unat (r14 s - rbx s - 16) = n - 16"
      using n False by (subst unat_sub) (simp_all add: word_le_nat_alt)
    then show ?thesis by (simp add: k_def diff_diff_eq)
  qed
  have t: "r12 t = r12 s" "r13 t = r13 s" "rbx t = rbx s + 16" "rax t = r14 s - (rbx s + 16)"
    "mem t = copy_mem (r12 s + rbx s) (r13 s + rbx s) 16 (mem s)"
    by (simp_all add: t_def vload_def vstore_def copy_mem_def)
  have run: "pack_remaining s = (if r14 s - (rbx s + 16) = 0 then t else byte_copy t)"
    using ge by (simp add: pack_remaining_def Let_def t_def vload_def vstore_def)
  have "separate (r12 s + rbx s + of_nat 16) k (r13 s + rbx s + of_nat 16) k"
    using sep by (rule separate_part) (use False in \<open>simp_all add: k_def\<close>)
  then have "mem (byte_copy t) = copy_mem (r12 s + rbx s + of_nat 16) (r13 s + rbx s + of_nat 16) k (mem t)"
    using rest mem_byte_copy [of k t] by (simp add: t ac_simps)
  also have "\<dots> = copy_mem (r12 s + rbx s) (r13 s + rbx s) (16 + k) (mem s)"
    unfolding t using sep n False by (intro copy_mem_add) (simp_all add: k_def)
  finally have bc: "mem (byte_copy t) = copy_mem (r12 s + rbx s) (r13 s + rbx s) (16 + k) (mem s)" .
  have "n = 16 + k" using False by (simp add: k_def)
  then show ?thesis using run bc rest t by (auto simp: unat_eq_0)
qed

text \<open>A loop in steps of \<open>W\<close> bytes and a tail for the rest make one copy.\<close>

lemma loop_then_tail:
  assumes "n = unat (r14 s)" "rbx s = 0" and "n < 2 ^ 63" and "separate (r12 s) n (r13 s) n"
    and "mem u = copy_mem (r12 s + rbx (copy_loop v s)) (r13 s + rbx (copy_loop v s))
                   (unat (r14 s - rbx (copy_loop v s))) (mem (copy_loop v s))"
  shows "mem u = copy_mem (r12 s) (r13 s) n (mem s)"
    and "unat (r14 s - rbx (copy_loop v s)) = n mod vbytes v"
proof -
  let ?w = "vbytes v" and ?q = "n div vbytes v * vbytes v"
  have L: "mem (copy_loop v s) = copy_mem (r12 s) (r13 s) ?q (mem s)" "rbx (copy_loop v s) = of_nat ?q"
    using copy_loop_effect [of n s v] assms(1-4) by simp_all
  have qle: "?q \<le> n" by (rule div_times_less_eq_dividend)
  have nq: "n = ?q + n mod ?w" by simp
  have "r14 s - rbx (copy_loop v s) = of_nat (n mod ?w)"
  proof -
    have "r14 s = of_nat n" using assms(1) by simp
    also have "\<dots> = of_nat ?q + of_nat (n mod ?w)" using nq by (metis of_nat_add)
    finally show ?thesis using L(2) by simp
  qed
  moreover have "n mod ?w < 2 ^ 64" using assms(3) le_less_trans [OF mod_less_eq_dividend [of n ?w]] by simp
  ultimately show rest: "unat (r14 s - rbx (copy_loop v s)) = n mod ?w" by (simp add: unat_of_nat)
  have "mem u = copy_mem (r12 s + of_nat ?q) (r13 s + of_nat ?q) (n mod ?w) (copy_mem (r12 s) (r13 s) ?q (mem s))"
    using assms(5) rest L by simp
  also have "\<dots> = copy_mem (r12 s) (r13 s) (?q + n mod ?w) (mem s)"
    using assms(3,4) nq by (intro copy_mem_add) simp_all
  finally show "mem u = copy_mem (r12 s) (r13 s) n (mem s)" by simp
qed

section \<open>The routines meet their contracts\<close>

text \<open>The calling convention: callee-saved registers and the stack pointer are restored, the
  return address is popped and taken.\<close>

definition abi_return :: "cpu \<Rightarrow> cpu \<Rightarrow> bool" where
  "abi_return s t \<longleftrightarrow> rbx t = rbx s \<and> rbp t = rbp s \<and> r12 t = r12 s \<and> r13 t = r13 s \<and> r14 t = r14 s
     \<and> r15 t = r15 s \<and> rsp t = rsp s + 8 \<and> rip t = hd (stk s) \<and> stk t = tl (stk s)"

lemma pack_256_frame [simp]:
  "rax (simd_pack_256bit s) = r14 s" "rbp (simd_pack_256bit s) = rbp s"
  "r12 (simd_pack_256bit s) = r12 s" "r13 (simd_pack_256bit s) = r13 s"
  "r14 (simd_pack_256bit s) = r14 s" "r15 (simd_pack_256bit s) = r15 s"
  "rip (simd_pack_256bit s) = hd (stk s)" "stk (simd_pack_256bit s) = tl (stk s)"
  "rsp (simd_pack_256bit s) = rsp s + 8"
  by (simp_all add: simd_pack_256bit_def Let_def stack_defs)

lemma mem_pack_256:
  assumes "n = unat (r14 s)" and "n < 2 ^ 63" and "separate (r12 s) n (r13 s) n"
  shows "mem (simd_pack_256bit s) = copy_mem (r12 s) (r13 s) n (mem s)"
proof -
  let ?s = "vzeroupper (push (rbp s) s\<lparr>rbp := rsp s - 8\<rparr>)\<lparr>rbx := 0, rcx := 0\<rparr>"
  let ?l = "copy_loop YMM ?s"
  have a: "r12 ?s = r12 s" "r13 ?s = r13 s" "r14 ?s = r14 s" "rbx ?s = 0" "mem ?s = mem s"
    by (simp_all add: push_def)
  have m: "unat (r14 ?s - rbx ?l) = n mod vbytes YMM" "unat (r14 ?s - rbx ?l) < 32"
    "unat (r14 ?s - rbx ?l) \<le> n"
    using loop_then_tail(2) [of n ?s "?l\<lparr>mem := copy_mem (r12 ?s + rbx ?l) (r13 ?s + rbx ?l)
        (unat (r14 ?s - rbx ?l)) (mem ?l)\<rparr>" YMM] assms a by simp_all
  have q: "rbx ?l = of_nat (n div vbytes YMM * vbytes YMM)"
    using copy_loop_effect [of n ?s YMM] assms a by simp
  have "separate (r12 s + rbx ?l) (n mod 32) (r13 s + rbx ?l) (n mod 32)"
    unfolding q using assms(3) by (rule separate_part) simp_all
  then have "mem (pack_remaining ?l) = copy_mem (r12 ?s + rbx ?l) (r13 ?s + rbx ?l)
      (unat (r14 ?s - rbx ?l)) (mem ?l)"
    using m a mem_pack_remaining [of "unat (r14 ?s - rbx ?l)" ?l] by simp
  then have "mem (pack_remaining ?l) = copy_mem (r12 s) (r13 s) n (mem s)"
    using loop_then_tail(1) [of n ?s "pack_remaining ?l" YMM] assms a by simp
  then show ?thesis by (simp add: simd_pack_256bit_def Let_def stack_defs)
qed

lemma pack_enter_simps [simp]:
  "rax (pack_enter s) = rax s" "rbx (pack_enter s) = rbx s" "rcx (pack_enter s) = rcx s"
  "rdx (pack_enter s) = rdx s" "rsi (pack_enter s) = rsi s" "rdi (pack_enter s) = rdi s"
  "rbp (pack_enter s) = rsp s - 8" "rsp (pack_enter s) = rsp s - 48"
  "r12 (pack_enter s) = rdi s" "r13 (pack_enter s) = rsi s" "r14 (pack_enter s) = rdx s"
  "r15 (pack_enter s) = rcx s" "rip (pack_enter s) = rip s" "mem (pack_enter s) = mem s"
  "stk (pack_enter s) = r15 s # r14 s # r13 s # r12 s # rbx s # rbp s # stk s"
  by (simp_all add: pack_enter_def Let_def push_def)

lemma pack_exit_simps:
  assumes "stk t = r15 s # r14 s # r13 s # r12 s # rbx s # rbp s # stk s" and "rsp t = rsp s - 48"
  shows "abi_return s (pack_exit t)" "rax (pack_exit t) = rax t" "mem (pack_exit t) = mem t"
  using assms by (simp_all add: pack_exit_def Let_def pop_def ret_def abi_return_def)

lemma check_avx512_frame [simp]:
  "rbx (check_avx512_support q s) = rbx s" "rcx (check_avx512_support q s) = rcx s"
  "rbp (check_avx512_support q s) = rbp s" "rsp (check_avx512_support q s) = rsp s + 8"
  "r12 (check_avx512_support q s) = r12 s" "r13 (check_avx512_support q s) = r13 s"
  "r14 (check_avx512_support q s) = r14 s" "r15 (check_avx512_support q s) = r15 s"
  "rip (check_avx512_support q s) = hd (stk s)" "stk (check_avx512_support q s) = tl (stk s)"
  "mem (check_avx512_support q s) = mem s"
  "rax (check_avx512_support q s) = (if bit (ebx (q 7 0)) 16 then 1 else 0)"
  by (simp_all add: check_avx512_support_def Let_def stack_defs mov_eax_def bit_simps)

text \<open>The CPU reports AVX-512F.\<close>

definition has_avx512 :: "cpuid_fn \<Rightarrow> bool" where
  "has_avx512 q \<longleftrightarrow> bit (ebx (q 7 0)) 16"

text \<open>The AVX2 path of \<open>simd_pack_data\<close>: taken when the flag is clear or the CPU has no AVX-512.\<close>

lemma pack_avx2_lemma:
  assumes "rdi s \<noteq> 0" "rsi s \<noteq> 0" "0 < n" "n = unat (rdx s)" "n < 2 ^ 63"
    and "separate (rdi s) n (rsi s) n"
    and "\<not> bit (rcx s) 0 \<or> \<not> has_avx512 cpuid"
  shows "\<exists>t. simd_pack_data cpuid ra s = Returned t \<and> rax t = rdx s
    \<and> mem t = copy_mem (rdi s) (rsi s) n (mem s) \<and> abi_return s t"
proof -
  have nz: "rdx s \<noteq> 0" "\<not> bit (rdx s) 63" using assms by (auto simp: bit63_iff)
  have pk: "abi_return s (pack_exit (vzeroupper (simd_pack_256bit (push (ra 63) u))))
      \<and> rax (pack_exit (vzeroupper (simd_pack_256bit (push (ra 63) u)))) = rdx s
      \<and> mem (pack_exit (vzeroupper (simd_pack_256bit (push (ra 63) u)))) = copy_mem (rdi s) (rsi s) n (mem s)"
    if u: "stk u = stk (pack_enter s)" "rsp u = rsp (pack_enter s)" "r12 u = rdi s" "r13 u = rsi s"
      "r14 u = rdx s" "mem u = mem s" for u
    using u assms(4-6) pack_exit_simps [of "vzeroupper (simd_pack_256bit (push (ra 63) u))" s]
      mem_pack_256 [of n "push (ra 63) u"] by simp
  show ?thesis
  proof (cases "bit (rcx s) 0")
    case False
    then show ?thesis using assms(1,2) nz pk [of "pack_enter s"]
      by (simp add: simd_pack_data_def Let_def resume_at_def)
  next
    case True
    then have "\<not> bit (ebx (cpuid 7 0)) 16" using assms(7) by (simp add: has_avx512_def)
    then show ?thesis
      using True assms(1,2) nz pk [of "check_avx512_support cpuid (push (ra 68) (pack_enter s))"]
      by (simp add: simd_pack_data_def Let_def resume_at_def)
  qed
qed

section \<open>The AVX-512 path\<close>

text \<open>State of \<open>simd_pack_512bit\<close> when its loop has ended and the parameters are adjusted.\<close>

definition after_512_loop :: "cpu \<Rightarrow> cpu" where
  "after_512_loop s =
     (let u = copy_loop ZMM (push (rbp s) s\<lparr>rbp := rsp s - 8, rbx := 0\<rparr>)
      in u\<lparr>r13 := r13 u + rbx u, r12 := r12 u + rbx u, r14 := r14 u - rbx u\<rparr>)"

lemma pack_512_unfold:
  "simd_pack_512bit s =
     (let u = after_512_loop s in
      if r14 u = 0 then ret (pop rbp_update (u\<lparr>rax := r14 u\<rparr>)) else simd_pack_256bit u)"
  by (simp add: simd_pack_512bit_def after_512_loop_def Let_def)

lemma after_512_loop_state:
  assumes "n = unat (r14 s)" and "n < 2 ^ 63" and "separate (r12 s) n (r13 s) n"
  shows "unat (r14 (after_512_loop s)) = n mod 64"
    "r12 (after_512_loop s) = r12 s + of_nat (n div 64 * 64)"
    "r13 (after_512_loop s) = r13 s + of_nat (n div 64 * 64)"
    "mem (after_512_loop s) = copy_mem (r12 s) (r13 s) (n div 64 * 64) (mem s)"
    "stk (after_512_loop s) = rbp s # stk s" "rsp (after_512_loop s) = rsp s - 8"
proof -
  let ?s = "push (rbp s) s\<lparr>rbp := rsp s - 8, rbx := 0\<rparr>"
  let ?l = "copy_loop ZMM ?s"
  have a: "r12 ?s = r12 s" "r13 ?s = r13 s" "r14 ?s = r14 s" "rbx ?s = 0" "mem ?s = mem s" by simp_all
  have L: "mem ?l = copy_mem (r12 s) (r13 s) (n div 64 * 64) (mem s)" "rbx ?l = of_nat (n div 64 * 64)"
    using copy_loop_effect [of n ?s ZMM] assms a by simp_all
  have "unat (r14 ?s - rbx ?l) = n mod vbytes ZMM"
    using loop_then_tail(2) [of n ?s "?l\<lparr>mem := copy_mem (r12 ?s + rbx ?l) (r13 ?s + rbx ?l)
        (unat (r14 ?s - rbx ?l)) (mem ?l)\<rparr>" ZMM] assms a by simp
  then show "unat (r14 (after_512_loop s)) = n mod 64" by (simp add: after_512_loop_def Let_def)
  show "r12 (after_512_loop s) = r12 s + of_nat (n div 64 * 64)"
    "r13 (after_512_loop s) = r13 s + of_nat (n div 64 * 64)"
    "mem (after_512_loop s) = copy_mem (r12 s) (r13 s) (n div 64 * 64) (mem s)"
    "stk (after_512_loop s) = rbp s # stk s" "rsp (after_512_loop s) = rsp s - 8"
    using L by (simp_all add: after_512_loop_def Let_def)
qed

text \<open>All 64-byte blocks and nothing else: the routine returns properly, and returns 0.\<close>

lemma pack_512_multiple:
  assumes "n = unat (r14 s)" "n < 2 ^ 63" "separate (r12 s) n (r13 s) n" and "64 dvd n"
  shows "mem (simd_pack_512bit s) = copy_mem (r12 s) (r13 s) n (mem s)"
    "rax (simd_pack_512bit s) = 0" "rip (simd_pack_512bit s) = hd (stk s)"
    "stk (simd_pack_512bit s) = tl (stk s)" "rsp (simd_pack_512bit s) = rsp s + 8"
proof -
  let ?u = "after_512_loop s"
  have "n mod 64 = 0" using assms(4) by simp
  moreover from this have "n div 64 * 64 = n" by (simp add: mod_eq_0_iff_dvd)
  ultimately show "mem (simd_pack_512bit s) = copy_mem (r12 s) (r13 s) n (mem s)"
    "rax (simd_pack_512bit s) = 0" "rip (simd_pack_512bit s) = hd (stk s)"
    "stk (simd_pack_512bit s) = tl (stk s)" "rsp (simd_pack_512bit s) = rsp s + 8"
    using after_512_loop_state [OF assms(1-3)]
    by (simp_all add: pack_512_unfold Let_def unat_eq_0 stack_defs)
qed

text \<open>A rest of 1 to 63 bytes: all bytes are copied, but the final \<open>ret\<close> pops the saved frame
  pointer of \<open>simd_pack_data\<close>, which \<open>simd_pack_512bit\<close> pushed, and jumps there.\<close>

lemma pack_512_rest:
  assumes n: "n = unat (r14 s)" "n < 2 ^ 63" and sep: "separate (r12 s) n (r13 s) n" and "\<not> 64 dvd n"
  shows "mem (simd_pack_512bit s) = copy_mem (r12 s) (r13 s) n (mem s)"
    "rip (simd_pack_512bit s) = rbp s"
proof -
  let ?u = "after_512_loop s" and ?q = "n div 64 * 64"
  note st = after_512_loop_state [OF n sep]
  have r: "r14 ?u \<noteq> 0" using st(1) assms(4) by (metis dvd_eq_mod_eq_0 unat_0)
  have nq: "?q + n mod 64 = n" by simp
  have "separate (r12 s + of_nat ?q) (n mod 64) (r13 s + of_nat ?q) (n mod 64)"
    using sep by (rule separate_part) simp_all
  then have "mem (simd_pack_256bit ?u) = copy_mem (r12 s + of_nat ?q) (r13 s + of_nat ?q) (n mod 64)
      (copy_mem (r12 s) (r13 s) ?q (mem s))"
    using mem_pack_256 [of "n mod 64" ?u] st by simp
  also have "\<dots> = copy_mem (r12 s) (r13 s) (?q + n mod 64) (mem s)"
    using sep n(2) nq by (intro copy_mem_add) simp_all
  finally show "mem (simd_pack_512bit s) = copy_mem (r12 s) (r13 s) n (mem s)"
    using r by (simp add: pack_512_unfold Let_def)
  show "rip (simd_pack_512bit s) = rbp s" using r st by (simp add: pack_512_unfold Let_def)
qed

lemma pack_512_frame [simp]:
  "rbx (after_512_loop s) = rbx (copy_loop ZMM (push (rbp s) s\<lparr>rbp := rsp s - 8, rbx := 0\<rparr>))"
  by (simp add: after_512_loop_def Let_def)

section \<open>Unpacking, copying, zeroing\<close>

lemma frame_enter_simps [simp]:
  "rax (frame_enter s) = rax s" "rbx (frame_enter s) = rbx s"
  "rdx (frame_enter s) = rdx s" "rsi (frame_enter s) = rsi s" "rdi (frame_enter s) = rdi s"
  "rsp (frame_enter s) = rsp s - 40" "r15 (frame_enter s) = r15 s"
  "r12 (frame_enter s) = rdi s" "r13 (frame_enter s) = rsi s" "r14 (frame_enter s) = rdx s"
  "mem (frame_enter s) = mem s" "stk (frame_enter s) = r14 s # r13 s # r12 s # rbx s # rbp s # stk s"
  by (simp_all add: frame_enter_def Let_def push_def)

lemma frame_exit_simps:
  assumes "stk t = r14 s # r13 s # r12 s # rbx s # rbp s # stk s" "rsp t = rsp s - 40" "r15 t = r15 s"
  shows "abi_return s (frame_exit t)" "rax (frame_exit t) = rax t" "mem (frame_exit t) = mem t"
  using assms by (simp_all add: frame_exit_def Let_def pop_def ret_def abi_return_def)

text \<open>The loop and the byte-wise tail, as \<open>simd_unpack_data\<close> and \<open>simd_secure_memcpy\<close> run them.\<close>

lemma ymm_copy:
  assumes "n = unat (r14 u)" "rbx u = 0" "n < 2 ^ 63" "separate (r12 u) n (r13 u) n"
  shows "mem (copy_remaining (copy_loop YMM u)) = copy_mem (r12 u) (r13 u) n (mem u)"
proof -
  let ?l = "copy_loop YMM u" and ?k = "unat (r14 u - rbx (copy_loop YMM u))"
  have k: "?k = n mod 32"
    using loop_then_tail(2) [of n u "?l\<lparr>mem := copy_mem (r12 u + rbx ?l) (r13 u + rbx ?l) ?k (mem ?l)\<rparr>" YMM] assms
    by simp
  have q: "rbx ?l = of_nat (n div 32 * 32)" using copy_loop_effect [of n u YMM] assms by simp
  have "separate (r12 u + rbx ?l) (n mod 32) (r13 u + rbx ?l) (n mod 32)"
    unfolding q using assms(4) by (rule separate_part) simp_all
  then show ?thesis
    using k mem_copy_remaining [of ?k ?l] loop_then_tail(1) [of n u "copy_remaining ?l" YMM] assms by simp
qed

lemma unpack_lemma:
  assumes "rdi s \<noteq> 0" "rsi s \<noteq> 0" "0 < n" "n = unat (rdx s)" "n < 2 ^ 63"
    and "separate (rdi s) n (rsi s) n"
  shows "rax (simd_unpack_data s) = rdx s"
    "mem (simd_unpack_data s) = copy_mem (rdi s) (rsi s) n (mem s)"
    "abi_return s (simd_unpack_data s)"
proof -
  have nz: "rdx s \<noteq> 0" "\<not> bit (rdx s) 63" using assms by (auto simp: bit63_iff)
  let ?u = "vzeroupper (frame_enter s)\<lparr>rbx := 0\<rparr>"
  let ?t = "copy_remaining (copy_loop YMM ?u)\<lparr>rax := rdx s\<rparr>"
  have run: "simd_unpack_data s = frame_exit ?t"
    using assms(1,2) nz by (simp add: simd_unpack_data_def Let_def)
  have "mem ?t = copy_mem (rdi s) (rsi s) n (mem s)" using ymm_copy [of n ?u] assms by simp
  then show "rax (simd_unpack_data s) = rdx s"
    "mem (simd_unpack_data s) = copy_mem (rdi s) (rsi s) n (mem s)" "abi_return s (simd_unpack_data s)"
    unfolding run using frame_exit_simps [of ?t s] by simp_all
qed

lemma aligned_add:
  fixes x y :: u64
  assumes "x AND 0x1F = 0" and "y AND 0x1F = 0"
  shows "(x + y) AND 0x1F = 0"
proof -
  have m: "z AND 0x1F = 0 \<longleftrightarrow> 32 dvd unat z" for z :: u64
  proof -
    have "z AND 0x1F = take_bit 5 z" by (simp add: take_bit_eq_mask mask_numeral)
    also have "\<dots> = 0 \<longleftrightarrow> unat z mod 32 = 0"
      by (simp add: take_bit_eq_mod unat_mod_distrib flip: unat_eq_0)
    finally show ?thesis by (simp add: dvd_eq_mod_eq_0)
  qed
  show ?thesis using assms
    by (simp add: m unat_word_ariths dvd_mod)
qed

text \<open>On aligned buffers the \<^verbatim>\<open>vmovdqa\<close> loop never faults and does what the \<^verbatim>\<open>vmovdqu\<close>
  loop does.\<close>

lemma memcpy_loop_aligned:
  assumes "r12 s AND 0x1F = 0" "r13 s AND 0x1F = 0" "rbx s AND 0x1F = 0"
  shows "memcpy_loop s = Some (copy_loop YMM s)"
  using assms
proof (induction s rule: memcpy_loop.induct)
  case (1 s)
  let ?t = "vstore YMM (r12 s + rbx s) (vload YMM (r13 s + rbx s) (s\<lparr>rax := r14 s - rbx s\<rparr>))\<lparr>rbx := rbx s + 32\<rparr>"
  have al: "(r13 s + rbx s) AND 0x1F = 0" "(r12 s + rbx s) AND 0x1F = 0" "(rbx s + 32) AND 0x1F = 0"
    using "1.prems" aligned_add [of _ "rbx s"] aligned_add [of "rbx s" 32] by simp_all
  show ?case
  proof (cases "r14 s - rbx s <s 32")
    case True
    then show ?thesis by (simp add: memcpy_loop.simps [of s] copy_loop.simps [of YMM s] Let_def)
  next
    case False
    have "memcpy_loop ?t = Some (copy_loop YMM ?t)"
      using "1.IH" [OF refl _ _ refl _ refl] False al "1.prems" by (simp add: vload_def vstore_def)
    then show ?thesis
      using False al by (simp add: memcpy_loop.simps [of s] copy_loop.simps [of YMM s] Let_def vload_def vstore_def)
  qed
qed

text \<open>\<open>simd_secure_memcpy\<close> checks neither for null pointers nor the size.\<close>

lemma memcpy_lemma:
  assumes "n = unat (rdx s)" "n < 2 ^ 63" "separate (rdi s) n (rsi s) n"
  shows "\<exists>t. simd_secure_memcpy s = Some t \<and> rax t = rdx s
    \<and> mem t = copy_mem (rdi s) (rsi s) n (mem s) \<and> abi_return s t"
proof -
  let ?u = "frame_enter s\<lparr>rbx := 0\<rparr>"
  let ?t = "copy_remaining (copy_loop YMM ?u)\<lparr>rax := rdx s\<rparr>"
  have "simd_secure_memcpy s = Some (frame_exit ?t)"
    using memcpy_loop_aligned [of ?u] by (simp add: simd_secure_memcpy_def Let_def)
  moreover have "mem ?t = copy_mem (rdi s) (rsi s) n (mem s)" using ymm_copy [of n ?u] assms by simp
  ultimately show ?thesis using frame_exit_simps [of ?t s] by simp
qed

lemma zero_loop_frame [simp]:
  "rdx (zero_loop s) = rdx s" "rbp (zero_loop s) = rbp s" "rsp (zero_loop s) = rsp s"
  "rsi (zero_loop s) = rsi s" "rdi (zero_loop s) = rdi s"
  "r12 (zero_loop s) = r12 s" "r13 (zero_loop s) = r13 s" "r14 (zero_loop s) = r14 s"
  "r15 (zero_loop s) = r15 s" "rip (zero_loop s) = rip s" "stk (zero_loop s) = stk s"
  by (induction s rule: zero_loop.induct; subst zero_loop.simps; simp add: Let_def vstore_def)+

lemma zero_loop_effect:
  assumes "n = unat (rsi s - rbx s)" and "n < 2 ^ 63" and "v0 s = replicate 32 0"
  shows "mem (zero_loop s) = write_bytes (rdi s + rbx s) (replicate (n div 32 * 32) 0) (mem s)
    \<and> rbx (zero_loop s) = rbx s + of_nat (n div 32 * 32)"
  using assms
proof (induction s arbitrary: n rule: zero_loop.induct)
  case (1 s)
  have guard: "rsi s - rbx s <s 32 \<longleftrightarrow> n < 32" using "1.prems" sless_width [of "rsi s - rbx s" YMM] by simp
  show ?case
  proof (cases "n < 32")
    case True
    then show ?thesis using guard by (simp add: zero_loop.simps [of s])
  next
    case False
    define k where "k = n - 32"
    let ?t = "vstore YMM (rdi s + rbx s) (s\<lparr>rax := rsi s - rbx s\<rparr>)\<lparr>rbx := rbx s + 32\<rparr>"
    have q: "n div 32 * 32 = 32 + k div 32 * 32" using False by (simp add: k_def le_div_geq)
    have step: "zero_loop s = zero_loop ?t"
      using False guard by (simp add: zero_loop.simps [of s] vstore_def)
    have "unat (rsi s - rbx s - 32) = k"
      using False "1.prems"(1) by (subst unat_sub) (simp_all add: word_le_nat_alt k_def)
    then have "mem (zero_loop ?t) = write_bytes (rdi ?t + rbx ?t) (replicate (k div 32 * 32) 0) (mem ?t)
        \<and> rbx (zero_loop ?t) = rbx ?t + of_nat (k div 32 * 32)"
      using "1.IH" [of "s\<lparr>rax := rsi s - rbx s\<rparr>" _ k] False guard "1.prems"
      by (simp add: vstore_def diff_diff_eq k_def)
    moreover have "mem ?t = write_bytes (rdi s + rbx s) (replicate 32 0) (mem s)" "rbx ?t = rbx s + 32" "rdi ?t = rdi s"
      using "1.prems"(3) by (simp_all add: vstore_def)
    moreover have "write_bytes (rdi s + rbx s) (replicate (32 + k div 32 * 32) 0) (mem s)
      = write_bytes (rdi s + rbx s + 32) (replicate (k div 32 * 32) 0)
          (write_bytes (rdi s + rbx s) (replicate 32 0) (mem s))"
    proof -
      have "32 + k div 32 * 32 \<le> n" using q div_times_less_eq_dividend [of n 32] by linarith
      then have "32 + k div 32 * 32 \<le> 2 ^ 64" using "1.prems"(2) by simp
      then show ?thesis
        using write_bytes_append [of "replicate 32 0" "replicate (k div 32 * 32) 0" "rdi s + rbx s" "mem s"]
        unfolding replicate_add by simp
    qed
    ultimately show ?thesis unfolding q by (simp add: step ac_simps)
  qed
qed

lemma zero_fill_frame [simp]:
  "rax (zero_fill s) = rsi s" "rsi (zero_fill s) = rsi s" "rbp (zero_fill s) = rbp s"
  "rsp (zero_fill s) = rsp s" "stk (zero_fill s) = stk s" "rip (zero_fill s) = rip s"
  "r12 (zero_fill s) = r12 s" "r13 (zero_fill s) = r13 s" "r14 (zero_fill s) = r14 s"
  "r15 (zero_fill s) = r15 s"
  by (simp_all add: zero_fill_def Let_def)

lemma mem_zero_fill:
  assumes "n = unat (rsi s)" "n < 2 ^ 63"
  shows "mem (zero_fill s) = write_bytes (rdi s) (replicate n 0) (mem s)"
proof -
  define l where "l = zero_loop (s\<lparr>v0 := replicate 32 0, rbx := 0\<rparr>)"
  let ?q = "n div 32 * 32"
  have L: "mem l = write_bytes (rdi s) (replicate ?q 0) (mem s)" "rbx l = of_nat ?q" "rdi l = rdi s" "rsi l = rsi s"
    using zero_loop_effect [of n "s\<lparr>v0 := replicate 32 0, rbx := 0\<rparr>"] assms by (simp_all add: l_def)
  have nq: "?q + n mod 32 = n" by simp
  have "rsi s = of_nat n" using assms(1) by simp
  also have "\<dots> = of_nat ?q + of_nat (n mod 32)" using nq by (metis of_nat_add)
  finally have "rsi s - rbx l = of_nat (n mod 32)" using L(2) by simp
  then have rest: "unat (rsi s - rbx l) = n mod 32" by (simp add: unat_of_nat)
  have "replicate n (0::u8) = replicate ?q 0 @ replicate (n mod 32) 0" by (simp flip: replicate_add)
  then have cat: "write_bytes (rdi s + rbx l) (replicate (n mod 32) 0) (mem l)
      = write_bytes (rdi s) (replicate n 0) (mem s)"
    using assms(2) nq L by (simp add: write_bytes_append)
  show ?thesis
  proof (cases "rsi s - rbx l = 0")
    case True
    then have "n mod 32 = 0" using rest by simp
    then show ?thesis using True cat L by (simp add: zero_fill_def Let_def flip: l_def)
  next
    case False
    then show ?thesis using rest cat L by (simp add: zero_fill_def Let_def mem_rep_stosb flip: l_def)
  qed
qed

lemma zero_memory_lemma:
  assumes "rdi s \<noteq> 0" "0 < n" "n = unat (rsi s)" "n < 2 ^ 63"
  shows "rax (simd_zero_memory s) = rsi s"
    "mem (simd_zero_memory s) = write_bytes (rdi s) (replicate n 0) (mem s)"
    "abi_return s (simd_zero_memory s)" "rdi (simd_zero_memory s) = rdi s" "rsi (simd_zero_memory s) = rsi s"
proof -
  have nz: "rsi s \<noteq> 0" using assms by auto
  show "rax (simd_zero_memory s) = rsi s"
    "mem (simd_zero_memory s) = write_bytes (rdi s) (replicate n 0) (mem s)"
    "abi_return s (simd_zero_memory s)" "rdi (simd_zero_memory s) = rdi s" "rsi (simd_zero_memory s) = rsi s"
    using assms nz by (simp_all add: simd_zero_memory_def Let_def mem_zero_fill pop_def ret_def abi_return_def)
qed

end
