(* ===== verification/Simd_Hash.thy ===== *)
theory Simd_Hash
  imports Simd_Packer
begin

text \<open>
  \<open>simd_hash_blocks\<close> of \<^verbatim>\<open>src/marshall/simd_packer.asm\<close>: a 256-bit non-cryptographic
  digest in four 64-bit lanes (\<open>r8\<close>-\<open>r11\<close>), one round per byte and a MurmurHash3-style
  finaliser. The routine is modelled instruction by instruction; \<open>hash_spec\<close> is the digest
  as a fold over the bytes, and \<open>hash_blocks_lemma\<close> shows that the routine computes it.
  Each step of lane \<open>r10\<close> is a bijection of the lane and injective in the byte, and so is
  the finaliser: two messages that differ in one byte never have the same digest.
\<close>

section \<open>The routine\<close>

definition rol64 :: "nat \<Rightarrow> u64 \<Rightarrow> u64" where
  "rol64 n w = push_bit n w OR drop_bit (64 - n) w"

definition fmix64 :: "cpu \<Rightarrow> cpu" where
  "fmix64 s =
     (let s = s\<lparr>rcx := rax s\<rparr>;
          s = s\<lparr>rcx := drop_bit 33 (rcx s)\<rparr>;
          s = s\<lparr>rax := rax s XOR rcx s\<rparr>;
          s = s\<lparr>rcx := 0xff51afd7ed558ccd\<rparr>;
          s = s\<lparr>rax := rax s * rcx s\<rparr>;
          s = s\<lparr>rcx := rax s\<rparr>;
          s = s\<lparr>rcx := drop_bit 33 (rcx s)\<rparr>;
          s = s\<lparr>rax := rax s XOR rcx s\<rparr>;
          s = s\<lparr>rcx := 0xc4ceb9fe1a85ec53\<rparr>;
          s = s\<lparr>rax := rax s * rcx s\<rparr>;
          s = s\<lparr>rcx := rax s\<rparr>;
          s = s\<lparr>rcx := drop_bit 33 (rcx s)\<rparr>
      in s\<lparr>rax := rax s XOR rcx s\<rparr>)"

text \<open>The body of \<open>.hash_loop\<close>.\<close>

definition hash_round :: "cpu \<Rightarrow> cpu" where
  "hash_round s =
     (let s = s\<lparr>rax := ucast (mem s (r12 s + rbx s))\<rparr>;
          s = s\<lparr>rcx := rax s\<rparr>;
          s = s\<lparr>rcx := rcx s + rbx s\<rparr>;
          s = s\<lparr>r8 := r8 s XOR rcx s\<rparr>;
          s = s\<lparr>r8 := r8 s * r15 s\<rparr>;
          s = s\<lparr>r8 := rol64 13 (r8 s)\<rparr>;
          s = s\<lparr>rcx := rbx s\<rparr>;
          s = s\<lparr>rcx := push_bit 8 (rcx s)\<rparr>;
          s = s\<lparr>rcx := rcx s XOR rax s\<rparr>;
          s = s\<lparr>r9 := r9 s + rcx s\<rparr>;
          s = s\<lparr>r9 := r9 s * r15 s\<rparr>;
          s = s\<lparr>r9 := rol64 29 (r9 s)\<rparr>;
          s = s\<lparr>rcx := rax s\<rparr>;
          s = s\<lparr>rcx := push_bit 32 (rcx s)\<rparr>;
          s = s\<lparr>rcx := rcx s XOR rbx s\<rparr>;
          s = s\<lparr>r10 := r10 s XOR rcx s\<rparr>;
          s = s\<lparr>r10 := r10 s * r15 s\<rparr>;
          s = s\<lparr>r10 := rol64 37 (r10 s)\<rparr>;
          s = s\<lparr>rcx := rax s + rbx s\<rparr>;
          s = s\<lparr>rcx := rcx s XOR r11 s\<rparr>;
          s = s\<lparr>rcx := rcx s * r15 s\<rparr>;
          s = s\<lparr>r11 := r11 s XOR rcx s\<rparr>;
          s = s\<lparr>r11 := rol64 43 (r11 s)\<rparr>
      in s\<lparr>rbx := rbx s + 1\<rparr>)"

lemma hash_round_frame [simp]:
  "rbx (hash_round s) = rbx s + 1" "r12 (hash_round s) = r12 s" "r13 (hash_round s) = r13 s"
  "r14 (hash_round s) = r14 s" "r15 (hash_round s) = r15 s" "mem (hash_round s) = mem s"
  "stk (hash_round s) = stk s" "rsp (hash_round s) = rsp s" "rbp (hash_round s) = rbp s"
  by (simp_all add: hash_round_def Let_def)

function hash_loop :: "cpu \<Rightarrow> cpu" where
  "hash_loop s = (if r13 s \<le> rbx s then s else hash_loop (hash_round s))"
  by pat_completeness auto
termination hash_loop
proof (relation "measure (\<lambda>s. unat (r13 s - rbx s))")
  fix s :: cpu assume "\<not> r13 s \<le> rbx s"
  then have lt: "rbx s < r13 s" by simp
  then have "r13 s - rbx s \<noteq> 0" by auto
  then have "1 \<le> r13 s - rbx s" by (simp add: word_le_nat_alt unat_gt_0 Suc_le_eq)
  then have "unat (r13 s - rbx s - 1) < unat (r13 s - rbx s)" by (rule unat_sub_less) simp
  then show "(hash_round s, s) \<in> measure (\<lambda>s. unat (r13 s - rbx s))" by (simp add: diff_diff_eq)
qed simp

declare hash_loop.simps [simp del]

text \<open>\<^verbatim>\<open>mov [r14 + k], rax\<close>: eight bytes, least significant first.\<close>

definition store64 :: "u64 \<Rightarrow> cpu \<Rightarrow> cpu" where
  "store64 a s = s\<lparr>mem := write_bytes a (le_bytes 8 (rax s)) (mem s)\<rparr>"

definition hash_finalize :: "cpu \<Rightarrow> cpu" where
  "hash_finalize s =
     (let s = store64 (r14 s) (fmix64 (s\<lparr>rax := r8 s\<rparr>));
          s = store64 (r14 s + 8) (fmix64 (s\<lparr>rax := r9 s\<rparr>));
          s = store64 (r14 s + 16) (fmix64 (s\<lparr>rax := r10 s\<rparr>));
          s = store64 (r14 s + 24) (fmix64 (s\<lparr>rax := r11 s\<rparr>))
      in mov_eax 0 s)"

definition hash_zero :: "cpu \<Rightarrow> cpu" where
  "hash_zero s =
     (let s = store64 (r14 s) (s\<lparr>rax := 0x243f6a8885a308d3\<rparr>);
          s = store64 (r14 s + 8) (s\<lparr>rax := 0x13198a2e03707344\<rparr>);
          s = store64 (r14 s + 16) (s\<lparr>rax := 0xa4093822299f31d0\<rparr>);
          s = store64 (r14 s + 24) (s\<lparr>rax := 0x082efa98ec4e6c89\<rparr>)
      in mov_eax 0 s)"

definition hash_init :: "cpu \<Rightarrow> cpu" where
  "hash_init s =
     (let s = s\<lparr>r8 := 0x243f6a8885a308d3\<rparr>;
          s = s\<lparr>r9 := 0x13198a2e03707344\<rparr>;
          s = s\<lparr>r10 := 0xa4093822299f31d0\<rparr>;
          s = s\<lparr>r11 := 0x082efa98ec4e6c89\<rparr>;
          s = s\<lparr>r8 := r8 s XOR r13 s\<rparr>;
          s = s\<lparr>rax := r13 s\<rparr>;
          s = s\<lparr>rax := push_bit 17 (rax s)\<rparr>;
          s = s\<lparr>r9 := r9 s XOR rax s\<rparr>;
          s = s\<lparr>r15 := 0x100000001b3\<rparr>
      in s\<lparr>rbx := 0\<rparr>)"

definition hash_enter :: "cpu \<Rightarrow> cpu" where
  "hash_enter s =
     (let s = push (rbp s) s;
          s = s\<lparr>rbp := rsp s\<rparr>;
          s = push (rbx s) s;
          s = push (r12 s) s;
          s = push (r13 s) s;
          s = push (r14 s) s;
          s = push (r15 s) s
      in s\<lparr>r12 := rdi s, r13 := rsi s, r14 := rdx s\<rparr>)"

text \<open>The epilogue \<open>.hash_done\<close> is the one of \<open>simd_pack_data\<close> after \<^verbatim>\<open>vzeroupper\<close>.\<close>

definition simd_hash_blocks :: "cpu \<Rightarrow> cpu" where
  "simd_hash_blocks s =
     (let s = hash_enter s;
          hash_done = (\<lambda>s. pack_exit (vzeroupper s))
      in if r14 s = 0 then hash_done (mov_eax (- 1) s)
         else if r12 s = 0 then
           (if r13 s = 0 then hash_done (hash_zero s) else hash_done (mov_eax (- 1) s))
         else hash_done (hash_finalize (hash_loop (hash_init s))))"

section \<open>The digest as a function of the bytes\<close>

definition fmix :: "u64 \<Rightarrow> u64" where
  "fmix x0 =
     (let x1 = (x0 XOR drop_bit 33 x0) * 0xff51afd7ed558ccd;
          x2 = (x1 XOR drop_bit 33 x1) * 0xc4ceb9fe1a85ec53
      in x2 XOR drop_bit 33 x2)"

definition lane_prime :: u64 where
  "lane_prime = 0x100000001b3"

type_synonym lanes = "u64 \<times> u64 \<times> u64 \<times> u64"

definition lane_step8 :: "u64 \<Rightarrow> u8 \<Rightarrow> u64 \<Rightarrow> u64" where
  "lane_step8 i b h = rol64 13 ((h XOR (ucast b + i)) * lane_prime)"

definition lane_step9 :: "u64 \<Rightarrow> u8 \<Rightarrow> u64 \<Rightarrow> u64" where
  "lane_step9 i b h = rol64 29 ((h + (push_bit 8 i XOR ucast b)) * lane_prime)"

definition lane_step10 :: "u64 \<Rightarrow> u8 \<Rightarrow> u64 \<Rightarrow> u64" where
  "lane_step10 i b h = rol64 37 ((h XOR (push_bit 32 (ucast b) XOR i)) * lane_prime)"

definition lane_step11 :: "u64 \<Rightarrow> u8 \<Rightarrow> u64 \<Rightarrow> u64" where
  "lane_step11 i b h = rol64 43 (h XOR (((ucast b + i) XOR h) * lane_prime))"

fun hash_fold :: "u64 \<Rightarrow> u8 list \<Rightarrow> lanes \<Rightarrow> lanes" where
  "hash_fold i [] h = h"
| "hash_fold i (b # bs) (h8, h9, h10, h11) =
     hash_fold (i + 1) bs (lane_step8 i b h8, lane_step9 i b h9, lane_step10 i b h10, lane_step11 i b h11)"

definition hash_seed :: "u64 \<Rightarrow> lanes" where
  "hash_seed n = (0x243f6a8885a308d3 XOR n, 0x13198a2e03707344 XOR push_bit 17 n,
                  0xa4093822299f31d0, 0x082efa98ec4e6c89)"

definition hash_output :: "lanes \<Rightarrow> u8 list" where
  "hash_output h = (case h of (h8, h9, h10, h11) \<Rightarrow>
     le_bytes 8 (fmix h8) @ le_bytes 8 (fmix h9) @ le_bytes 8 (fmix h10) @ le_bytes 8 (fmix h11))"

definition hash_spec :: "u8 list \<Rightarrow> u8 list" where
  "hash_spec bs = hash_output (hash_fold 0 bs (hash_seed (of_nat (length bs))))"

section \<open>The routine computes the digest\<close>

definition lanes_of :: "cpu \<Rightarrow> lanes" where
  "lanes_of s = (r8 s, r9 s, r10 s, r11 s)"

lemma hash_round_lanes:
  assumes "r15 s = lane_prime"
  shows "lanes_of (hash_round s) =
    (let i = rbx s; b = mem s (r12 s + rbx s) in
     (lane_step8 i b (r8 s), lane_step9 i b (r9 s), lane_step10 i b (r10 s), lane_step11 i b (r11 s)))"
  using assms
  by (simp add: hash_round_def lanes_of_def Let_def lane_step8_def lane_step9_def lane_step10_def
      lane_step11_def)

lemma hash_loop_frame [simp]:
  "r12 (hash_loop s) = r12 s" "r13 (hash_loop s) = r13 s" "r14 (hash_loop s) = r14 s"
  "r15 (hash_loop s) = r15 s" "mem (hash_loop s) = mem s" "stk (hash_loop s) = stk s"
  "rsp (hash_loop s) = rsp s" "rbp (hash_loop s) = rbp s"
  by (induction s rule: hash_loop.induct; subst hash_loop.simps; simp)+

lemma hash_loop_fold:
  assumes "n = unat (r13 s - rbx s)" "rbx s \<le> r13 s" "r15 s = lane_prime"
  shows "lanes_of (hash_loop s) = hash_fold (rbx s) (read_bytes (mem s) (r12 s + rbx s) n) (lanes_of s)"
  using assms
proof (induction s arbitrary: n rule: hash_loop.induct)
  case (1 s)
  show ?case
  proof (cases "r13 s \<le> rbx s")
    case True
    then have "n = 0" using "1.prems" by simp
    then show ?thesis using True by (simp add: hash_loop.simps [of s])
  next
    case False
    then have lt: "unat (rbx s) < unat (r13 s)" by (simp add: word_less_nat_alt not_le)
    have n: "n = unat (r13 s) - unat (rbx s)" using "1.prems"(1,2) by (simp add: unat_sub word_le_nat_alt)
    have inc: "unat (rbx s + 1) = unat (rbx s) + 1"
      using lt unsigned_less [of "r13 s", where 'a = nat] by (simp add: unat_word_ariths)
    have k: "n - 1 = unat (r13 s - (rbx s + 1))" and le: "rbx s + 1 \<le> r13 s"
      using n lt inc by (simp_all add: unat_sub word_le_nat_alt)
    have "read_bytes (mem s) (r12 s + rbx s) (1 + (n - 1))
        = mem s (r12 s + rbx s) # read_bytes (mem s) (r12 s + (rbx s + 1)) (n - 1)"
      unfolding read_bytes_add by (simp add: read_bytes_def ac_simps)
    moreover have "1 + (n - 1) = n" using n lt by simp
    ultimately have rd: "read_bytes (mem s) (r12 s + rbx s) n
        = mem s (r12 s + rbx s) # read_bytes (mem s) (r12 s + (rbx s + 1)) (n - 1)"
      by (simp only:)
    have "lanes_of (hash_loop (hash_round s))
        = hash_fold (rbx s + 1) (read_bytes (mem s) (r12 s + (rbx s + 1)) (n - 1)) (lanes_of (hash_round s))"
      using "1.IH" [OF False, of "n - 1"] k le "1.prems"(3) by simp
    then show ?thesis
      using False rd hash_round_lanes [of s] "1.prems"(3)
      by (simp add: hash_loop.simps [of s] Let_def lanes_of_def)
  qed
qed

lemma fmix64_simps [simp]:
  "rax (fmix64 s) = fmix (rax s)" "mem (fmix64 s) = mem s" "r8 (fmix64 s) = r8 s"
  "r9 (fmix64 s) = r9 s" "r10 (fmix64 s) = r10 s" "r11 (fmix64 s) = r11 s" "r14 (fmix64 s) = r14 s"
  "stk (fmix64 s) = stk s" "rsp (fmix64 s) = rsp s"
  by (simp_all add: fmix64_def fmix_def Let_def)

lemma write_four:
  assumes "length a = 8" "length b = 8" "length c = 8" "length d = 8"
  shows "write_bytes (p + 24) d (write_bytes (p + 16) c (write_bytes (p + 8) b (write_bytes p a m)))
    = write_bytes p (a @ b @ c @ d) m"
  using assms by (simp add: write_bytes_append ac_simps)

lemma hash_finalize_simps:
  "mem (hash_finalize s) = write_bytes (r14 s) (hash_output (lanes_of s)) (mem s)"
  "rax (hash_finalize s) = 0" "stk (hash_finalize s) = stk s" "rsp (hash_finalize s) = rsp s"
  by (simp_all add: hash_finalize_def store64_def Let_def hash_output_def lanes_of_def write_four)

lemma length_hash_output [simp]: "length (hash_output h) = 32"
  by (simp add: hash_output_def split: prod.split)

lemma length_hash_spec [simp, enc_simps]: "length (hash_spec bs) = 32"
  by (simp add: hash_spec_def)

lemma hash_enter_simps:
  "r12 (hash_enter s) = rdi s" "r13 (hash_enter s) = rsi s" "r14 (hash_enter s) = rdx s"
  "mem (hash_enter s) = mem s" "rsp (hash_enter s) = rsp s - 48"
  "stk (hash_enter s) = r15 s # r14 s # r13 s # r12 s # rbx s # rbp s # stk s"
  by (simp_all add: hash_enter_def Let_def)

lemma hash_init_simps:
  "r12 (hash_init s) = r12 s" "r13 (hash_init s) = r13 s" "r14 (hash_init s) = r14 s"
  "mem (hash_init s) = mem s" "rsp (hash_init s) = rsp s" "stk (hash_init s) = stk s"
  "rbx (hash_init s) = 0" "r15 (hash_init s) = lane_prime" "lanes_of (hash_init s) = hash_seed (r13 s)"
  by (simp_all add: hash_init_def Let_def lane_prime_def lanes_of_def hash_seed_def)

text \<open>For a non-null buffer and output, whatever the size (also 0) and wherever they lie.\<close>

lemma hash_blocks_lemma:
  assumes "rdi s \<noteq> 0" "rdx s \<noteq> 0"
  shows "rax (simd_hash_blocks s) = 0"
    "mem (simd_hash_blocks s) = write_bytes (rdx s) (hash_spec (read_bytes (mem s) (rdi s) (unat (rsi s)))) (mem s)"
    "abi_return s (simd_hash_blocks s)"
proof -
  let ?i = "hash_init (hash_enter s)" and ?t = "vzeroupper (hash_finalize (hash_loop (hash_init (hash_enter s))))"
  have run: "simd_hash_blocks s = pack_exit ?t"
    using assms by (simp add: simd_hash_blocks_def Let_def hash_enter_simps)
  have "lanes_of (hash_loop ?i) = hash_fold 0 (read_bytes (mem s) (rdi s) (unat (rsi s))) (hash_seed (rsi s))"
    using hash_loop_fold [of "unat (rsi s)" ?i] by (simp add: hash_init_simps hash_enter_simps)
  then have "mem ?t = write_bytes (rdx s) (hash_spec (read_bytes (mem s) (rdi s) (unat (rsi s)))) (mem s)"
    by (simp add: hash_finalize_simps hash_init_simps hash_enter_simps hash_spec_def)
  then show "rax (simd_hash_blocks s) = 0"
    "mem (simd_hash_blocks s) = write_bytes (rdx s) (hash_spec (read_bytes (mem s) (rdi s) (unat (rsi s)))) (mem s)"
    "abi_return s (simd_hash_blocks s)"
    unfolding run using pack_exit_simps [of ?t s]
    by (simp_all add: hash_finalize_simps hash_init_simps hash_enter_simps)
qed

text \<open>A null buffer of non-zero size: \<open>eax\<close> is \<open>-1\<close>, and no byte is written.\<close>

lemma hash_blocks_null:
  assumes "rdi s = 0" "rsi s \<noteq> 0"
  shows "rax (simd_hash_blocks s) = 0xFFFFFFFF" "mem (simd_hash_blocks s) = mem s"
    "abi_return s (simd_hash_blocks s)"
  using assms pack_exit_simps [of "vzeroupper (mov_eax (- 1) (hash_enter s))" s]
  by (simp_all add: simd_hash_blocks_def Let_def hash_enter_simps)

section \<open>Injectivity of the steps\<close>

definition ror64 :: "nat \<Rightarrow> u64 \<Rightarrow> u64" where
  "ror64 n w = drop_bit n w OR push_bit (64 - n) w"

lemma ror64_rol64:
  assumes "0 < n" "n < 64"
  shows "ror64 n (rol64 n w) = w"
proof (rule bit_word_eqI)
  fix k assume "k < LENGTH(64)"
  then have k: "k < 64" by simp
  have high: "\<not> bit w j" if "64 \<le> j" for j using that by (simp add: bit_word.rep_eq)
  show "bit (ror64 n (rol64 n w)) k = bit w k"
  proof (cases "k < 64 - n")
    case True
    then show ?thesis using assms k high by (auto simp: ror64_def rol64_def bit_simps)
  next
    case False
    then show ?thesis using assms k high by (auto simp: ror64_def rol64_def bit_simps)
  qed
qed

lemma rol64_inject: "0 < n \<Longrightarrow> n < 64 \<Longrightarrow> rol64 n x = rol64 n y \<Longrightarrow> x = y"
  by (metis ror64_rol64)

text \<open>The multipliers are odd, so multiplication is invertible modulo \<open>2 ^ 64\<close>.\<close>

lemma mult_unit_inject: "c * d = (1::u64) \<Longrightarrow> x * c = y * c \<Longrightarrow> x = y"
proof -
  assume u: "c * d = 1" and e: "x * c = y * c"
  have "x = x * c * d" by (simp only: mult.assoc u mult_1_right)
  also have "\<dots> = y * c * d" by (simp only: e)
  also have "\<dots> = y" by (simp only: mult.assoc u mult_1_right)
  finally show "x = y" .
qed

lemma lane_prime_inject: "x * lane_prime = y * lane_prime \<Longrightarrow> x = y"
  by (rule mult_unit_inject [of lane_prime "0xce965057aff6957b"]) (simp_all add: lane_prime_def)

lemma xor_twice: "((x::u64) XOR z) XOR z = x"
  by (rule bit_word_eqI) (auto simp: bit_simps)

lemma xor_inject:
  assumes e: "(x::u64) XOR z = y XOR z"
  shows "x = y"
proof -
  have "x = (x XOR z) XOR z" by (rule xor_twice [symmetric])
  also have "\<dots> = (y XOR z) XOR z" by (simp only: e)
  also have "\<dots> = y" by (rule xor_twice)
  finally show ?thesis .
qed

lemma xor_inject_left:
  assumes e: "(z::u64) XOR x = z XOR y"
  shows "x = y"
proof (rule xor_inject)
  have "x XOR z = z XOR x" by (rule xor.commute)
  also have "\<dots> = z XOR y" by (rule e)
  also have "\<dots> = y XOR z" by (rule xor.commute)
  finally show "x XOR z = y XOR z" .
qed

lemma xorshift33_inject:
  assumes "(x::u64) XOR drop_bit 33 x = y XOR drop_bit 33 y"
  shows "x = y"
proof -
  have inv: "(z XOR drop_bit 33 z) XOR drop_bit 33 (z XOR drop_bit 33 z) = z" for z :: u64
  proof (rule bit_word_eqI)
    fix k assume "k < LENGTH(64)"
    have "\<not> bit z (33 + (33 + k))" by (simp add: bit_word.rep_eq)
    then show "bit ((z XOR drop_bit 33 z) XOR drop_bit 33 (z XOR drop_bit 33 z)) k = bit z k"
      by (auto simp: bit_xor_iff bit_drop_bit_eq)
  qed
  show ?thesis using arg_cong [OF assms, of "\<lambda>w. w XOR drop_bit 33 w"] by (simp only: inv)
qed

lemma fmix_inject: "fmix x = fmix y \<Longrightarrow> x = y"
proof -
  assume "fmix x = fmix y"
  then have "((x XOR drop_bit 33 x) * 0xff51afd7ed558ccd XOR drop_bit 33 ((x XOR drop_bit 33 x) * 0xff51afd7ed558ccd))
      * 0xc4ceb9fe1a85ec53 = ((y XOR drop_bit 33 y) * 0xff51afd7ed558ccd
        XOR drop_bit 33 ((y XOR drop_bit 33 y) * 0xff51afd7ed558ccd)) * 0xc4ceb9fe1a85ec53"
    unfolding fmix_def Let_def by (rule xorshift33_inject)
  then have "(x XOR drop_bit 33 x) * 0xff51afd7ed558ccd XOR drop_bit 33 ((x XOR drop_bit 33 x) * 0xff51afd7ed558ccd)
      = (y XOR drop_bit 33 y) * 0xff51afd7ed558ccd XOR drop_bit 33 ((y XOR drop_bit 33 y) * 0xff51afd7ed558ccd)"
    by (rule mult_unit_inject [of "0xc4ceb9fe1a85ec53" "0x9cb4b2f8129337db", rotated]) simp
  then have "(x XOR drop_bit 33 x) * 0xff51afd7ed558ccd = (y XOR drop_bit 33 y) * 0xff51afd7ed558ccd"
    by (rule xorshift33_inject)
  then have "x XOR drop_bit 33 x = y XOR drop_bit 33 y"
    by (rule mult_unit_inject [of "0xff51afd7ed558ccd" "0x4f74430c22a54005", rotated]) simp
  then show "x = y" by (rule xorshift33_inject)
qed

lemma lane_step10_cancel:
  assumes "lane_step10 i b h = lane_step10 j c k"
  shows "h XOR (push_bit 32 (ucast b) XOR i) = k XOR (push_bit 32 (ucast c) XOR j)"
proof -
  have "rol64 37 ((h XOR (push_bit 32 (ucast b) XOR i)) * lane_prime)
      = rol64 37 ((k XOR (push_bit 32 (ucast c) XOR j)) * lane_prime)"
    using assms unfolding lane_step10_def .
  then have "(h XOR (push_bit 32 (ucast b) XOR i)) * lane_prime
      = (k XOR (push_bit 32 (ucast c) XOR j)) * lane_prime"
    by (rule rol64_inject [rotated 2]) simp_all
  then show ?thesis by (rule lane_prime_inject)
qed

lemma lane_step10_inject: "lane_step10 i b h = lane_step10 i b h' \<Longrightarrow> h = h'"
  by (drule lane_step10_cancel) (rule xor_inject)

lemma lane_step10_byte:
  assumes "lane_step10 i b h = lane_step10 i b' h"
  shows "b = b'"
proof -
  have "push_bit 32 (ucast b :: u64) XOR i = push_bit 32 (ucast b') XOR i"
    by (rule xor_inject_left [OF lane_step10_cancel [OF assms]])
  then have p: "push_bit 32 (ucast b :: u64) = push_bit 32 (ucast b')" by (rule xor_inject)
  have at: "bit (push_bit 32 (ucast c :: u64)) (32 + k) = bit c k" if "k < 8" for c :: u8 and k
    using that by (simp add: bit_simps)
  show ?thesis
  proof (rule bit_word_eqI)
    fix k :: nat assume "k < LENGTH(8)"
    then have k: "k < 8" by simp
    show "bit b k = bit b' k" using at [OF k, of b] at [OF k, of b'] by (simp only: p)
  qed
qed

fun lane_fold10 :: "u64 \<Rightarrow> u8 list \<Rightarrow> u64 \<Rightarrow> u64" where
  "lane_fold10 i [] h = h"
| "lane_fold10 i (b # bs) h = lane_fold10 (i + 1) bs (lane_step10 i b h)"

lemma hash_fold_lane10: "fst (snd (snd (hash_fold i bs h))) = lane_fold10 i bs (fst (snd (snd h)))"
  by (induction i bs h rule: hash_fold.induct) simp_all

lemma lane_fold10_append:
  "lane_fold10 i (xs @ ys) h = lane_fold10 (i + of_nat (length xs)) ys (lane_fold10 i xs h)"
  by (induction xs arbitrary: i h) (simp_all add: ac_simps)

lemma lane_fold10_inject: "lane_fold10 i bs h = lane_fold10 i bs h' \<Longrightarrow> h = h'"
  by (induction bs arbitrary: i h h') (auto dest: lane_step10_inject)

lemma le_bytes_inject:
  assumes "LENGTH('a) \<le> 8 * n" "le_bytes n x = le_bytes n y"
  shows "x = (y :: 'a::len word)"
  by (rule box_equals [OF arg_cong [OF assms(2), of le_word]]) (rule le_word_le_bytes [OF assms(1)])+

lemma hash_output_lane10:
  assumes "hash_output h = hash_output k"
  shows "fst (snd (snd h)) = fst (snd (snd k))"
proof -
  have out: "le_bytes 8 (fmix (fst (snd (snd g)))) = take 8 (drop 16 (hash_output g))" for g
    by (simp add: hash_output_def split: prod.split)
  have "le_bytes 8 (fmix (fst (snd (snd h)))) = le_bytes 8 (fmix (fst (snd (snd k))))"
    unfolding out assms by (rule refl)
  then have "fmix (fst (snd (snd h))) = fmix (fst (snd (snd k)))"
    by (rule le_bytes_inject [rotated]) simp
  then show ?thesis by (rule fmix_inject)
qed

text \<open>Replacing one byte changes the digest.\<close>

lemma hash_spec_one_byte:
  assumes "a \<noteq> b"
  shows "hash_spec (ps @ a # qs) \<noteq> hash_spec (ps @ b # qs)"
proof
  assume "hash_spec (ps @ a # qs) = hash_spec (ps @ b # qs)"
  then have "fst (snd (snd (hash_fold 0 (ps @ a # qs) (hash_seed (of_nat (length (ps @ a # qs)))))))
      = fst (snd (snd (hash_fold 0 (ps @ b # qs) (hash_seed (of_nat (length (ps @ b # qs)))))))"
    unfolding hash_spec_def by (rule hash_output_lane10)
  then have "lane_fold10 0 (ps @ a # qs) 0xa4093822299f31d0 = lane_fold10 0 (ps @ b # qs) 0xa4093822299f31d0"
    by (simp only: hash_fold_lane10 hash_seed_def fst_conv snd_conv)
  then have "lane_step10 (of_nat (length ps)) a (lane_fold10 0 ps 0xa4093822299f31d0)
      = lane_step10 (of_nat (length ps)) b (lane_fold10 0 ps 0xa4093822299f31d0)"
    by (simp only: lane_fold10_append lane_fold10.simps add_0) (rule lane_fold10_inject)
  then have "a = b" by (rule lane_step10_byte)
  then show False using assms by simp
qed

end
