(* ===== verification/Simd_Abi.thy ===== *)
theory Simd_Abi
  imports Simd_Hash
begin

text \<open>
  The marshalling routines as the C++ code calls them (the \<^verbatim>\<open>extern "C"\<close> block of
  \<^verbatim>\<open>src/main.cpp\<close>). A call puts the arguments into the argument registers, runs the routine
  and reads \<open>rax\<close> and the memory; \<open>None\<close> means that the call does not come back: a
  fault, a return to a wrong address, or a broken calling convention.

  The interface \<open>byte_copier\<close> is what the callers rely on. It is interpreted on
  \<open>simd_pack_data\<close> (where it holds: not on the AVX-512 path), \<open>simd_unpack_data\<close> and
  \<open>simd_secure_memcpy\<close>; \<open>marshaller\<close> puts two copiers together. The interface
  \<open>tamper_evident\<close> is what the trace engine wants of a digest, interpreted on \<open>hash_spec\<close>.
\<close>

section \<open>Calls\<close>

text \<open>The machine the program runs on: what CPUID answers, the return addresses of the call
  instructions in \<^verbatim>\<open>simd_packer.asm\<close>, and the registers at the call.\<close>

record host =
  host_cpuid :: cpuid_fn
  host_ra :: "nat \<Rightarrow> u64"
  host_ctx :: cpu

definition call_regs :: "host \<Rightarrow> u64 \<Rightarrow> u64 \<Rightarrow> u64 \<Rightarrow> u64 \<Rightarrow> memory \<Rightarrow> cpu" where
  "call_regs H a b c d m = (host_ctx H)\<lparr>rdi := a, rsi := b, rdx := c, rcx := d, mem := m\<rparr>"

definition c_return :: "cpu \<Rightarrow> cpu \<Rightarrow> (u64 \<times> memory) option" where
  "c_return s t = (if abi_return s t then Some (rax t, mem t) else None)"

definition c_simd_pack_data :: "host \<Rightarrow> u64 \<Rightarrow> u64 \<Rightarrow> u64 \<Rightarrow> u64 \<Rightarrow> memory \<Rightarrow> (u64 \<times> memory) option" where
  "c_simd_pack_data H dest src sz flags m =
     (let s = call_regs H dest src sz flags m in
      case simd_pack_data (host_cpuid H) (host_ra H) s of
        Returned t \<Rightarrow> c_return s t
      | Diverted t \<Rightarrow> None)"

definition c_simd_unpack_data :: "host \<Rightarrow> u64 \<Rightarrow> u64 \<Rightarrow> u64 \<Rightarrow> u64 \<Rightarrow> memory \<Rightarrow> (u64 \<times> memory) option" where
  "c_simd_unpack_data H dest src sz flags m =
     (let s = call_regs H dest src sz flags m in c_return s (simd_unpack_data s))"

definition c_simd_secure_memcpy :: "host \<Rightarrow> u64 \<Rightarrow> u64 \<Rightarrow> u64 \<Rightarrow> memory \<Rightarrow> (u64 \<times> memory) option" where
  "c_simd_secure_memcpy H dest src sz m =
     (let s = call_regs H dest src sz (rcx (host_ctx H)) m in
      case simd_secure_memcpy s of None \<Rightarrow> None | Some t \<Rightarrow> c_return s t)"

definition c_simd_zero_memory :: "host \<Rightarrow> u64 \<Rightarrow> u64 \<Rightarrow> memory \<Rightarrow> (u64 \<times> memory) option" where
  "c_simd_zero_memory H buffer sz m =
     (let s = call_regs H buffer sz (rdx (host_ctx H)) (rcx (host_ctx H)) m
      in c_return s (simd_zero_memory s))"

definition c_simd_hash_blocks :: "host \<Rightarrow> u64 \<Rightarrow> u64 \<Rightarrow> u64 \<Rightarrow> memory \<Rightarrow> (u64 \<times> memory) option" where
  "c_simd_hash_blocks H data sz hash_out m =
     (let s = call_regs H data sz hash_out (rcx (host_ctx H)) m in c_return s (simd_hash_blocks s))"

lemma call_regs_simps [simp]:
  "rdi (call_regs H a b c d m) = a" "rsi (call_regs H a b c d m) = b" "rdx (call_regs H a b c d m) = c"
  "rcx (call_regs H a b c d m) = d" "mem (call_regs H a b c d m) = m"
  "rsp (call_regs H a b c d m) = rsp (host_ctx H)" "rax (call_regs H a b c d m) = rax (host_ctx H)"
  by (simp_all add: call_regs_def)

section \<open>What a caller relies on\<close>

text \<open>\<open>usable d s n\<close>: the call is a legal one.\<close>

locale byte_copier =
  fixes usable :: "u64 \<Rightarrow> u64 \<Rightarrow> u64 \<Rightarrow> bool"
    and copy :: "u64 \<Rightarrow> u64 \<Rightarrow> u64 \<Rightarrow> memory \<Rightarrow> (u64 \<times> memory) option"
  assumes copies: "usable d s n \<Longrightarrow> unat n < 2 ^ 63 \<Longrightarrow> separate d (unat n) s (unat n) \<Longrightarrow>
    copy d s n m = Some (n, copy_mem d s (unat n) m)"
begin

lemma returns_size:
  assumes "usable d s n" "unat n < 2 ^ 63" "separate d (unat n) s (unat n)"
  shows "\<exists>m'. copy d s n m = Some (n, m') \<and> read_bytes m' d (unat n) = read_bytes m s (unat n)
    \<and> read_bytes m' s (unat n) = read_bytes m s (unat n)
    \<and> (\<forall>x k. separate x k d (unat n) \<longrightarrow> read_bytes m' x k = read_bytes m x k)"
  using copies [OF assms, of m] assms(2) separate_sym [OF assms(3)]
  by (auto simp: copy_mem_def mem_simps)

end

locale marshaller = pack: byte_copier usable_p pack + unpack: byte_copier usable_u unpack
  for usable_p pack usable_u unpack
begin

text \<open>Packing into an enclave buffer and unpacking from it gives the data back.\<close>

lemma roundtrip:
  assumes "usable_p e s n" "usable_u d e n" "unat n < 2 ^ 63"
    and "separate e (unat n) s (unat n)" "separate d (unat n) e (unat n)"
  shows "\<exists>m1 m2. pack e s n m = Some (n, m1) \<and> unpack d e n m1 = Some (n, m2)
    \<and> read_bytes m2 d (unat n) = read_bytes m s (unat n)"
  using pack.returns_size [OF assms(1,3,4), of m] unpack.returns_size [OF assms(2,3,5)] by metis

end

section \<open>The routines meet it\<close>

definition pack_usable :: "host \<Rightarrow> u64 \<Rightarrow> u64 \<Rightarrow> u64 \<Rightarrow> u64 \<Rightarrow> bool" where
  "pack_usable H flags d s n \<longleftrightarrow>
     d \<noteq> 0 \<and> s \<noteq> 0 \<and> n \<noteq> 0 \<and> (\<not> bit flags 0 \<or> \<not> has_avx512 (host_cpuid H))"

definition non_null :: "u64 \<Rightarrow> u64 \<Rightarrow> u64 \<Rightarrow> bool" where
  "non_null d s n \<longleftrightarrow> d \<noteq> 0 \<and> s \<noteq> 0 \<and> n \<noteq> 0"

lemma unat_pos: "(x::u64) \<noteq> 0 \<Longrightarrow> 0 < unat x"
  by (simp add: unat_gt_0)

lemma c_pack_copies:
  assumes "pack_usable H f d s n" "unat n < 2 ^ 63" "separate d (unat n) s (unat n)"
  shows "c_simd_pack_data H d s n f m = Some (n, copy_mem d s (unat n) m)"
proof -
  let ?s = "call_regs H d s n f m"
  have u: "d \<noteq> 0" "s \<noteq> 0" "n \<noteq> 0" "\<not> bit f 0 \<or> \<not> has_avx512 (host_cpuid H)"
    using assms(1) unfolding pack_usable_def by metis+
  obtain t where "simd_pack_data (host_cpuid H) (host_ra H) ?s = Returned t" "rax t = n"
    "mem t = copy_mem d s (unat n) m" "abi_return ?s t"
    using pack_avx2_lemma [of ?s "unat n" "host_cpuid H" "host_ra H", unfolded call_regs_simps,
        OF u(1,2) unat_pos [OF u(3)] refl assms(2,3) u(4)] by metis
  then show ?thesis by (simp add: c_simd_pack_data_def c_return_def)
qed

lemma c_unpack_copies:
  assumes "non_null d s n" "unat n < 2 ^ 63" "separate d (unat n) s (unat n)"
  shows "c_simd_unpack_data H d s n f m = Some (n, copy_mem d s (unat n) m)"
proof -
  let ?s = "call_regs H d s n f m"
  have u: "d \<noteq> 0" "s \<noteq> 0" "n \<noteq> 0" using assms(1) unfolding non_null_def by metis+
  note * = unpack_lemma [of ?s "unat n", unfolded call_regs_simps,
      OF u(1,2) unat_pos [OF u(3)] refl assms(2,3)]
  from * show ?thesis by (simp add: c_simd_unpack_data_def c_return_def)
qed

lemma c_memcpy_copies:
  assumes "unat n < 2 ^ 63" "separate d (unat n) s (unat n)"
  shows "c_simd_secure_memcpy H d s n m = Some (n, copy_mem d s (unat n) m)"
  using memcpy_lemma [of "unat n" "call_regs H d s n (rcx (host_ctx H)) m"] assms
  by (auto simp: c_simd_secure_memcpy_def c_return_def Let_def)

interpretation packer: byte_copier "pack_usable H f" "\<lambda>d s n. c_simd_pack_data H d s n f" for H f
  by unfold_locales (rule c_pack_copies)

interpretation unpacker: byte_copier non_null "\<lambda>d s n. c_simd_unpack_data H d s n f" for H f
  by unfold_locales (rule c_unpack_copies)

interpretation copier: byte_copier "\<lambda>d s n. True" "c_simd_secure_memcpy H" for H
  by unfold_locales (rule c_memcpy_copies)

interpretation simd: marshaller "pack_usable H f" "\<lambda>d s n. c_simd_pack_data H d s n f"
    non_null "\<lambda>d s n. c_simd_unpack_data H d s n g" for H f g
  by unfold_locales

lemma c_zero_memory:
  assumes "b \<noteq> 0" "n \<noteq> 0" "unat n < 2 ^ 63"
  shows "c_simd_zero_memory H b n m = Some (n, write_bytes b (replicate (unat n) 0) m)"
proof -
  let ?s = "call_regs H b n (rdx (host_ctx H)) (rcx (host_ctx H)) m"
  note * = zero_memory_lemma [of ?s "unat n", unfolded call_regs_simps,
      OF assms(1) unat_pos [OF assms(2)] refl assms(3)]
  from * show ?thesis by (simp add: c_simd_zero_memory_def c_return_def)
qed

lemma c_hash_blocks:
  assumes "p \<noteq> 0" "out \<noteq> 0"
  shows "c_simd_hash_blocks H p n out m = Some (0, write_bytes out (hash_spec (read_bytes m p (unat n))) m)"
  using hash_blocks_lemma [of "call_regs H p n out (rcx (host_ctx H)) m"] assms
  by (simp add: c_simd_hash_blocks_def c_return_def Let_def)

lemma c_hash_blocks_null:
  "n \<noteq> 0 \<Longrightarrow> c_simd_hash_blocks H 0 n out m = Some (0xFFFFFFFF, m)"
  using hash_blocks_null [of "call_regs H 0 n out (rcx (host_ctx H)) m"]
  by (simp add: c_simd_hash_blocks_def c_return_def Let_def)

section \<open>Results and errors of the calls\<close>

lemma c_pack_error:
  assumes "d = 0 \<or> s = 0 \<or> bit n 63"
  shows "c_simd_pack_data H d s n f m = Some (0xFFFFFFFF, m)"
proof -
  let ?s = "call_regs H d s n f m"
  have nz: "n \<noteq> 0" if "bit n 63" using that by auto
  have "simd_pack_data (host_cpuid H) (host_ra H) ?s = Returned (pack_exit (mov_eax (- 1) (pack_enter ?s)))"
    using assms nz by (auto simp: simd_pack_data_def Let_def)
  then show ?thesis
    using pack_exit_simps [of "mov_eax (- 1) (pack_enter ?s)" ?s]
    by (simp add: c_simd_pack_data_def c_return_def)
qed

lemma c_pack_zero:
  assumes "d \<noteq> 0" "s \<noteq> 0"
  shows "c_simd_pack_data H d s 0 f m = Some (0, m)"
  using assms pack_exit_simps [of "mov_eax 0 (pack_enter (call_regs H d s 0 f m))" "call_regs H d s 0 f m"]
  by (simp add: c_simd_pack_data_def c_return_def simd_pack_data_def Let_def)

lemma c_unpack_refused:
  assumes "d = 0 \<or> s = 0 \<or> n = 0 \<or> bit n 63"
  shows "c_simd_unpack_data H d s n f m = Some (0, m)"
proof -
  let ?s = "call_regs H d s n f m"
  have nz: "n \<noteq> 0" if "bit n 63" using that by auto
  have "simd_unpack_data ?s = frame_exit (mov_eax 0 (mov_eax (- 1) (frame_enter ?s)))
    \<or> simd_unpack_data ?s = frame_exit (mov_eax 0 (frame_enter ?s))"
    using assms nz by (auto simp: simd_unpack_data_def Let_def)
  then show ?thesis
    using frame_exit_simps [of "mov_eax 0 (mov_eax (- 1) (frame_enter ?s))" ?s]
      frame_exit_simps [of "mov_eax 0 (frame_enter ?s)" ?s]
    by (auto simp: c_simd_unpack_data_def c_return_def)
qed

text \<open>The AVX-512 path: \<open>simd_pack_data\<close> calls \<open>simd_pack_512bit\<close>.\<close>

definition pack_512_call :: "host \<Rightarrow> cpu \<Rightarrow> cpu" where
  "pack_512_call H s = push (host_ra H 73) (check_avx512_support (host_cpuid H) (push (host_ra H 68) (pack_enter s)))"

lemma pack_512_call_simps [simp]:
  "r12 (pack_512_call H s) = rdi s" "r13 (pack_512_call H s) = rsi s" "r14 (pack_512_call H s) = rdx s"
  "rbp (pack_512_call H s) = rsp s - 8" "mem (pack_512_call H s) = mem s" "rsp (pack_512_call H s) = rsp s - 56"
  "stk (pack_512_call H s) = host_ra H 73 # r15 s # r14 s # r13 s # r12 s # rbx s # rbp s # stk s"
  by (simp_all add: pack_512_call_def)

lemma pack_data_512:
  assumes "rdi s \<noteq> 0" "rsi s \<noteq> 0" "rdx s \<noteq> 0" "\<not> bit (rdx s) 63" "bit (rcx s) 0" "has_avx512 (host_cpuid H)"
  shows "simd_pack_data (host_cpuid H) (host_ra H) s
    = resume_at (host_ra H 73) (simd_pack_512bit (pack_512_call H s)) (\<lambda>s. Returned (pack_exit (vzeroupper s)))"
  using assms by (simp add: simd_pack_data_def Let_def resume_at_def has_avx512_def pack_512_call_def)

lemma c_pack_512_multiple:
  assumes "d \<noteq> 0" "s \<noteq> 0" "n \<noteq> 0" "unat n < 2 ^ 63" "separate d (unat n) s (unat n)"
    and "bit f 0" "has_avx512 (host_cpuid H)" "64 dvd unat n"
  shows "c_simd_pack_data H d s n f m = Some (0, copy_mem d s (unat n) m)"
proof -
  let ?s = "call_regs H d s n f m"
  let ?t = "simd_pack_512bit (pack_512_call H ?s)"
  have nb: "\<not> bit n 63" using assms(4) by (simp add: bit63_iff)
  note t = pack_512_multiple [of "unat n" "pack_512_call H ?s", unfolded pack_512_call_simps call_regs_simps,
      OF refl assms(4,5,8)]
  have run: "simd_pack_data (host_cpuid H) (host_ra H) ?s = Returned (pack_exit (vzeroupper ?t))"
    using pack_data_512 [of ?s H] assms nb t(3) by (simp add: resume_at_def)
  show ?thesis
    using t pack_exit_simps [of "vzeroupper ?t" ?s] by (simp add: c_simd_pack_data_def run c_return_def)
qed

lemma pack_512_diverted:
  assumes "d \<noteq> 0" "s \<noteq> 0" "n \<noteq> 0" "unat n < 2 ^ 63" "separate d (unat n) s (unat n)"
    and "bit f 0" "has_avx512 (host_cpuid H)" "\<not> 64 dvd unat n" "host_ra H 73 \<noteq> rsp (host_ctx H) - 8"
  shows "\<exists>t. simd_pack_data (host_cpuid H) (host_ra H) (call_regs H d s n f m) = Diverted t
    \<and> rip t = rsp (host_ctx H) - 8 \<and> mem t = copy_mem d s (unat n) m"
proof -
  let ?s = "call_regs H d s n f m"
  have nb: "\<not> bit n 63" using assms(4) by (simp add: bit63_iff)
  note t = pack_512_rest [of "unat n" "pack_512_call H ?s", unfolded pack_512_call_simps call_regs_simps,
      OF refl assms(4,5,8)]
  show ?thesis using pack_data_512 [of ?s H] assms nb t by (simp add: resume_at_def)
qed

text \<open>What \<open>rax\<close> can be after a call that comes back.\<close>

lemma c_pack_result:
  assumes r: "c_simd_pack_data H d s n f m = Some (r, m')" and ra: "host_ra H 73 \<noteq> rsp (host_ctx H) - 8"
  shows "r = 0xFFFFFFFF \<or> r = 0 \<or> r = n \<and> \<not> bit n 63"
proof (cases "d = 0 \<or> s = 0 \<or> bit n 63")
  case True
  then show ?thesis using r c_pack_error [of d s n H f m] by auto
next
  case False
  let ?s = "call_regs H d s n f m"
  show ?thesis
  proof (cases "n = 0")
    case True
    then show ?thesis using False r c_pack_zero [of d s H f m] by simp
  next
    case nz: False
    show ?thesis
    proof (cases "bit f 0 \<and> has_avx512 (host_cpuid H)")
      case True
      let ?u = "after_512_loop (pack_512_call H ?s)"
      show ?thesis
        using True False nz r ra pack_data_512 [of ?s H]
        by (auto simp: c_simd_pack_data_def resume_at_def pack_512_unfold Let_def c_return_def
            pop_def ret_def pack_exit_def after_512_loop_def split: if_splits)
    next
      case no512: False
      then show ?thesis
        using False nz r
        by (auto simp: c_simd_pack_data_def simd_pack_data_def Let_def resume_at_def c_return_def
            has_avx512_def pop_def ret_def pack_exit_def split: if_splits)
    qed
  qed
qed

lemma not_negative:
  assumes "(r::u64) = 0xFFFFFFFF \<or> r = 0 \<or> r = n \<and> \<not> bit n 63"
  shows "\<not> r <s 0"
  using assms by (auto simp: sless_small)

section \<open>Concrete machines for the witnesses\<close>

definition idle_cpu :: cpu where
  "idle_cpu = \<lparr>rax = 0, rbx = 1, rcx = 0, rdx = 0, rsi = 0, rdi = 0, rbp = 0x7ffe0000, rsp = 0x7ffd0000,
     r8 = 0, r9 = 0, r10 = 0, r11 = 0, r12 = 12, r13 = 13, r14 = 14, r15 = 15, rip = 0, v0 = [],
     mem = (\<lambda>_. 0), stk = [0x400123]\<rparr>"

definition avx2_host :: host where
  "avx2_host = \<lparr>host_cpuid = (\<lambda>_ _. \<lparr>eax = 0, ebx = 0x20, ecx = 0, edx = 0\<rparr>),
     host_ra = (\<lambda>n. 0x401000 + of_nat n), host_ctx = idle_cpu\<rparr>"

definition avx512_host :: host where
  "avx512_host = \<lparr>host_cpuid = (\<lambda>_ _. \<lparr>eax = 0, ebx = 0x10020, ecx = 0, edx = 0\<rparr>),
     host_ra = (\<lambda>n. 0x401000 + of_nat n), host_ctx = idle_cpu\<rparr>"

lemma host_facts:
  "\<not> has_avx512 (host_cpuid avx2_host)" "has_avx512 (host_cpuid avx512_host)"
  "host_ra avx2_host 73 \<noteq> rsp (host_ctx avx2_host) - 8" "host_ra avx512_host 73 \<noteq> rsp (host_ctx avx512_host) - 8"
  "rsp (host_ctx avx512_host) = 0x7ffd0000"
  by (simp_all add: avx2_host_def avx512_host_def has_avx512_def idle_cpu_def)

lemma apart: "separate 0x2000 22 0x1000 22" "separate 0x2000 128 0x1000 128" "separate 0x3000 22 0x2000 22"
  by (rule separateI; simp)+

lemma hash_spec_update:
  assumes "i < length bs" "b \<noteq> bs ! i"
  shows "hash_spec (bs[i := b]) \<noteq> hash_spec bs"
  using hash_spec_one_byte [OF assms(2), of "take i bs" "drop (Suc i) bs"] assms(1)
  by (simp add: upd_conv_take_nth_drop id_take_nth_drop [symmetric])

lemma read_bytes_update:
  assumes "i < unat (n::u64)"
  shows "read_bytes (m(p + of_nat i := b)) p (unat n) = (read_bytes m p (unat n))[i := b]"
proof (rule nth_equalityI)
  fix j assume "j < length (read_bytes (m(p + of_nat i := b)) p (unat n))"
  then have j: "j < unat n" by simp
  have "i < 2 ^ 64" "j < 2 ^ 64" using assms j unsigned_less [of n, where 'a = nat] by simp_all
  then have "(of_nat j :: u64) = of_nat i \<longleftrightarrow> j = i"
    using unat_of_nat [of i, where 'a = 64] unat_of_nat [of j, where 'a = 64] by auto
  then show "read_bytes (m(p + of_nat i := b)) p (unat n) ! j = (read_bytes m p (unat n))[i := b] ! j"
    using j assms by (auto simp: nth_list_update)
qed simp

section \<open>Properties\<close>

text \<open>C26: \<open>simd_pack_data\<close> on the AVX2 path (flag bit 0 clear, or no AVX-512F in CPUID) copies
  exactly \<open>n\<close> bytes into disjoint buffers: it returns to its caller with \<open>n\<close>, the destination
  holds the source, the source and every other range of memory are unchanged.\<close>

theorem pack_copies:
  assumes "pack_usable H f d s n" "unat n < 2 ^ 63" "separate d (unat n) s (unat n)"
  shows "\<exists>m'. c_simd_pack_data H d s n f m = Some (n, m') \<and> read_bytes m' d (unat n) = read_bytes m s (unat n)
    \<and> read_bytes m' s (unat n) = read_bytes m s (unat n)
    \<and> (\<forall>x k. separate x k d (unat n) \<longrightarrow> read_bytes m' x k = read_bytes m x k)"
  using assms by (rule packer.returns_size)

theorem pack_copies_witness:
  "\<exists>m'. c_simd_pack_data avx2_host 0x2000 0x1000 22 1 (\<lambda>a. ucast a) = Some (22, m')
    \<and> read_bytes m' 0x2000 22 = read_bytes (\<lambda>a. ucast a) 0x1000 22"
  using pack_copies [of avx2_host 1 "0x2000" "0x1000" 22 "\<lambda>a. ucast a"] apart(1) host_facts(1)
  by (auto simp: pack_usable_def)

text \<open>C27: On a CPU with AVX-512F and flag bit 0 set (the way \<open>send_data\<close> calls it), a size that is
  not a multiple of 64 makes \<open>simd_pack_data\<close> return to a wrong address: \<open>simd_pack_512bit\<close>
  jumps into \<open>simd_pack_256bit\<close> with its own frame still pushed, so the \<open>ret\<close> there
  takes the saved frame pointer, an address of the stack.\<close>

theorem pack_avx512_diverts:
  assumes "d \<noteq> 0" "s \<noteq> 0" "n \<noteq> 0" "unat n < 2 ^ 63" "separate d (unat n) s (unat n)"
    and "bit f 0" "has_avx512 (host_cpuid H)" "\<not> 64 dvd unat n" "host_ra H 73 \<noteq> rsp (host_ctx H) - 8"
  shows "(\<exists>t. simd_pack_data (host_cpuid H) (host_ra H) (call_regs H d s n f m) = Diverted t
      \<and> rip t = rsp (host_ctx H) - 8 \<and> mem t = copy_mem d s (unat n) m)
    \<and> c_simd_pack_data H d s n f m = None"
  using pack_512_diverted [OF assms, of m] by (auto simp: c_simd_pack_data_def)

theorem pack_avx512_diverts_witness:
  "c_simd_pack_data avx512_host 0x2000 0x1000 22 1 (\<lambda>a. ucast a) = None"
  using pack_avx512_diverts [of "0x2000" "0x1000" 22 1 avx512_host "\<lambda>a. ucast a"] apart(1) host_facts
  by simp

text \<open>On the same path a multiple of 64 is copied and the call comes back, but the result is
  0, the number of bytes left, and not the number of bytes transferred the header of the
  routine promises.\<close>

theorem pack_avx512_returns_zero:
  assumes "d \<noteq> 0" "s \<noteq> 0" "n \<noteq> 0" "unat n < 2 ^ 63" "separate d (unat n) s (unat n)"
    and "bit f 0" "has_avx512 (host_cpuid H)" "64 dvd unat n"
  shows "\<exists>m'. c_simd_pack_data H d s n f m = Some (0, m') \<and> read_bytes m' d (unat n) = read_bytes m s (unat n)"
  using c_pack_512_multiple [OF assms, of m] assms(4) by (simp add: copy_mem_def mem_simps)

theorem pack_avx512_returns_zero_witness:
  "\<exists>m'. c_simd_pack_data avx512_host 0x2000 0x1000 128 1 (\<lambda>a. ucast a) = Some (0, m')"
  using pack_avx512_returns_zero [of "0x2000" "0x1000" 128 1 avx512_host "\<lambda>a. ucast a"] apart(2) host_facts
  by auto

text \<open>The results of \<open>simd_pack_data\<close>: null buffers and sizes of \<open>2 ^ 63\<close> or more are refused
  without touching memory, but the \<open>-1\<close> is a 32-bit one, so no result is ever negative as the
  \<open>int64_t\<close> its callers compare with 0.\<close>

theorem pack_results:
  assumes "host_ra H 73 \<noteq> rsp (host_ctx H) - 8"
  shows "(d = 0 \<or> s = 0 \<or> bit n 63 \<longrightarrow> c_simd_pack_data H d s n f m = Some (0xFFFFFFFF, m))
    \<and> (c_simd_pack_data H d s n f m = Some (r, m') \<longrightarrow> \<not> r <s 0)"
  using c_pack_error [of d s n H f m] c_pack_result [OF _ assms] not_negative by blast

theorem pack_results_witness:
  "c_simd_pack_data avx2_host 0 0x1000 22 1 (\<lambda>_. 0) = Some (0xFFFFFFFF, \<lambda>_. 0)"
  using pack_results [of avx2_host 0 "0x1000" 22 1 "\<lambda>_. 0"] host_facts by simp

text \<open>\<open>simd_unpack_data\<close> copies \<open>n\<close> bytes between disjoint buffers and returns \<open>n\<close>; every
  refused call returns 0, the \<open>-1\<close> of \<open>.invalid_param\<close> is overwritten by \<open>.zero_size\<close>.\<close>

theorem unpack_copies:
  assumes "non_null d s n \<Longrightarrow> unat n < 2 ^ 63 \<and> separate d (unat n) s (unat n)"
  shows "if non_null d s n then c_simd_unpack_data H d s n f m = Some (n, copy_mem d s (unat n) m)
    else c_simd_unpack_data H d s n f m = Some (0, m)"
  using assms unpacker.copies c_unpack_refused [of d s n H f m] by (auto simp: non_null_def)

theorem unpack_copies_witness:
  "c_simd_unpack_data avx2_host 0x3000 0x2000 22 1 (\<lambda>a. ucast a) = Some (22, copy_mem 0x3000 0x2000 22 (\<lambda>a. ucast a))"
  using unpack_copies [of "0x3000" "0x2000" 22 avx2_host 1 "\<lambda>a. ucast a"] apart(3) by (simp add: non_null_def)

text \<open>C28: Packing host data into an enclave buffer and unpacking it into a host buffer gives the
  data back, when neither call takes the AVX-512 path.\<close>

theorem pack_unpack_roundtrip:
  assumes "pack_usable H f e s n" "non_null d e n" "unat n < 2 ^ 63"
    and "separate e (unat n) s (unat n)" "separate d (unat n) e (unat n)"
  shows "\<exists>m1 m2. c_simd_pack_data H e s n f m = Some (n, m1) \<and> c_simd_unpack_data H d e n g m1 = Some (n, m2)
    \<and> read_bytes m2 d (unat n) = read_bytes m s (unat n)"
  using assms by (rule simd.roundtrip)

theorem pack_unpack_roundtrip_witness:
  "\<exists>m1 m2. c_simd_pack_data avx2_host 0x2000 0x1000 22 1 (\<lambda>a. ucast a) = Some (22, m1)
    \<and> c_simd_unpack_data avx2_host 0x3000 0x2000 22 1 m1 = Some (22, m2)
    \<and> read_bytes m2 0x3000 22 = read_bytes (\<lambda>a. ucast a) 0x1000 22"
  using pack_unpack_roundtrip [of avx2_host 1 "0x2000" "0x1000" 22 "0x3000" "\<lambda>a. ucast a" 1] apart host_facts(1)
  by (simp add: pack_usable_def non_null_def)

text \<open>\<open>simd_secure_memcpy\<close> never faults: whether the buffers are aligned (\<open>vmovdqa\<close>) or not
  (\<open>vmovdqu\<close>), it copies \<open>n\<close> bytes between disjoint buffers and returns \<open>n\<close>.\<close>

theorem secure_memcpy_copies:
  assumes "unat n < 2 ^ 63" "separate d (unat n) s (unat n)"
  shows "\<exists>m'. c_simd_secure_memcpy H d s n m = Some (n, m') \<and> read_bytes m' d (unat n) = read_bytes m s (unat n)
    \<and> read_bytes m' s (unat n) = read_bytes m s (unat n)
    \<and> (\<forall>x k. separate x k d (unat n) \<longrightarrow> read_bytes m' x k = read_bytes m x k)"
  by (rule copier.returns_size [OF TrueI assms])

theorem secure_memcpy_copies_witness:
  "\<exists>m'. c_simd_secure_memcpy avx2_host 0x2000 0x1000 128 (\<lambda>a. ucast a) = Some (128, m')
    \<and> read_bytes m' 0x2000 128 = read_bytes (\<lambda>a. ucast a) 0x1000 128"
  using secure_memcpy_copies [of 128 "0x2000" "0x1000" avx2_host "\<lambda>a. ucast a"] apart(2) by auto

text \<open>\<open>simd_zero_memory\<close> writes \<open>n\<close> zero bytes from the buffer on, nothing else, and returns \<open>n\<close>.\<close>

theorem zero_memory_zeroes:
  assumes "b \<noteq> 0" "n \<noteq> 0" "unat n < 2 ^ 63"
  shows "\<exists>m'. c_simd_zero_memory H b n m = Some (n, m') \<and> read_bytes m' b (unat n) = replicate (unat n) 0
    \<and> (\<forall>x k. separate x k b (unat n) \<longrightarrow> read_bytes m' x k = read_bytes m x k)"
  using c_zero_memory [OF assms, of H m] assms(3) by (simp add: mem_simps)

theorem zero_memory_zeroes_witness:
  "\<exists>m'. c_simd_zero_memory avx2_host 0x5000 0x101 (\<lambda>_. 7) = Some (0x101, m') \<and> read_bytes m' 0x5000 257 = replicate 257 0"
  using zero_memory_zeroes [of "0x5000" "0x101" avx2_host "\<lambda>_. 7"] by auto

text \<open>C24: \<open>simd_hash_blocks\<close> returns 0 and stores the digest \<open>hash_spec\<close> of the buffer, for a
  non-null buffer of any size wherever it lies; a null buffer of non-zero size is refused
  and nothing is stored.\<close>

theorem hash_stores_digest:
  assumes "out \<noteq> 0"
  shows "(p \<noteq> 0 \<longrightarrow> c_simd_hash_blocks H p n out m
        = Some (0, write_bytes out (hash_spec (read_bytes m p (unat n))) m))
    \<and> (p = 0 \<and> n \<noteq> 0 \<longrightarrow> c_simd_hash_blocks H p n out m = Some (0xFFFFFFFF, m))"
  using assms c_hash_blocks c_hash_blocks_null by blast

theorem hash_stores_digest_witness:
  "c_simd_hash_blocks avx2_host 0 256 0x6000 (\<lambda>_. 0) = Some (0xFFFFFFFF, \<lambda>_. 0)
   \<and> c_simd_hash_blocks avx2_host 0x1000 1 0x6000 (\<lambda>_. 0) = Some (0, write_bytes 0x6000 (hash_spec [0]) (\<lambda>_. 0))"
  using hash_stores_digest [of "0x6000" 0 avx2_host 256 "\<lambda>_. 0"]
    hash_stores_digest [of "0x6000" "0x1000" avx2_host 1 "\<lambda>_. 0"] by (simp add: read_bytes_def)

text \<open>C25: Tamper evidence: overwriting any one byte of the buffer with another value changes the
  digest \<open>simd_hash_blocks\<close> stores.\<close>

theorem hash_detects_one_byte:
  assumes "p \<noteq> 0" "out \<noteq> 0" "i < unat n" "b \<noteq> m (p + of_nat i)"
  shows "\<exists>m1 m2. c_simd_hash_blocks H p n out m = Some (0, m1)
    \<and> c_simd_hash_blocks H p n out (m(p + of_nat i := b)) = Some (0, m2)
    \<and> read_bytes m1 out 32 \<noteq> read_bytes m2 out 32"
proof -
  have "hash_spec ((read_bytes m p (unat n))[i := b]) \<noteq> hash_spec (read_bytes m p (unat n))"
    using assms(3,4) by (intro hash_spec_update) simp_all
  then show ?thesis
    using read_bytes_update [OF assms(3), of m p b] c_hash_blocks [OF assms(1,2)] by (simp add: mem_simps)
qed

theorem hash_detects_one_byte_witness:
  "\<exists>m1 m2. c_simd_hash_blocks avx2_host 0x1000 3 0x6000 (\<lambda>_. 0) = Some (0, m1)
    \<and> c_simd_hash_blocks avx2_host 0x1000 3 0x6000 ((\<lambda>_. 0)(0x1002 := 9)) = Some (0, m2)
    \<and> read_bytes m1 0x6000 32 \<noteq> read_bytes m2 0x6000 32"
  using hash_detects_one_byte [of "0x1000" "0x6000" 2 3 9 "\<lambda>_. 0" avx2_host] by simp

end
