(* ===== verification/Trace_Engine.thy ===== *)
theory Trace_Engine
  imports Simd_Abi
begin

text \<open>
  \<^verbatim>\<open>src/monitor/trace_engine.asm\<close>: the event log, the integrity check and the watchpoints.
  The structures of the \<open>.bss\<close> section are records (\<open>struc\<close>), the arrays are lists of
  their fixed length, and \<open>bss\<close> is their state. The one buffer other code writes into,
  \<open>current_hash_buffer\<close>, lies in memory at the address \<open>hb\<close> the linker gives it; the
  regions under watch lie in memory too. Counters are 64-bit words.

  Shown: the log is a bounded list that never overwrites an event, the counters agree with
  it, the constant-time comparison is equality, a watchpoint takes the first free slot, a
  region with a real baseline cannot be changed in one byte unnoticed; and in the states
  the program can reach the integrity check never fails, whatever happens to memory.
\<close>

section \<open>State\<close>

record trace_event =
  ev_timestamp :: u64
  ev_type :: u8
  ev_severity :: u8
  ev_data :: u64

record integrity_entry =
  ie_tag :: u64
  ie_address :: u64
  ie_size :: u64
  ie_hash :: "u8 list"

record watchpoint =
  wp_address :: u64
  wp_size :: u64
  wp_type :: u64

record trace_statistics =
  event_count :: u64
  critical_events :: u64
  integrity_checks :: u64
  integrity_failures :: u64

record bss =
  events :: "trace_event list"
  read_index :: u64
  write_index :: u64
  trace_stats :: trace_statistics
  integrity_baseline :: "integrity_entry list"
  watchpoints :: "watchpoint list"

definition TRACE_MAX_EVENTS :: nat where "TRACE_MAX_EVENTS = 1024"
definition TRACE_SEVERITY_CRITICAL :: u64 where "TRACE_SEVERITY_CRITICAL = 2"
definition TRACE_EVENT_MSR_WRITE :: u64 where "TRACE_EVENT_MSR_WRITE = 2"
definition TRACE_EVENT_INTEGRITY_FAIL :: u64 where "TRACE_EVENT_INTEGRITY_FAIL = 5"

definition zero_event :: trace_event where
  "zero_event = \<lparr>ev_timestamp = 0, ev_type = 0, ev_severity = 0, ev_data = 0\<rparr>"

definition zero_entry :: integrity_entry where
  "zero_entry = \<lparr>ie_tag = 0, ie_address = 0, ie_size = 0, ie_hash = replicate 32 0\<rparr>"

definition zero_watchpoint :: watchpoint where
  "zero_watchpoint = \<lparr>wp_address = 0, wp_size = 0, wp_type = 0\<rparr>"

definition zero_statistics :: trace_statistics where
  "zero_statistics = \<lparr>event_count = 0, critical_events = 0, integrity_checks = 0, integrity_failures = 0\<rparr>"

text \<open>The section as the loader leaves it.\<close>

definition zero_bss :: bss where
  "zero_bss = \<lparr>events = replicate TRACE_MAX_EVENTS zero_event, read_index = 0, write_index = 0,
     trace_stats = zero_statistics, integrity_baseline = replicate 5 zero_entry,
     watchpoints = replicate 4 zero_watchpoint\<rparr>"

text \<open>A result in \<open>eax\<close>: the upper half of \<open>rax\<close> is zero.\<close>

definition ok :: u64 where "ok = 0"
definition minus_one :: u64 where "minus_one = 0xFFFFFFFF"

text \<open>The four-character constants \<^verbatim>\<open>"IDT "\<close>, \<^verbatim>\<open>"GDT "\<close>, \<^verbatim>\<open>"SYSC"\<close>.\<close>

definition tag_idt :: u64 where "tag_idt = le_word [0x49, 0x44, 0x54, 0x20]"
definition tag_gdt :: u64 where "tag_gdt = le_word [0x47, 0x44, 0x54, 0x20]"
definition tag_sysc :: u64 where "tag_sysc = le_word [0x53, 0x59, 0x53, 0x43]"

section \<open>Operations\<close>

text \<open>\<open>compute_baseline_hashes\<close>: only the hash of the first entry is cleared.\<close>

definition compute_baseline_hashes :: "bss \<Rightarrow> bss" where
  "compute_baseline_hashes t =
     (let b = integrity_baseline t;
          b = b[0 := (b ! 0)\<lparr>ie_tag := tag_idt, ie_address := 0, ie_size := 256, ie_hash := replicate 32 0\<rparr>];
          b = b[1 := (b ! 1)\<lparr>ie_tag := tag_gdt, ie_address := 0, ie_size := 256\<rparr>];
          b = b[2 := (b ! 2)\<lparr>ie_tag := tag_sysc, ie_address := 0, ie_size := 256\<rparr>]
      in t\<lparr>integrity_baseline := b\<rparr>)"

text \<open>\<open>simd_zero_memory\<close> clears the events and both indices (property \<open>zero_memory_zeroes\<close>).\<close>

definition trace_init :: "bss \<Rightarrow> u64 \<times> bss" where
  "trace_init t =
     (let t = t\<lparr>events := replicate TRACE_MAX_EVENTS zero_event, read_index := 0, write_index := 0\<rparr>;
          t = t\<lparr>trace_stats := (trace_stats t)\<lparr>event_count := 0, critical_events := 0,
                integrity_checks := 0, integrity_failures := 0\<rparr>\<rparr>;
          t = compute_baseline_hashes t
      in (ok, t))"

text \<open>\<open>tsc\<close> is the time stamp counter: \<open>rdtsc\<close> puts its low half into \<open>rax\<close>, and only
  that is stored. The severity byte is not written.\<close>

definition trace_log_event :: "u64 \<Rightarrow> u64 \<Rightarrow> u64 \<Rightarrow> bss \<Rightarrow> u64 \<times> bss" where
  "trace_log_event tsc event_type data t =
     (if of_nat TRACE_MAX_EVENTS \<le>s write_index t then (minus_one, t)
      else
        let i = unat (write_index t);
            e = (events t ! i)\<lparr>ev_timestamp := take_bit 32 tsc, ev_type := ucast event_type, ev_data := data\<rparr>;
            t = t\<lparr>events := (events t)[i := e]\<rparr>;
            t = t\<lparr>write_index := write_index t + 1\<rparr>;
            t = t\<lparr>trace_stats := (trace_stats t)\<lparr>event_count := event_count (trace_stats t) + 1\<rparr>\<rparr>;
            t = (if event_type = TRACE_SEVERITY_CRITICAL
                 then t\<lparr>trace_stats := (trace_stats t)\<lparr>critical_events := critical_events (trace_stats t) + 1\<rparr>\<rparr>
                 else t)
        in (ok, t))"

text \<open>The loop of \<open>compare_memory\<close>, with the accumulator in \<open>bl\<close>.\<close>

fun compare_loop :: "u8 \<Rightarrow> u8 list \<Rightarrow> u8 list \<Rightarrow> u8" where
  "compare_loop bl (a # as) (b # bs) = compare_loop (bl OR (a XOR b)) as bs"
| "compare_loop bl _ _ = bl"

definition compare_memory :: "u8 list \<Rightarrow> u8 list \<Rightarrow> u64" where
  "compare_memory as bs = (if compare_loop 0 as bs = 0 then 1 else 0)"

text \<open>\<open>.find_loop\<close>: the first of the five entries with this tag.\<close>

fun find_entry :: "u64 \<Rightarrow> integrity_entry list \<Rightarrow> integrity_entry option" where
  "find_entry tag [] = None"
| "find_entry tag (e # es) = (if ie_tag e = tag then Some e else find_entry tag es)"

text \<open>\<open>None\<close>: the call of \<open>simd_hash_blocks\<close> does not come back.\<close>

definition check_region_integrity :: "host \<Rightarrow> u64 \<Rightarrow> u64 \<Rightarrow> bss \<Rightarrow> memory \<Rightarrow> (u64 \<times> memory) option" where
  "check_region_integrity H hb tag t m =
     (case find_entry tag (integrity_baseline t) of
        None \<Rightarrow> Some (1, m)
      | Some e \<Rightarrow>
          (case c_simd_hash_blocks H (ie_address e) (ie_size e) hb m of
             None \<Rightarrow> None
           | Some (r, m) \<Rightarrow>
               if compare_memory (read_bytes m hb 32) (ie_hash e) = 0 then Some (0, m) else Some (1, m)))"

text \<open>\<open>.idt_compromised\<close>, \<open>.gdt_compromised\<close>, \<open>.syscall_compromised\<close>.\<close>

definition compromised :: "u64 \<Rightarrow> u64 \<Rightarrow> bss \<Rightarrow> u64 \<times> bss" where
  "compromised tsc code t =
     (let (r, t) = trace_log_event tsc TRACE_EVENT_INTEGRITY_FAIL code t
      in (minus_one, t\<lparr>trace_stats := (trace_stats t)\<lparr>integrity_failures := integrity_failures (trace_stats t) + 1\<rparr>\<rparr>))"

fun check_regions :: "host \<Rightarrow> u64 \<Rightarrow> u64 \<Rightarrow> (u64 \<times> u64) list \<Rightarrow> bss \<Rightarrow> memory \<Rightarrow> (u64 \<times> bss \<times> memory) option" where
  "check_regions H hb tsc [] t m = Some (ok, t, m)"
| "check_regions H hb tsc ((tag, code) # rs) t m =
     (case check_region_integrity H hb tag t m of
        None \<Rightarrow> None
      | Some (r, m) \<Rightarrow> if r = 0 then (let (r, t) = compromised tsc code t in Some (r, t, m))
                       else check_regions H hb tsc rs t m)"

definition trace_check_integrity :: "host \<Rightarrow> u64 \<Rightarrow> u64 \<Rightarrow> bss \<Rightarrow> memory \<Rightarrow> (u64 \<times> bss \<times> memory) option" where
  "trace_check_integrity H hb tsc t m =
     (let t = t\<lparr>trace_stats := (trace_stats t)\<lparr>integrity_checks := integrity_checks (trace_stats t) + 1\<rparr>\<rparr>
      in check_regions H hb tsc [(tag_idt, 1), (tag_gdt, 2), (tag_sysc, 3)] t m)"

text \<open>\<open>.find_free\<close>: the first slot whose address is 0.\<close>

fun find_free :: "watchpoint list \<Rightarrow> nat option" where
  "find_free [] = None"
| "find_free (w # ws) = (if wp_address w = 0 then Some 0 else map_option Suc (find_free ws))"

definition trace_set_watchpoint :: "u64 \<Rightarrow> u64 \<Rightarrow> u64 \<Rightarrow> bss \<Rightarrow> u64 \<times> bss" where
  "trace_set_watchpoint address sz type t =
     (if sz \<noteq> 1 \<and> sz \<noteq> 2 \<and> sz \<noteq> 4 \<and> sz \<noteq> 8 then (minus_one, t)
      else case find_free (watchpoints t) of
             None \<Rightarrow> (minus_one, t)
           | Some i \<Rightarrow> (ok, t\<lparr>watchpoints := (watchpoints t)
               [i := \<lparr>wp_address = address, wp_size = sz, wp_type = type\<rparr>]\<rparr>))"

text \<open>The four counters, least significant byte first, at \<open>rdi\<close>.\<close>

definition trace_get_statistics :: "u64 \<Rightarrow> bss \<Rightarrow> memory \<Rightarrow> u64 \<times> memory" where
  "trace_get_statistics p t m =
     (ok, write_bytes p (le_bytes 8 (event_count (trace_stats t)) @ le_bytes 8 (critical_events (trace_stats t))
        @ le_bytes 8 (integrity_checks (trace_stats t)) @ le_bytes 8 (integrity_failures (trace_stats t))) m)"

section \<open>Comparison and lookup\<close>

lemma compare_loop_zero:
  "length as = length bs \<Longrightarrow> compare_loop bl as bs = 0 \<longleftrightarrow> bl = 0 \<and> as = bs"
proof (induction bl as bs rule: compare_loop.induct)
  case (1 bl a as b bs)
  have x: "(bl OR (a XOR b) = 0) \<longleftrightarrow> bl = 0 \<and> a = b"
  proof
    assume e: "bl OR (a XOR b) = 0"
    have "\<not> bit bl n \<and> \<not> bit (a XOR b) n" for n
      using arg_cong [OF e, of "\<lambda>w. bit w n"] by (simp only: bit_or_iff bit_0_eq bot_fun_def) auto
    then have "bl = 0 \<and> a XOR b = 0" by (simp only: bit_eq_iff) simp
    moreover have "a = b" if "a XOR b = 0"
    proof -
      have "(a XOR b) XOR b = a" by (auto simp: bit_eq_iff bit_simps)
      then show ?thesis using that by simp
    qed
    ultimately show "bl = 0 \<and> a = b" by blast
  qed simp
  show ?case using 1 x by auto
qed auto

lemma compare_memory_eq: "length as = length bs \<Longrightarrow> compare_memory as bs = (if as = bs then 1 else 0)"
  by (simp add: compare_memory_def compare_loop_zero)

lemma find_entry_Some: "find_entry tag es = Some e \<Longrightarrow> e \<in> set es \<and> ie_tag e = tag"
  by (induction es) (auto split: if_splits)

lemma find_free_Some:
  "find_free ws = Some i \<Longrightarrow> i < length ws \<and> wp_address (ws ! i) = 0 \<and> (\<forall>j<i. wp_address (ws ! j) \<noteq> 0)"
proof (induction ws arbitrary: i)
  case (Cons w ws)
  then show ?case by (cases i) (auto split: if_splits simp: less_Suc_eq_0_disj)
qed simp

lemma find_free_None: "find_free ws = None \<longleftrightarrow> (\<forall>w\<in>set ws. wp_address w \<noteq> 0)"
  by (induction ws) auto

section \<open>The states the program can reach\<close>

text \<open>The log always holds as many events as the statistics say.\<close>

definition log_inv :: "bss \<Rightarrow> bool" where
  "log_inv t \<longleftrightarrow> length (events t) = TRACE_MAX_EVENTS \<and> unat (write_index t) \<le> TRACE_MAX_EVENTS
     \<and> read_index t = 0 \<and> event_count (trace_stats t) = write_index t
     \<and> critical_events (trace_stats t) \<le> write_index t
     \<and> length (watchpoints t) = 4 \<and> length (integrity_baseline t) = 5"

text \<open>Every baseline entry describes address 0 with an all-zero hash.\<close>

definition blank_baseline :: "bss \<Rightarrow> bool" where
  "blank_baseline t \<longleftrightarrow> (\<forall>e\<in>set (integrity_baseline t).
     ie_address e = 0 \<and> ie_hash e = replicate 32 0 \<and> (ie_size e = 256 \<or> ie_tag e = 0))"

text \<open>The program's calls, in any order, and anything the rest of the machine does to memory
  outside \<open>current_hash_buffer\<close>.\<close>

inductive trace_reach :: "host \<Rightarrow> u64 \<Rightarrow> bss \<Rightarrow> memory \<Rightarrow> bool" for H hb where
  loaded: "read_bytes m hb 32 = replicate 32 0 \<Longrightarrow> trace_reach H hb zero_bss m"
| init: "trace_reach H hb t m \<Longrightarrow> trace_init t = (r, t') \<Longrightarrow> trace_reach H hb t' m"
| log: "trace_reach H hb t m \<Longrightarrow> trace_log_event tsc ty d t = (r, t') \<Longrightarrow> trace_reach H hb t' m"
| check: "trace_reach H hb t m \<Longrightarrow> trace_check_integrity H hb tsc t m = Some (r, t', m') \<Longrightarrow> trace_reach H hb t' m'"
| watch: "trace_reach H hb t m \<Longrightarrow> trace_set_watchpoint a sz ty t = (r, t') \<Longrightarrow> trace_reach H hb t' m"
| other: "trace_reach H hb t m \<Longrightarrow> read_bytes m' hb 32 = read_bytes m hb 32 \<Longrightarrow> trace_reach H hb t m'"

lemma max_events_word: "\<not> bit (of_nat TRACE_MAX_EVENTS :: u64) 63" "unat (of_nat TRACE_MAX_EVENTS :: u64) = 1024"
  by (simp_all add: TRACE_MAX_EVENTS_def)

lemma log_full_iff:
  assumes "log_inv t"
  shows "of_nat TRACE_MAX_EVENTS \<le>s write_index t \<longleftrightarrow> unat (write_index t) = TRACE_MAX_EVENTS"
proof -
  have w: "unat (write_index t) \<le> 1024" using assms by (simp add: log_inv_def TRACE_MAX_EVENTS_def)
  then have "write_index t <s 1024 \<longleftrightarrow> unat (write_index t) < 1024"
    by (simp add: sless_small bit63_iff word_less_nat_alt)
  moreover have "(1024 :: u64) \<le>s write_index t \<longleftrightarrow> \<not> write_index t <s 1024"
    by (simp add: word_sle_eq word_sless_alt not_less)
  ultimately show ?thesis using w by (auto simp: TRACE_MAX_EVENTS_def)
qed

lemma log_inv_zero: "log_inv zero_bss"
  by (simp add: log_inv_def zero_bss_def zero_statistics_def)

lemma log_inv_init: "log_inv t \<Longrightarrow> log_inv (snd (trace_init t))"
  by (simp add: log_inv_def trace_init_def compute_baseline_hashes_def Let_def)

lemma log_event_cases:
  assumes "log_inv t"
  obtains "unat (write_index t) = TRACE_MAX_EVENTS" "trace_log_event tsc ty d t = (minus_one, t)"
  | "unat (write_index t) < TRACE_MAX_EVENTS" "fst (trace_log_event tsc ty d t) = ok"
    "unat (write_index t + 1) = unat (write_index t) + 1"
proof (cases "unat (write_index t) = TRACE_MAX_EVENTS")
  case True
  then show ?thesis using that(1) log_full_iff [OF assms] by (simp add: trace_log_event_def)
next
  case False
  then have lt: "unat (write_index t) < TRACE_MAX_EVENTS" using assms by (simp add: log_inv_def)
  then have "unat (write_index t + 1) = unat (write_index t) + 1"
    by (simp add: unat_word_ariths TRACE_MAX_EVENTS_def)
  then show ?thesis using that(2) lt log_full_iff [OF assms] by (simp add: trace_log_event_def Let_def)
qed

lemma log_inv_log:
  assumes "log_inv t"
  shows "log_inv (snd (trace_log_event tsc ty d t))"
  using assms
proof (cases rule: log_event_cases [where tsc = tsc and ty = ty and d = d])
  case 2
  have c: "critical_events (trace_stats t) \<le> write_index t" using assms by (simp add: log_inv_def)
  have "unat (write_index t) < unat (write_index t + 1)" using 2(3) by simp
  then have lt: "write_index t \<le> write_index t + 1" by (simp add: word_le_nat_alt)
  have "unat (critical_events (trace_stats t)) \<le> unat (write_index t)" using c by (simp add: word_le_nat_alt)
  then have "unat (critical_events (trace_stats t) + 1) = unat (critical_events (trace_stats t)) + 1"
    using 2(1) by (simp add: unat_word_ariths TRACE_MAX_EVENTS_def)
  then have c1: "critical_events (trace_stats t) + 1 \<le> write_index t + 1"
    using c 2(3) by (simp add: word_le_nat_alt)
  have "\<not> of_nat TRACE_MAX_EVENTS \<le>s write_index t" using 2(1) log_full_iff [OF assms] by simp
  then show ?thesis
    using assms 2 c1 order_trans [OF c lt]
    by (simp add: trace_log_event_def Let_def log_inv_def)
qed (simp add: assms)

lemma log_keeps:
  "integrity_baseline (snd (trace_log_event tsc ty d t)) = integrity_baseline t"
  "watchpoints (snd (trace_log_event tsc ty d t)) = watchpoints t"
  "integrity_failures (trace_stats (snd (trace_log_event tsc ty d t))) = integrity_failures (trace_stats t)"
  by (simp_all add: trace_log_event_def Let_def)

lemma log_inv_watch: "log_inv t \<Longrightarrow> log_inv (snd (trace_set_watchpoint a sz ty t))"
  by (simp add: trace_set_watchpoint_def log_inv_def split: option.split)

lemma watch_keeps:
  "integrity_baseline (snd (trace_set_watchpoint a sz ty t)) = integrity_baseline t"
  "trace_stats (snd (trace_set_watchpoint a sz ty t)) = trace_stats t"
  by (simp_all add: trace_set_watchpoint_def split: option.split)

lemma log_inv_stats: "log_inv t \<Longrightarrow> event_count st = event_count (trace_stats t) \<Longrightarrow>
    critical_events st = critical_events (trace_stats t) \<Longrightarrow> log_inv (t\<lparr>trace_stats := st\<rparr>)"
  by (simp add: log_inv_def)

lemma log_inv_check_regions:
  "check_regions H hb tsc rs t m = Some (r, t', m') \<Longrightarrow> log_inv t \<Longrightarrow> log_inv t'"
proof (induction H hb tsc rs t m rule: check_regions.induct)
  case (2 H hb tsc tag code rs t m)
  have "log_inv (snd (compromised tsc code t))"
    using log_inv_log [OF "2.prems"(2)] by (simp add: compromised_def case_prod_beta log_inv_stats)
  then show ?case using 2 by (auto simp: Let_def case_prod_beta split: option.splits prod.splits if_splits)
qed simp

lemma log_inv_check:
  assumes "trace_check_integrity H hb tsc t m = Some (r, t', m')" "log_inv t"
  shows "log_inv t'"
  using assms(1) unfolding trace_check_integrity_def Let_def
  by (rule log_inv_check_regions) (simp add: log_inv_stats assms(2))

lemma trace_reach_log_inv: "trace_reach H hb t m \<Longrightarrow> log_inv t"
proof (induction rule: trace_reach.induct)
  case (init t m r t')
  then show ?case using log_inv_init [of t] by simp
next
  case (log t m tsc ty d r t')
  then show ?case using log_inv_log [of t tsc ty d] by simp
next
  case (watch t m a sz ty r t')
  then show ?case using log_inv_watch [of t a sz ty] by simp
qed (auto simp: log_inv_zero dest: log_inv_check)

section \<open>The integrity check in the reachable states\<close>

lemma check_region_blank:
  assumes "blank_baseline t" "read_bytes m hb 32 = replicate 32 0" "tag \<noteq> 0"
  shows "check_region_integrity H hb tag t m = Some (1, m)"
proof (cases "find_entry tag (integrity_baseline t)")
  case (Some e)
  then have "ie_address e = 0" "ie_hash e = replicate 32 0" "ie_size e = 256"
    using assms(1,3) find_entry_Some [OF Some] by (auto simp: blank_baseline_def)
  then show ?thesis
    using Some assms(2) by (simp add: check_region_integrity_def c_hash_blocks_null compare_memory_eq)
qed (simp add: check_region_integrity_def)

lemma tags_nonzero: "tag_idt \<noteq> 0" "tag_gdt \<noteq> 0" "tag_sysc \<noteq> 0"
  by (simp_all add: tag_idt_def tag_gdt_def tag_sysc_def)

lemma check_integrity_blank:
  assumes "blank_baseline t" "read_bytes m hb 32 = replicate 32 0"
  shows "trace_check_integrity H hb tsc t m
    = Some (ok, t\<lparr>trace_stats := (trace_stats t)\<lparr>integrity_checks := integrity_checks (trace_stats t) + 1\<rparr>\<rparr>, m)"
proof -
  have "blank_baseline (t\<lparr>trace_stats := st\<rparr>)" for st using assms(1) by (simp add: blank_baseline_def)
  then show ?thesis
    using assms(2) by (simp add: trace_check_integrity_def Let_def check_region_blank tags_nonzero)
qed

lemma blank_init:
  assumes "blank_baseline t" "length (integrity_baseline t) = 5"
  shows "blank_baseline (snd (trace_init t))"
proof -
  have l: "integrity_baseline t ! i \<in> set (integrity_baseline t)" if "i < 5" for i using assms(2) that by simp
  have old: "ie_hash (integrity_baseline t ! i) = replicate 32 0" if "i < 5" for i
    using assms(1) l [OF that] by (simp add: blank_baseline_def)
  show ?thesis
    using assms old
    by (auto simp: trace_init_def compute_baseline_hashes_def Let_def blank_baseline_def
        dest!: set_update_subset_insert [THEN subsetD])
qed

lemma trace_reach_blank:
  "trace_reach H hb t m \<Longrightarrow> blank_baseline t \<and> integrity_failures (trace_stats t) = 0 \<and> read_bytes m hb 32 = replicate 32 0"
proof (induction rule: trace_reach.induct)
  case (loaded m)
  then show ?case by (simp add: blank_baseline_def zero_bss_def zero_entry_def zero_statistics_def)
next
  case (init t m r t')
  have "length (integrity_baseline t) = 5" using trace_reach_log_inv [OF init(1)] by (simp add: log_inv_def)
  then have "blank_baseline t'" using init blank_init [of t] by simp
  moreover have "integrity_failures (trace_stats t') = 0"
    using init(2) by (auto simp: trace_init_def compute_baseline_hashes_def Let_def)
  ultimately show ?case using init by simp
next
  case (log t m tsc ty d r t')
  then show ?case using log_keeps [of tsc ty d t] by (simp add: blank_baseline_def)
next
  case (check t m tsc r t' m')
  then have "t' = t\<lparr>trace_stats := (trace_stats t)\<lparr>integrity_checks := integrity_checks (trace_stats t) + 1\<rparr>\<rparr>" "m' = m"
    using check_integrity_blank [of t m hb H tsc] by auto
  then show ?case using check by (simp add: blank_baseline_def)
next
  case (watch t m a sz ty r t')
  then show ?case using watch_keeps [of a sz ty t] by (simp add: blank_baseline_def)
qed simp

section \<open>The interfaces\<close>

text \<open>What a bounded event log promises its users.\<close>

locale event_log =
  fixes append_event :: "'c \<Rightarrow> 's \<Rightarrow> u64 \<times> 's"
    and kept :: "'c \<Rightarrow> 'e"
    and view :: "'s \<Rightarrow> 'e list"
    and capacity :: nat
    and good :: "'s \<Rightarrow> bool"
  assumes accepted: "good s \<Longrightarrow> length (view s) < capacity \<Longrightarrow>
      fst (append_event e s) = ok \<and> view (snd (append_event e s)) = view s @ [kept e]"
    and refused: "good s \<Longrightarrow> length (view s) = capacity \<Longrightarrow> append_event e s = (minus_one, s)"
    and keeps_good: "good s \<Longrightarrow> good (snd (append_event e s))"
    and bounded: "good s \<Longrightarrow> length (view s) \<le> capacity"
begin

lemma view_append: "good s \<Longrightarrow> view (snd (append_event e s)) = take capacity (view s @ [kept e])"
  using accepted [of s e] refused [of s e] bounded [of s] by (cases "length (view s) < capacity") auto

lemma good_fold: "good s \<Longrightarrow> good (fold (\<lambda>e s. snd (append_event e s)) es s)"
  by (induction es arbitrary: s) (simp_all add: keeps_good)

text \<open>The first \<open>capacity\<close> events are kept, in order; the later ones are lost.\<close>

lemma view_fold:
  "good s \<Longrightarrow> view (fold (\<lambda>e s. snd (append_event e s)) es s) = take capacity (view s @ map kept es)"
proof (induction es arbitrary: s)
  case Nil
  then show ?case using bounded [of s] by simp
next
  case (Cons e es)
  have "take capacity (take capacity (view s @ [kept e]) @ map kept es)
      = take capacity (view s @ kept e # map kept es)"
    by (cases "length (view s) < capacity") auto
  then show ?case using Cons keeps_good [of s e] view_append [of s e] by simp
qed

end

text \<open>What an integrity monitor needs of a digest.\<close>

locale tamper_evident =
  fixes digest :: "u8 list \<Rightarrow> u8 list"
  assumes digest_length: "length (digest bs) = 32"
    and one_byte: "i < length bs \<Longrightarrow> b \<noteq> bs ! i \<Longrightarrow> digest (bs[i := b]) \<noteq> digest bs"
begin

lemma unchanged_accepted: "compare_memory (digest bs) (digest bs) = 1"
  by (simp add: compare_memory_eq)

lemma changed_detected:
  assumes "i < unat (n::u64)" "b \<noteq> m (a + of_nat i)"
  shows "compare_memory (digest (read_bytes (m(a + of_nat i := b)) a (unat n))) (digest (read_bytes m a (unat n))) = 0"
  using assms one_byte [of i "read_bytes m a (unat n)" b]
  by (simp add: compare_memory_eq digest_length read_bytes_update [OF assms(1)])

end

interpretation hash: tamper_evident hash_spec
  by unfold_locales (simp_all add: hash_spec_update)

section \<open>The log as a list\<close>

type_synonym log_entry = "u64 \<times> u64 \<times> u64"

text \<open>What of an event the log keeps: the low half of the time stamp counter, one byte of the
  type, the data.\<close>

definition log_record :: "log_entry \<Rightarrow> u64 \<times> u8 \<times> u64" where
  "log_record e = (case e of (tsc, ty, d) \<Rightarrow> (take_bit 32 tsc, ucast ty, d))"

definition log_view :: "bss \<Rightarrow> (u64 \<times> u8 \<times> u64) list" where
  "log_view t = map (\<lambda>e. (ev_timestamp e, ev_type e, ev_data e)) (take (unat (write_index t)) (events t))"

definition log_call :: "log_entry \<Rightarrow> bss \<Rightarrow> u64 \<times> bss" where
  "log_call e t = (case e of (tsc, ty, d) \<Rightarrow> trace_log_event tsc ty d t)"

lemma length_log_view: "log_inv t \<Longrightarrow> length (log_view t) = unat (write_index t)"
  by (simp add: log_view_def log_inv_def)

lemma log_accepted:
  assumes "log_inv t" "unat (write_index t) < TRACE_MAX_EVENTS"
  shows "fst (trace_log_event tsc ty d t) = ok"
    "log_view (snd (trace_log_event tsc ty d t)) = log_view t @ [log_record (tsc, ty, d)]"
proof -
  have n: "\<not> of_nat TRACE_MAX_EVENTS \<le>s write_index t" using assms log_full_iff by simp
  then show "fst (trace_log_event tsc ty d t) = ok" by (simp add: trace_log_event_def Let_def)
  have "unat (write_index t + 1) = Suc (unat (write_index t))"
    using assms by (simp add: unat_word_ariths TRACE_MAX_EVENTS_def)
  then show "log_view (snd (trace_log_event tsc ty d t)) = log_view t @ [log_record (tsc, ty, d)]"
    using n assms
    by (simp add: trace_log_event_def Let_def log_view_def log_record_def log_inv_def take_Suc_conv_app_nth)
qed

lemma log_refused:
  assumes "log_inv t" "unat (write_index t) = TRACE_MAX_EVENTS"
  shows "trace_log_event tsc ty d t = (minus_one, t)"
  using assms log_full_iff by (simp add: trace_log_event_def)

interpretation trace_log: event_log log_call log_record log_view TRACE_MAX_EVENTS log_inv
proof
  show "fst (log_call e t) = ok \<and> log_view (snd (log_call e t)) = log_view t @ [log_record e]"
    if "log_inv t" "length (log_view t) < TRACE_MAX_EVENTS" for t e
    using that log_accepted [of t] by (cases e) (simp add: log_call_def length_log_view)
  show "log_call e t = (minus_one, t)" if "log_inv t" "length (log_view t) = TRACE_MAX_EVENTS" for t e
    using that log_refused [of t] by (simp add: log_call_def length_log_view split: prod.split)
  show "log_inv (snd (log_call e t))" if "log_inv t" for t e
    using log_inv_log [OF that] by (simp add: log_call_def split: prod.split)
  show "length (log_view t) \<le> TRACE_MAX_EVENTS" if "log_inv t" for t
    using that by (simp add: length_log_view) (simp add: log_inv_def)
qed

section \<open>A region with a real baseline\<close>

text \<open>An entry whose hash was taken when memory was \<open>m0\<close>.\<close>

definition baseline_of :: "memory \<Rightarrow> integrity_entry \<Rightarrow> bool" where
  "baseline_of m0 e \<longleftrightarrow> ie_address e \<noteq> 0 \<and> ie_hash e = hash_spec (read_bytes m0 (ie_address e) (unat (ie_size e)))"

lemma check_region_baseline:
  assumes "find_entry tag (integrity_baseline t) = Some e" "ie_address e \<noteq> 0" "hb \<noteq> 0"
  shows "\<exists>m'. check_region_integrity H hb tag t m
    = Some (compare_memory (hash_spec (read_bytes m (ie_address e) (unat (ie_size e)))) (ie_hash e), m')"
  using assms
  by (auto simp: check_region_integrity_def c_hash_blocks mem_simps compare_memory_def)

lemma check_region_same:
  assumes "find_entry tag (integrity_baseline t) = Some e" "baseline_of m0 e" "hb \<noteq> 0"
    and "read_bytes m (ie_address e) (unat (ie_size e)) = read_bytes m0 (ie_address e) (unat (ie_size e))"
  shows "\<exists>m'. check_region_integrity H hb tag t m = Some (1, m')"
  using check_region_baseline [OF assms(1) _ assms(3), of H m] assms(2,4) hash.unchanged_accepted
  by (simp add: baseline_of_def)

lemma check_region_changed:
  assumes "find_entry tag (integrity_baseline t) = Some e" "baseline_of m0 e" "hb \<noteq> 0"
    and "i < unat (ie_size e)" "b \<noteq> m0 (ie_address e + of_nat i)"
  shows "\<exists>m'. check_region_integrity H hb tag t (m0(ie_address e + of_nat i := b)) = Some (0, m')"
  using check_region_baseline [OF assms(1) _ assms(3), of H "m0(ie_address e + of_nat i := b)"] assms(2)
    hash.changed_detected [of i "ie_size e" b m0 "ie_address e", OF assms(4,5)]
  by (simp add: baseline_of_def)

lemma compromised_simps:
  "fst (compromised tsc code t) = minus_one"
  "integrity_failures (trace_stats (snd (compromised tsc code t))) = integrity_failures (trace_stats t) + 1"
  "log_view (snd (compromised tsc code t)) = log_view (snd (trace_log_event tsc TRACE_EVENT_INTEGRITY_FAIL code t))"
  by (simp_all add: compromised_def case_prod_beta log_keeps log_view_def)

lemma log_view_stats [simp]: "log_view (t\<lparr>trace_stats := st\<rparr>) = log_view t"
  by (simp add: log_view_def)

text \<open>The IDT check fails: the call returns \<open>-1\<close>, counts a failure and logs code 1.\<close>

lemma check_integrity_idt:
  assumes "check_region_integrity H hb tag_idt t m = Some (0, m')"
  shows "\<exists>t'. trace_check_integrity H hb tsc t m = Some (minus_one, t', m')
    \<and> integrity_failures (trace_stats t') = integrity_failures (trace_stats t) + 1
    \<and> log_view t' = log_view (snd (trace_log_event tsc TRACE_EVENT_INTEGRITY_FAIL 1
        (t\<lparr>trace_stats := (trace_stats t)\<lparr>integrity_checks := integrity_checks (trace_stats t) + 1\<rparr>\<rparr>)))"
proof -
  let ?t = "t\<lparr>trace_stats := (trace_stats t)\<lparr>integrity_checks := integrity_checks (trace_stats t) + 1\<rparr>\<rparr>"
  have "check_region_integrity H hb tag_idt ?t m = Some (0, m')"
    using assms by (simp add: check_region_integrity_def)
  then show ?thesis
    using compromised_simps [of tsc 1 ?t] by (simp add: trace_check_integrity_def Let_def case_prod_beta)
qed

lemma log_call_fun: "(\<lambda>e t. snd (log_call e t)) = (\<lambda>(tsc, ty, d) t. snd (trace_log_event tsc ty d t))"
  by (auto simp: fun_eq_iff log_call_def)

lemma log_ok_iff:
  assumes "log_inv t"
  shows "fst (trace_log_event tsc ty d t) = ok \<longleftrightarrow> unat (write_index t) < TRACE_MAX_EVENTS"
proof (cases "unat (write_index t) < TRACE_MAX_EVENTS")
  case False
  then have "unat (write_index t) = TRACE_MAX_EVENTS" using assms by (simp add: log_inv_def)
  then show ?thesis using log_refused [OF assms, of tsc ty d] by (simp add: ok_def minus_one_def)
qed (simp add: log_accepted(1) assms)

section \<open>A concrete run for the witnesses\<close>

definition idt_entry :: integrity_entry where
  "idt_entry = \<lparr>ie_tag = tag_idt, ie_address = 0x1000, ie_size = 4, ie_hash = hash_spec [0, 0, 0, 0]\<rparr>"

definition watched_bss :: bss where
  "watched_bss = zero_bss\<lparr>integrity_baseline := idt_entry # replicate 4 zero_entry\<rparr>"

lemma watched_bss_facts:
  "find_entry tag_idt (integrity_baseline watched_bss) = Some idt_entry" "baseline_of (\<lambda>_. 0) idt_entry"
  "log_inv watched_bss" "ie_address idt_entry = 0x1000" "ie_size idt_entry = 4"
  "unat (write_index watched_bss) < TRACE_MAX_EVENTS" "integrity_failures (trace_stats watched_bss) = 0"
  by (simp_all add: watched_bss_def idt_entry_def baseline_of_def read_bytes_def log_inv_def zero_bss_def
      zero_statistics_def TRACE_MAX_EVENTS_def upt_conv_Cons)

lemma loaded_reach: "trace_reach H hb zero_bss (\<lambda>_. 0)"
  by (rule trace_reach.loaded) (simp add: read_bytes_def map_replicate_const)

section \<open>Properties\<close>

text \<open>C22: In every reachable state the log is a bounded list: logging any sequence of events keeps
  what is in it and adds the events in order (time stamp cut to 32 bits, type to 8) until
  1024 are stored; the rest are refused and nothing is overwritten.\<close>

theorem trace_log_keeps_first:
  assumes "trace_reach H hb t m"
  shows "log_view (fold (\<lambda>(tsc, ty, d) t. snd (trace_log_event tsc ty d t)) es t)
    = take 1024 (log_view t @ map log_record es)"
  using trace_log.view_fold [OF trace_reach_log_inv [OF assms], of es]
  by (simp add: log_call_fun TRACE_MAX_EVENTS_def del: take_append)

theorem trace_log_keeps_first_witness:
  "log_view (fold (\<lambda>(tsc, ty, d) t. snd (trace_log_event tsc ty d t)) [(0x100000005, 4, 9), (7, 0x101, 8)] zero_bss)
    = [(5, 4, 9), (7, 1, 8)]"
  using trace_log_keeps_first [OF loaded_reach, where es = "[(0x100000005, 4, 9), (7, 0x101, 8)]"]
  by (simp add: log_record_def log_view_def zero_bss_def take_bit_eq_mod)

text \<open>C37: The counters in every reachable state: the write index never passes 1024, the events counted
  are those stored, the critical ones are among them; and an event is counted as critical
  exactly when its type is 2, an MSR write, since the type is compared with a severity.\<close>

theorem trace_counters:
  assumes "trace_reach H hb t m"
  shows "unat (write_index t) \<le> 1024 \<and> length (events t) = 1024 \<and> event_count (trace_stats t) = write_index t
    \<and> critical_events (trace_stats t) \<le> event_count (trace_stats t)
    \<and> (fst (trace_log_event tsc ty d t) = ok \<longleftrightarrow> unat (write_index t) < 1024)
    \<and> (unat (write_index t) < 1024 \<longrightarrow> critical_events (trace_stats (snd (trace_log_event tsc ty d t)))
        = critical_events (trace_stats t) + (if ty = TRACE_EVENT_MSR_WRITE then 1 else 0))"
proof -
  have i: "log_inv t" using assms by (rule trace_reach_log_inv)
  have "fst (trace_log_event tsc ty d t) = ok \<longleftrightarrow> unat (write_index t) < 1024"
    using log_ok_iff [OF i] by (simp add: TRACE_MAX_EVENTS_def)
  moreover have "critical_events (trace_stats (snd (trace_log_event tsc ty d t)))
      = critical_events (trace_stats t) + (if ty = TRACE_EVENT_MSR_WRITE then 1 else 0)"
    if "unat (write_index t) < 1024"
  proof -
    have "\<not> of_nat TRACE_MAX_EVENTS \<le>s write_index t"
      using that log_full_iff [OF i] by (simp add: TRACE_MAX_EVENTS_def)
    then show ?thesis
      by (simp add: trace_log_event_def Let_def TRACE_SEVERITY_CRITICAL_def TRACE_EVENT_MSR_WRITE_def)
  qed
  ultimately show ?thesis using i by (simp add: log_inv_def TRACE_MAX_EVENTS_def)
qed

theorem trace_counters_witness:
  "critical_events (trace_stats (snd (trace_log_event 9 2 0 zero_bss))) = 1"
  using trace_counters [OF loaded_reach, where tsc = 9 and ty = 2 and d = 0]
  by (simp add: zero_bss_def zero_statistics_def TRACE_EVENT_MSR_WRITE_def)

text \<open>C23: The integrity check of the program as it stands is vacuous: in every state it can reach,
  with memory changed in any way outside \<open>current_hash_buffer\<close>, \<open>trace_check_integrity\<close>
  returns 0. The baselines have address 0, \<open>simd_hash_blocks\<close> refuses it without storing a
  digest, its result is not looked at, and a buffer that is still zero is compared with a
  hash that is zero.\<close>

theorem trace_integrity_vacuous:
  assumes "trace_reach H hb t m" "read_bytes m' hb 32 = read_bytes m hb 32"
  shows "\<exists>t'. trace_check_integrity H hb tsc t m' = Some (ok, t', m')
    \<and> integrity_failures (trace_stats t') = 0"
  using check_integrity_blank [of t m' hb H tsc] trace_reach_blank [OF assms(1)] assms(2) by simp

theorem trace_integrity_vacuous_witness:
  "\<exists>t'. trace_check_integrity avx2_host 0x9000 7 zero_bss ((\<lambda>_. 0)(0x10 := 0x90)) = Some (ok, t', (\<lambda>_. 0)(0x10 := 0x90))"
  using trace_integrity_vacuous [OF loaded_reach, of "(\<lambda>_. 0)(0x10 := 0x90)" "0x9000" avx2_host 7]
  by (auto simp: read_bytes_def upt_conv_Cons)

text \<open>C36: The mechanism itself works: with a baseline taken from real memory at a non-null address,
  \<open>check_region_integrity\<close> accepts the region as long as its bytes are the same, and if one
  byte was changed \<open>trace_check_integrity\<close> returns \<open>-1\<close>, counts the failure and logs an
  integrity event (here for the IDT, the first region checked).\<close>

theorem trace_tampering_detected:
  assumes "find_entry tag_idt (integrity_baseline t) = Some e" "baseline_of m0 e" "hb \<noteq> 0" "log_inv t"
    and "i < unat (ie_size e)" "b \<noteq> m0 (ie_address e + of_nat i)" "unat (write_index t) < 1024"
  shows "(\<exists>m'. check_region_integrity H hb tag_idt t m0 = Some (1, m'))
    \<and> (\<exists>t' m'. trace_check_integrity H hb tsc t (m0(ie_address e + of_nat i := b)) = Some (minus_one, t', m')
        \<and> integrity_failures (trace_stats t') = integrity_failures (trace_stats t) + 1
        \<and> log_view t' = log_view t @ [log_record (tsc, TRACE_EVENT_INTEGRITY_FAIL, 1)])"
proof
  show "\<exists>m'. check_region_integrity H hb tag_idt t m0 = Some (1, m')"
    using check_region_same [OF assms(1-3)] by simp
  obtain m' where f: "check_region_integrity H hb tag_idt t (m0(ie_address e + of_nat i := b)) = Some (0, m')"
    using check_region_changed [OF assms(1-3,5,6)] by blast
  have "log_view (snd (trace_log_event tsc TRACE_EVENT_INTEGRITY_FAIL 1 (t\<lparr>trace_stats := (trace_stats t)
      \<lparr>integrity_checks := integrity_checks (trace_stats t) + 1\<rparr>\<rparr>)))
    = log_view t @ [log_record (tsc, TRACE_EVENT_INTEGRITY_FAIL, 1)]"
    by (subst log_accepted(2)) (use assms(4,7) in \<open>simp_all add: log_inv_stats TRACE_MAX_EVENTS_def\<close>)
  then show "\<exists>t' m'. trace_check_integrity H hb tsc t (m0(ie_address e + of_nat i := b)) = Some (minus_one, t', m')
      \<and> integrity_failures (trace_stats t') = integrity_failures (trace_stats t) + 1
      \<and> log_view t' = log_view t @ [log_record (tsc, TRACE_EVENT_INTEGRITY_FAIL, 1)]"
    using check_integrity_idt [OF f, of tsc] by auto
qed

theorem trace_tampering_detected_witness:
  "\<exists>t' m'. trace_check_integrity avx2_host 0x9000 7 watched_bss ((\<lambda>_. 0)(0x1002 := 0xCC)) = Some (minus_one, t', m')
    \<and> integrity_failures (trace_stats t') = 1"
  using trace_tampering_detected [OF watched_bss_facts(1,2) _ watched_bss_facts(3), of "0x9000" 2 "0xCC" avx2_host 7]
    watched_bss_facts
  by (auto simp: TRACE_MAX_EVENTS_def)

text \<open>\<open>trace_set_watchpoint\<close> on every branch: a size other than 1, 2, 4, 8 and a full table are
  refused and change nothing; otherwise the first slot with address 0 takes the watchpoint,
  the other slots stay as they are, so no watchpoint on a non-zero address is ever replaced.\<close>

theorem watchpoint_first_free:
  "(sz \<notin> {1, 2, 4, 8} \<or> (\<forall>w\<in>set (watchpoints t). wp_address w \<noteq> 0) \<longrightarrow>
      trace_set_watchpoint a sz ty t = (minus_one, t))
   \<and> (sz \<in> {1, 2, 4, 8} \<and> (\<exists>w\<in>set (watchpoints t). wp_address w = 0) \<longrightarrow>
      (\<exists>i<length (watchpoints t). wp_address (watchpoints t ! i) = 0
        \<and> (\<forall>j<i. wp_address (watchpoints t ! j) \<noteq> 0)
        \<and> trace_set_watchpoint a sz ty t = (ok, t\<lparr>watchpoints := (watchpoints t)
             [i := \<lparr>wp_address = a, wp_size = sz, wp_type = ty\<rparr>]\<rparr>)))"
proof (cases "find_free (watchpoints t)")
  case None
  then show ?thesis using find_free_None [of "watchpoints t"] by (auto simp: trace_set_watchpoint_def)
next
  case (Some i)
  then have "\<exists>w\<in>set (watchpoints t). wp_address w = 0" using find_free_None [of "watchpoints t"] by auto
  then show ?thesis using Some find_free_Some [OF Some] by (auto simp: trace_set_watchpoint_def)
qed

theorem watchpoint_first_free_witness:
  "fst (trace_set_watchpoint 0x1000 3 0 zero_bss) = minus_one \<and> fst (trace_set_watchpoint 0x1000 8 0 zero_bss) = ok"
  using watchpoint_first_free [of 3 zero_bss "0x1000" 0] watchpoint_first_free [of 8 zero_bss "0x1000" 0]
  by (auto simp: zero_bss_def zero_watchpoint_def)

end
