(* ===== verification/Kernova_Abi.thy ===== *)
theory Kernova_Abi
  imports Kernova_Prelude
begin

text \<open>
  \<^verbatim>\<open>shared/kernova_abi.h\<close>: the structures and request numbers the service and the kernel
  driver exchange. A structure is a record; \<open>encode_\<close> and \<open>decode_\<close> give its bytes in
  memory (x86-64 layout: every field is naturally aligned and there is no padding), and the
  request numbers are computed with the \<^verbatim>\<open>_IOC\<close> encoding of Linux.

  Shown: the codecs are inverse to each other, the sizes in the request numbers are the
  sizes of the structures, and no two requests have the same number.
\<close>

definition KERNOVA_ABI_VERSION :: u32 where "KERNOVA_ABI_VERSION = 0x00010000"
definition KERNOVA_BACKEND_AMD_SVM :: u32 where "KERNOVA_BACKEND_AMD_SVM = 1"
definition KERNOVA_BACKEND_INTEL_VMX :: u32 where "KERNOVA_BACKEND_INTEL_VMX = 2"
definition KERNOVA_BACKEND_USERSPACE_FALLBACK :: u32 where "KERNOVA_BACKEND_USERSPACE_FALLBACK = 4"
definition KERNOVA_RUN_ALLOW_PRIVILEGED :: u32 where "KERNOVA_RUN_ALLOW_PRIVILEGED = 1"

datatype kernova_runtime_state = KERNOVA_STATE_UNINITIALIZED | KERNOVA_STATE_CAPS_READY
  | KERNOVA_STATE_BACKEND_INITIALIZED | KERNOVA_STATE_VM_CREATED | KERNOVA_STATE_LAUNCH_BLOCKED
  | KERNOVA_STATE_VMEXIT_RECEIVED | KERNOVA_STATE_ERROR

fun state_code :: "kernova_runtime_state \<Rightarrow> u32" where
  "state_code KERNOVA_STATE_UNINITIALIZED = 0"
| "state_code KERNOVA_STATE_CAPS_READY = 1"
| "state_code KERNOVA_STATE_BACKEND_INITIALIZED = 2"
| "state_code KERNOVA_STATE_VM_CREATED = 3"
| "state_code KERNOVA_STATE_LAUNCH_BLOCKED = 4"
| "state_code KERNOVA_STATE_VMEXIT_RECEIVED = 5"
| "state_code KERNOVA_STATE_ERROR = 6"

record kernova_caps =
  caps_abi_version :: u32
  caps_backend_flags :: u32
  caps_runtime_state :: u32
  caps_reserved0 :: u32
  caps_driver_name :: "u8 list"
  caps_cpu_vendor :: "u8 list"
  caps_reserved1 :: "u8 list"
  caps_svm_revision :: u32
  caps_svm_asid_count :: u32
  caps_driver_loaded :: u8
  caps_svm_supported :: u8
  caps_vmx_supported :: u8
  caps_svm_initialized :: u8
  caps_vm_created :: u8
  caps_vmrun_enabled :: u8
  caps_last_vmexit_valid :: u8
  caps_reserved2 :: u8
  caps_last_exit_code :: u64
  caps_last_exit_info1 :: u64
  caps_last_exit_info2 :: u64

record kernova_init_request =
  init_backend_flags :: u32
  init_reserved :: u32

record kernova_create_vm_request =
  create_backend_flags :: u32
  create_guest_size :: u32

record kernova_run_request =
  run_flags :: u32
  run_reserved :: u32
  run_runtime_state :: u32
  run_status :: u32
  run_exit_code :: u64
  run_exit_info1 :: u64
  run_exit_info2 :: u64

section \<open>Layout\<close>

definition encode_caps :: "kernova_caps \<Rightarrow> u8 list" where
  "encode_caps c =
     le_bytes 4 (caps_abi_version c) @ le_bytes 4 (caps_backend_flags c)
   @ le_bytes 4 (caps_runtime_state c) @ le_bytes 4 (caps_reserved0 c)
   @ caps_driver_name c @ caps_cpu_vendor c @ caps_reserved1 c
   @ le_bytes 4 (caps_svm_revision c) @ le_bytes 4 (caps_svm_asid_count c)
   @ [caps_driver_loaded c] @ [caps_svm_supported c] @ [caps_vmx_supported c] @ [caps_svm_initialized c]
   @ [caps_vm_created c] @ [caps_vmrun_enabled c] @ [caps_last_vmexit_valid c] @ [caps_reserved2 c]
   @ le_bytes 8 (caps_last_exit_code c) @ le_bytes 8 (caps_last_exit_info1 c) @ le_bytes 8 (caps_last_exit_info2 c)"

definition decode_caps :: "u8 list \<Rightarrow> kernova_caps" where
  "decode_caps bs =
     \<lparr>caps_abi_version = le_word (page_read 0 4 bs), caps_backend_flags = le_word (page_read 4 4 bs),
      caps_runtime_state = le_word (page_read 8 4 bs), caps_reserved0 = le_word (page_read 12 4 bs),
      caps_driver_name = page_read 16 32 bs, caps_cpu_vendor = page_read 48 13 bs,
      caps_reserved1 = page_read 61 3 bs, caps_svm_revision = le_word (page_read 64 4 bs),
      caps_svm_asid_count = le_word (page_read 68 4 bs), caps_driver_loaded = bs ! 72,
      caps_svm_supported = bs ! 73, caps_vmx_supported = bs ! 74, caps_svm_initialized = bs ! 75,
      caps_vm_created = bs ! 76, caps_vmrun_enabled = bs ! 77, caps_last_vmexit_valid = bs ! 78,
      caps_reserved2 = bs ! 79, caps_last_exit_code = le_word (page_read 80 8 bs),
      caps_last_exit_info1 = le_word (page_read 88 8 bs), caps_last_exit_info2 = le_word (page_read 96 8 bs)\<rparr>"

definition encode_init :: "kernova_init_request \<Rightarrow> u8 list" where
  "encode_init r = le_bytes 4 (init_backend_flags r) @ le_bytes 4 (init_reserved r)"

definition decode_init :: "u8 list \<Rightarrow> kernova_init_request" where
  "decode_init bs = \<lparr>init_backend_flags = le_word (page_read 0 4 bs), init_reserved = le_word (page_read 4 4 bs)\<rparr>"

definition encode_create :: "kernova_create_vm_request \<Rightarrow> u8 list" where
  "encode_create r = le_bytes 4 (create_backend_flags r) @ le_bytes 4 (create_guest_size r)"

definition decode_create :: "u8 list \<Rightarrow> kernova_create_vm_request" where
  "decode_create bs =
     \<lparr>create_backend_flags = le_word (page_read 0 4 bs), create_guest_size = le_word (page_read 4 4 bs)\<rparr>"

definition encode_run :: "kernova_run_request \<Rightarrow> u8 list" where
  "encode_run r =
     le_bytes 4 (run_flags r) @ le_bytes 4 (run_reserved r) @ le_bytes 4 (run_runtime_state r)
   @ le_bytes 4 (run_status r) @ le_bytes 8 (run_exit_code r) @ le_bytes 8 (run_exit_info1 r)
   @ le_bytes 8 (run_exit_info2 r)"

definition decode_run :: "u8 list \<Rightarrow> kernova_run_request" where
  "decode_run bs =
     \<lparr>run_flags = le_word (page_read 0 4 bs), run_reserved = le_word (page_read 4 4 bs),
      run_runtime_state = le_word (page_read 8 4 bs), run_status = le_word (page_read 12 4 bs),
      run_exit_code = le_word (page_read 16 8 bs), run_exit_info1 = le_word (page_read 24 8 bs),
      run_exit_info2 = le_word (page_read 32 8 bs)\<rparr>"

definition sizeof_caps :: nat where "sizeof_caps = 104"
definition sizeof_init :: nat where "sizeof_init = 8"
definition sizeof_create :: nat where "sizeof_create = 8"
definition sizeof_run :: nat where "sizeof_run = 40"

text \<open>The character arrays have the lengths the structure gives them.\<close>

definition caps_wf :: "kernova_caps \<Rightarrow> bool" where
  "caps_wf c \<longleftrightarrow> length (caps_driver_name c) = 32 \<and> length (caps_cpu_vendor c) = 13 \<and> length (caps_reserved1 c) = 3"

section \<open>Request numbers\<close>

definition IOC :: "u32 \<Rightarrow> u32 \<Rightarrow> u32 \<Rightarrow> nat \<Rightarrow> u32" where
  "IOC dir type nr sz = push_bit 30 dir OR push_bit 8 type OR nr OR push_bit 16 (of_nat sz)"

definition IOC_TYPE :: "u32 \<Rightarrow> u32" where "IOC_TYPE cmd = drop_bit 8 cmd AND 0xFF"
definition IOC_SIZE :: "u32 \<Rightarrow> u32" where "IOC_SIZE cmd = drop_bit 16 cmd AND 0x3FFF"

definition KERNOVA_IOCTL_MAGIC :: u32 where "KERNOVA_IOCTL_MAGIC = 0x4B"
definition KERNOVA_IOCTL_QUERY_CAPS :: u32 where "KERNOVA_IOCTL_QUERY_CAPS = IOC 2 KERNOVA_IOCTL_MAGIC 1 sizeof_caps"
definition KERNOVA_IOCTL_INIT_BACKEND :: u32 where "KERNOVA_IOCTL_INIT_BACKEND = IOC 1 KERNOVA_IOCTL_MAGIC 2 sizeof_init"
definition KERNOVA_IOCTL_CREATE_VM :: u32 where "KERNOVA_IOCTL_CREATE_VM = IOC 1 KERNOVA_IOCTL_MAGIC 3 sizeof_create"
definition KERNOVA_IOCTL_RUN_VM :: u32 where "KERNOVA_IOCTL_RUN_VM = IOC 3 KERNOVA_IOCTL_MAGIC 4 sizeof_run"
definition KERNOVA_IOCTL_DESTROY_VM :: u32 where "KERNOVA_IOCTL_DESTROY_VM = IOC 0 KERNOVA_IOCTL_MAGIC 5 0"

lemmas ioctl_defs = KERNOVA_IOCTL_QUERY_CAPS_def KERNOVA_IOCTL_INIT_BACKEND_def KERNOVA_IOCTL_CREATE_VM_def
  KERNOVA_IOCTL_RUN_VM_def KERNOVA_IOCTL_DESTROY_VM_def KERNOVA_IOCTL_MAGIC_def IOC_def
  sizeof_caps_def sizeof_init_def sizeof_create_def sizeof_run_def

lemma ioctl_values:
  "KERNOVA_IOCTL_QUERY_CAPS = 0x80684B01" "KERNOVA_IOCTL_INIT_BACKEND = 0x40084B02"
  "KERNOVA_IOCTL_CREATE_VM = 0x40084B03" "KERNOVA_IOCTL_RUN_VM = 0xC0284B04"
  "KERNOVA_IOCTL_DESTROY_VM = 0x00004B05" "KERNOVA_IOCTL_MAGIC = 0x4B"
  by (simp_all add: ioctl_defs)

section \<open>Round trips\<close>

lemma page_read_append_skip [enc_simps]:
  "length xs \<le> k \<Longrightarrow> page_read k n (xs @ ys) = page_read (k - length xs) n ys"
  by (simp add: page_read_def)

lemma page_read_append_take [enc_simps]:
  "length xs = n \<Longrightarrow> page_read 0 n (xs @ ys) = xs"
  by (simp add: page_read_def)

lemma page_read_whole [enc_simps]: "length xs = n \<Longrightarrow> page_read 0 n xs = xs"
  by (simp add: page_read_def)

lemma page_read_join:
  "k + n = j \<Longrightarrow> page_read k n xs @ drop j xs = drop k xs"
  "k + n = length xs \<Longrightarrow> page_read k n xs = drop k xs"
  by (auto simp: page_read_def simp flip: drop_drop) (metis add.commute append_take_drop_id drop_drop)

lemma nth_join: "k < length xs \<Longrightarrow> Suc k = j \<Longrightarrow> xs ! k # drop j xs = drop k xs"
  using Cons_nth_drop_Suc [of k xs] by simp

lemma page_read_Cons [enc_simps]: "0 < k \<Longrightarrow> page_read k n (x # xs) = page_read (k - 1) n xs"
  by (simp add: page_read_def drop_Cons')

lemma length_page_read [enc_simps]: "off + n \<le> length p \<Longrightarrow> length (page_read off n p) = n"
  by (simp add: page_read_def)

lemma length_encode [enc_simps]:
  "caps_wf c \<Longrightarrow> length (encode_caps c) = sizeof_caps"
  "length (encode_init i) = sizeof_init" "length (encode_create k) = sizeof_create"
  "length (encode_run r) = sizeof_run"
  by (simp_all add: encode_caps_def caps_wf_def encode_init_def encode_create_def encode_run_def
      sizeof_caps_def sizeof_init_def sizeof_create_def sizeof_run_def)

lemma decode_encode_init [simp]: "decode_init (encode_init i) = i"
  by (simp add: decode_init_def encode_init_def enc_simps)

lemma decode_encode_create [simp]: "decode_create (encode_create i) = i"
  by (simp add: decode_create_def encode_create_def enc_simps)

lemma decode_encode_run [simp]: "decode_run (encode_run i) = i"
  by (simp add: decode_run_def encode_run_def enc_simps)

lemma decode_encode_caps: "caps_wf c \<Longrightarrow> decode_caps (encode_caps c) = c"
  by (simp add: decode_caps_def encode_caps_def enc_simps caps_wf_def nth_append)


lemma le_bytes_page_read:
  "off + 4 \<le> length bs \<Longrightarrow> le_bytes 4 (le_word (page_read off 4 bs) :: u32) = page_read off 4 bs"
  "off + 8 \<le> length bs \<Longrightarrow> le_bytes 8 (le_word (page_read off 8 bs) :: u64) = page_read off 8 bs"
  by (simp_all add: enc_simps)

lemma encode_decode_init: "length bs = sizeof_init \<Longrightarrow> encode_init (decode_init bs) = bs"
  by (simp add: encode_init_def decode_init_def sizeof_init_def le_bytes_page_read) (simp add: page_read_join)

lemma encode_decode_create: "length bs = sizeof_create \<Longrightarrow> encode_create (decode_create bs) = bs"
  by (simp add: encode_create_def decode_create_def sizeof_create_def le_bytes_page_read) (simp add: page_read_join)

lemma encode_decode_run: "length bs = sizeof_run \<Longrightarrow> encode_run (decode_run bs) = bs"
  by (simp add: encode_run_def decode_run_def sizeof_run_def le_bytes_page_read) (simp add: page_read_join)

lemma encode_decode_caps: "length bs = sizeof_caps \<Longrightarrow> encode_caps (decode_caps bs) = bs"
  by (simp add: encode_caps_def decode_caps_def sizeof_caps_def le_bytes_page_read) (simp add: page_read_join nth_join)

lemma caps_wf_decode: "length bs = sizeof_caps \<Longrightarrow> caps_wf (decode_caps bs)"
  by (simp add: caps_wf_def decode_caps_def sizeof_caps_def length_page_read)

text \<open>What a structure and its codec promise to the code that passes it through a pointer.\<close>

locale wire_struct =
  fixes encode :: "'s \<Rightarrow> u8 list"
    and decode :: "u8 list \<Rightarrow> 's"
    and wf :: "'s \<Rightarrow> bool"
    and width :: nat
  assumes encode_length: "wf s \<Longrightarrow> length (encode s) = width"
    and decode_encode: "wf s \<Longrightarrow> decode (encode s) = s"
    and encode_decode: "length bs = width \<Longrightarrow> encode (decode bs) = bs"
    and decode_wf: "length bs = width \<Longrightarrow> wf (decode bs)"
    and width_small: "width < 2 ^ 14"
begin

text \<open>A structure stored at an address and loaded from there is the same, and storing what was
  loaded changes nothing.\<close>

lemma store_load: "wf s \<Longrightarrow> decode (read_bytes (write_bytes a (encode s) m) a width) = s"
  using width_small by (simp add: encode_length decode_encode mem_simps)

lemma load_store: "write_bytes a (encode (decode (read_bytes m a width))) m = m"
  by (simp add: encode_decode) (auto simp: write_bytes_def fun_eq_iff)

lemma encode_inject: "wf s \<Longrightarrow> wf t \<Longrightarrow> encode s = encode t \<Longrightarrow> s = t"
  by (metis decode_encode)

end

interpretation caps_struct: wire_struct encode_caps decode_caps caps_wf sizeof_caps
  by unfold_locales
    (simp_all add: length_encode decode_encode_caps encode_decode_caps caps_wf_decode, simp add: sizeof_caps_def)

interpretation init_struct: wire_struct encode_init decode_init "\<lambda>_. True" sizeof_init
  by unfold_locales (simp_all add: length_encode encode_decode_init, simp add: sizeof_init_def)

interpretation create_struct: wire_struct encode_create decode_create "\<lambda>_. True" sizeof_create
  by unfold_locales (simp_all add: length_encode encode_decode_create, simp add: sizeof_create_def)

interpretation run_struct: wire_struct encode_run decode_run "\<lambda>_. True" sizeof_run
  by unfold_locales (simp_all add: length_encode encode_decode_run, simp add: sizeof_run_def)

section \<open>Properties\<close>

text \<open>The five request numbers are pairwise different, carry the magic letter \<open>K\<close> the driver
  tests, and carry the size of the structure that travels with them.\<close>

theorem ioctl_numbers:
  "distinct [KERNOVA_IOCTL_QUERY_CAPS, KERNOVA_IOCTL_INIT_BACKEND, KERNOVA_IOCTL_CREATE_VM,
      KERNOVA_IOCTL_RUN_VM, KERNOVA_IOCTL_DESTROY_VM]
   \<and> list_all (\<lambda>c. IOC_TYPE c = KERNOVA_IOCTL_MAGIC) [KERNOVA_IOCTL_QUERY_CAPS, KERNOVA_IOCTL_INIT_BACKEND,
      KERNOVA_IOCTL_CREATE_VM, KERNOVA_IOCTL_RUN_VM, KERNOVA_IOCTL_DESTROY_VM]
   \<and> map (unat \<circ> IOC_SIZE) [KERNOVA_IOCTL_QUERY_CAPS, KERNOVA_IOCTL_INIT_BACKEND, KERNOVA_IOCTL_CREATE_VM,
      KERNOVA_IOCTL_RUN_VM, KERNOVA_IOCTL_DESTROY_VM] = [sizeof_caps, sizeof_init, sizeof_create, sizeof_run, 0]"
  by (simp add: ioctl_values IOC_TYPE_def IOC_SIZE_def sizeof_caps_def sizeof_init_def sizeof_create_def sizeof_run_def)

end
