(* ===== verification/Kernel_Svm.thy ===== *)
theory Kernel_Svm
  imports Kernova_Abi X86_Machine
begin

text \<open>
  The AMD SVM backend of the Linux driver, \<^verbatim>\<open>service-kernel/linux/amd_svm/amd_svm.c\<close>, and
  the Intel stub \<^verbatim>\<open>intel_vmx.c\<close>. The state \<open>kernel\<close> is the driver's structure together
  with what the driver acts on: the model-specific registers of every CPU, the pages it
  holds (address to 4096 bytes) and, as history, the VMRUNs executed.

  What is not in the repository is the parameter \<open>E\<close> of type \<open>kenv\<close>: CPUID, the kernel's
  feature flags and page allocator, the address translation and what VMRUN does to memory.
  \<open>kenv_ok\<close> states what the driver relies on there. The module parameter
  \<open>kernova_allow_vmrun\<close> can be changed at run time, so it is an argument of each call.

  A call that would crash the kernel is \<open>None\<close>: access to a page that is not held, a second
  free, or VMRUN on a CPU whose EFER.SVME is clear (an invalid-opcode exception).
\<close>

section \<open>Environment and state\<close>

type_synonym pages = "u64 \<Rightarrow> u8 list option"

record kenv =
  env_cpuid :: cpuid_fn
  env_has_svm :: bool
  env_has_vmx :: bool
  env_alloc :: "nat \<Rightarrow> pages \<Rightarrow> u64"
  env_virt_to_phys :: "u64 \<Rightarrow> u64"
  env_vmrun :: "nat \<Rightarrow> u64 \<Rightarrow> pages \<Rightarrow> pages"

record svm_ctx =
  sv_vmcb :: u64
  sv_host_save_area :: u64
  sv_guest_page :: u64
  sv_vmcb_pa :: u64
  sv_host_save_pa :: u64
  sv_guest_pa :: u64
  sv_original_efer :: u64
  sv_original_vm_hsave_pa :: u64
  sv_efer_saved :: bool
  sv_hsave_saved :: bool
  sv_initialized :: bool
  sv_vm_created :: bool
  sv_last_exit_code :: u64
  sv_last_exit_info1 :: u64
  sv_last_exit_info2 :: u64

record kernel =
  k_caps :: kernova_caps
  k_svm :: svm_ctx
  k_msr :: "nat \<Rightarrow> u32 \<Rightarrow> u64"
  k_pages :: pages
  k_requests :: nat
  k_vmruns :: "(nat \<times> u64) list"

definition zero_svm :: svm_ctx where
  "zero_svm = \<lparr>sv_vmcb = 0, sv_host_save_area = 0, sv_guest_page = 0, sv_vmcb_pa = 0, sv_host_save_pa = 0,
     sv_guest_pa = 0, sv_original_efer = 0, sv_original_vm_hsave_pa = 0, sv_efer_saved = False,
     sv_hsave_saved = False, sv_initialized = False, sv_vm_created = False, sv_last_exit_code = 0,
     sv_last_exit_info1 = 0, sv_last_exit_info2 = 0\<rparr>"

definition PAGE :: nat where "PAGE = 4096"

definition MSR_EFER :: u32 where "MSR_EFER = 0xC0000080"
definition MSR_VM_CR :: u32 where "MSR_VM_CR = 0xC0010114"
definition MSR_VM_HSAVE_PA :: u32 where "MSR_VM_HSAVE_PA = 0xC0010117"
definition EFER_SVME :: u64 where "EFER_SVME = 0x1000"
definition VM_CR_SVMDIS :: u64 where "VM_CR_SVMDIS = 0x10"

definition EPERM :: int where "EPERM = 1"
definition ENOMEM :: int where "ENOMEM = 12"
definition EFAULT :: int where "EFAULT = 14"
definition ENODEV :: int where "ENODEV = 19"
definition EINVAL :: int where "EINVAL = 22"
definition ENOTTY :: int where "ENOTTY = 25"
definition EOPNOTSUPP :: int where "EOPNOTSUPP = 95"

lemmas errno_defs = EPERM_def ENOMEM_def EFAULT_def ENODEV_def EINVAL_def ENOTTY_def EOPNOTSUPP_def

text \<open>What the driver relies on: an allocated page is not one it still holds, and VMRUN leaves
  the set of pages and their size alone.\<close>

definition kenv_ok :: "kenv \<Rightarrow> bool" where
  "kenv_ok E \<longleftrightarrow> (\<forall>n ps. env_alloc E n ps \<noteq> 0 \<longrightarrow> ps (env_alloc E n ps) = None)
     \<and> (\<forall>c pa ps. dom (env_vmrun E c pa ps) = dom ps
          \<and> ((\<forall>b\<in>ran ps. length b = PAGE) \<longrightarrow> (\<forall>b\<in>ran (env_vmrun E c pa ps). length b = PAGE)))"

section \<open>Model-specific registers and pages\<close>

definition rdmsrl :: "nat \<Rightarrow> u32 \<Rightarrow> kernel \<Rightarrow> u64" where
  "rdmsrl cpu r k = k_msr k cpu r"

definition wrmsrl :: "nat \<Rightarrow> u32 \<Rightarrow> u64 \<Rightarrow> kernel \<Rightarrow> kernel" where
  "wrmsrl cpu r v k = k\<lparr>k_msr := (k_msr k)(cpu := (k_msr k cpu)(r := v))\<rparr>"

text \<open>\<open>kernova_alloc_page\<close>: return code, page, its physical address.\<close>

definition kernova_alloc_page :: "kenv \<Rightarrow> kernel \<Rightarrow> int \<times> u64 \<times> u64 \<times> kernel" where
  "kernova_alloc_page E k =
     (let memory = env_alloc E (k_requests k) (k_pages k);
          k = k\<lparr>k_requests := k_requests k + 1\<rparr>
      in if memory = 0 then (- ENOMEM, 0, 0, k)
         else (0, memory, env_virt_to_phys E memory, k\<lparr>k_pages := (k_pages k)(memory \<mapsto> replicate PAGE 0)\<rparr>))"

definition kernova_free_page :: "u64 \<Rightarrow> kernel \<Rightarrow> kernel option" where
  "kernova_free_page p k =
     (if p = 0 then Some k
      else if k_pages k p = None then None
      else Some (k\<lparr>k_pages := (k_pages k)(p := None)\<rparr>))"

definition store_page :: "u64 \<Rightarrow> u8 list \<Rightarrow> kernel \<Rightarrow> kernel option" where
  "store_page p bs k = (if k_pages k p = None then None else Some (k\<lparr>k_pages := (k_pages k)(p \<mapsto> bs)\<rparr>))"

definition vmcb_write_u8 :: "nat \<Rightarrow> u8 \<Rightarrow> u8 list \<Rightarrow> u8 list" where
  "vmcb_write_u8 offset value p = page_write offset [value] p"

definition vmcb_write_u32 :: "nat \<Rightarrow> u32 \<Rightarrow> u8 list \<Rightarrow> u8 list" where
  "vmcb_write_u32 offset value p = page_write offset (le_bytes 4 value) p"

definition vmcb_write_u64 :: "nat \<Rightarrow> u64 \<Rightarrow> u8 list \<Rightarrow> u8 list" where
  "vmcb_write_u64 offset value p = page_write offset (le_bytes 8 value) p"

definition vmcb_read_u64 :: "nat \<Rightarrow> u8 list \<Rightarrow> u64" where
  "vmcb_read_u64 offset p = le_word (page_read offset 8 p)"

text \<open>The packed \<^verbatim>\<open>kernova_segment_state\<close>: selector, attributes, limit, base.\<close>

definition vmcb_write_segment :: "nat \<Rightarrow> u16 \<Rightarrow> u16 \<Rightarrow> u32 \<Rightarrow> u64 \<Rightarrow> u8 list \<Rightarrow> u8 list" where
  "vmcb_write_segment offset selector attrib limit base p =
     page_write offset (le_bytes 2 selector @ le_bytes 2 attrib @ le_bytes 4 limit @ le_bytes 8 base) p"

section \<open>The guest page and the VMCB\<close>

definition kernova_prepare_guest_page :: "u8 list" where
  "kernova_prepare_guest_page =
     (let guest = replicate PAGE 0xF4;
          guest = guest[0 := 0x90];
          guest = guest[1 := 0x90]
      in guest[2 := 0xF4])"

definition VMCB_CONTROL_INTERCEPT :: nat where "VMCB_CONTROL_INTERCEPT = 0x00c"
definition VMCB_CONTROL_ASID :: nat where "VMCB_CONTROL_ASID = 0x058"
definition VMCB_CONTROL_TLB_CONTROL :: nat where "VMCB_CONTROL_TLB_CONTROL = 0x05c"
definition VMCB_CONTROL_EXIT_CODE :: nat where "VMCB_CONTROL_EXIT_CODE = 0x070"
definition VMCB_CONTROL_EXIT_INFO1 :: nat where "VMCB_CONTROL_EXIT_INFO1 = 0x078"
definition VMCB_CONTROL_EXIT_INFO2 :: nat where "VMCB_CONTROL_EXIT_INFO2 = 0x080"
definition VMCB_CONTROL_N_RIP :: nat where "VMCB_CONTROL_N_RIP = 0x0c8"
definition VMCB_SAVE_EFER :: nat where "VMCB_SAVE_EFER = 0x4d0"
definition VMCB_SAVE_CR4 :: nat where "VMCB_SAVE_CR4 = 0x548"
definition VMCB_SAVE_CR3 :: nat where "VMCB_SAVE_CR3 = 0x550"
definition VMCB_SAVE_CR0 :: nat where "VMCB_SAVE_CR0 = 0x558"
definition VMCB_SAVE_DR7 :: nat where "VMCB_SAVE_DR7 = 0x560"
definition VMCB_SAVE_DR6 :: nat where "VMCB_SAVE_DR6 = 0x568"
definition VMCB_SAVE_RFLAGS :: nat where "VMCB_SAVE_RFLAGS = 0x570"
definition VMCB_SAVE_RIP :: nat where "VMCB_SAVE_RIP = 0x578"
definition VMCB_SAVE_RSP :: nat where "VMCB_SAVE_RSP = 0x5d8"
definition VMCB_SAVE_RAX :: nat where "VMCB_SAVE_RAX = 0x5f8"

lemmas vmcb_offsets = VMCB_CONTROL_INTERCEPT_def VMCB_CONTROL_ASID_def VMCB_CONTROL_TLB_CONTROL_def
  VMCB_CONTROL_EXIT_CODE_def VMCB_CONTROL_EXIT_INFO1_def VMCB_CONTROL_EXIT_INFO2_def VMCB_CONTROL_N_RIP_def
  VMCB_SAVE_EFER_def VMCB_SAVE_CR4_def VMCB_SAVE_CR3_def VMCB_SAVE_CR0_def VMCB_SAVE_DR7_def VMCB_SAVE_DR6_def
  VMCB_SAVE_RFLAGS_def VMCB_SAVE_RIP_def VMCB_SAVE_RSP_def VMCB_SAVE_RAX_def

definition kernova_prepare_vmcb :: "u64 \<Rightarrow> u8 list" where
  "kernova_prepare_vmcb guest_pa =
     (let intercepts = push_bit 24 1;
          p = replicate PAGE 0;
          p = vmcb_write_u64 VMCB_CONTROL_INTERCEPT intercepts p;
          p = vmcb_write_u32 VMCB_CONTROL_ASID 1 p;
          p = vmcb_write_u8 VMCB_CONTROL_TLB_CONTROL 1 p;
          p = vmcb_write_segment 0x400 0 0x93 0xffff 0 p;
          p = vmcb_write_segment 0x410 0 0x9b 0xffff 0 p;
          p = vmcb_write_segment 0x420 0 0x93 0xffff 0 p;
          p = vmcb_write_segment 0x430 0 0x93 0xffff 0 p;
          p = vmcb_write_segment 0x440 0 0x93 0xffff 0 p;
          p = vmcb_write_segment 0x450 0 0x93 0xffff 0 p;
          p = vmcb_write_segment 0x460 0 0x82 0xffff 0 p;
          p = vmcb_write_segment 0x470 0 0x82 0xffff 0 p;
          p = vmcb_write_segment 0x480 0 0x82 0xffff 0 p;
          p = vmcb_write_segment 0x490 0 0x8b 0xffff 0 p;
          p = vmcb_write_u64 VMCB_SAVE_EFER 0 p;
          p = vmcb_write_u64 VMCB_SAVE_CR0 0x10 p;
          p = vmcb_write_u64 VMCB_SAVE_CR3 0 p;
          p = vmcb_write_u64 VMCB_SAVE_CR4 0 p;
          p = vmcb_write_u64 VMCB_SAVE_DR6 0xffff0ff0 p;
          p = vmcb_write_u64 VMCB_SAVE_DR7 0x400 p;
          p = vmcb_write_u64 VMCB_SAVE_RFLAGS 0x2 p;
          p = vmcb_write_u64 VMCB_SAVE_RIP guest_pa p;
          p = vmcb_write_u64 VMCB_SAVE_RSP (guest_pa + 4096 - 16) p;
          p = vmcb_write_u64 VMCB_SAVE_RAX 0 p
      in vmcb_write_u64 VMCB_CONTROL_N_RIP (guest_pa + 3) p)"

section \<open>The operations\<close>

definition kernova_amd_svm_fill_caps :: "bool \<Rightarrow> kernel \<Rightarrow> kernel" where
  "kernova_amd_svm_fill_caps allow k =
     (let v = k_svm k;
          c = k_caps k;
          c = c\<lparr>caps_svm_initialized := if sv_initialized v then 1 else 0\<rparr>;
          c = c\<lparr>caps_vm_created := if sv_vm_created v then 1 else 0\<rparr>;
          c = c\<lparr>caps_vmrun_enabled := if allow then 1 else 0\<rparr>;
          c = c\<lparr>caps_last_vmexit_valid := if sv_last_exit_code v \<noteq> 0 then 1 else 0\<rparr>;
          c = c\<lparr>caps_last_exit_code := sv_last_exit_code v\<rparr>;
          c = c\<lparr>caps_last_exit_info1 := sv_last_exit_info1 v\<rparr>;
          c = c\<lparr>caps_last_exit_info2 := sv_last_exit_info2 v\<rparr>;
          c = (if sv_vm_created v then c\<lparr>caps_runtime_state := state_code KERNOVA_STATE_VM_CREATED\<rparr>
               else if sv_initialized v then c\<lparr>caps_runtime_state := state_code KERNOVA_STATE_BACKEND_INITIALIZED\<rparr>
               else c)
      in k\<lparr>k_caps := c\<rparr>)"

definition kernova_amd_svm_init :: "kenv \<Rightarrow> nat \<Rightarrow> kernel \<Rightarrow> int \<times> kernel" where
  "kernova_amd_svm_init E cpu k =
     (if caps_svm_supported (k_caps k) = 0 then (- ENODEV, k)
      else if rdmsrl cpu MSR_VM_CR k AND VM_CR_SVMDIS \<noteq> 0 then (- EOPNOTSUPP, k)
      else if sv_initialized (k_svm k) then (0, k)
      else
        let (r, page, pa, k) = kernova_alloc_page E k in
        if r \<noteq> 0 then (r, k)
        else
          let k = k\<lparr>k_svm := (k_svm k)\<lparr>sv_host_save_area := page, sv_host_save_pa := pa\<rparr>\<rparr>;
              k = k\<lparr>k_svm := (k_svm k)\<lparr>sv_original_efer := rdmsrl cpu MSR_EFER k\<rparr>\<rparr>;
              k = k\<lparr>k_svm := (k_svm k)\<lparr>sv_efer_saved := True\<rparr>\<rparr>;
              k = k\<lparr>k_svm := (k_svm k)\<lparr>sv_original_vm_hsave_pa := rdmsrl cpu MSR_VM_HSAVE_PA k\<rparr>\<rparr>;
              k = k\<lparr>k_svm := (k_svm k)\<lparr>sv_hsave_saved := True\<rparr>\<rparr>;
              efer = sv_original_efer (k_svm k) OR EFER_SVME;
              k = wrmsrl cpu MSR_EFER efer k;
              k = wrmsrl cpu MSR_VM_HSAVE_PA (sv_host_save_pa (k_svm k)) k;
              k = k\<lparr>k_svm := (k_svm k)\<lparr>sv_initialized := True\<rparr>\<rparr>
          in (0, k))"

text \<open>The two allocations of \<open>kernova_amd_svm_create_vm\<close>: a page that is there is kept.\<close>

definition alloc_vmcb :: "kenv \<Rightarrow> kernel \<Rightarrow> int \<times> kernel" where
  "alloc_vmcb E k =
     (if sv_vmcb (k_svm k) = 0 then
        let (r, page, pa, k) = kernova_alloc_page E k in
        if r \<noteq> 0 then (r, k) else (0, k\<lparr>k_svm := (k_svm k)\<lparr>sv_vmcb := page, sv_vmcb_pa := pa\<rparr>\<rparr>)
      else (0, k))"

definition alloc_guest :: "kenv \<Rightarrow> kernel \<Rightarrow> int \<times> kernel" where
  "alloc_guest E k =
     (if sv_guest_page (k_svm k) = 0 then
        let (r, page, pa, k) = kernova_alloc_page E k in
        if r \<noteq> 0 then (r, k) else (0, k\<lparr>k_svm := (k_svm k)\<lparr>sv_guest_page := page, sv_guest_pa := pa\<rparr>\<rparr>)
      else (0, k))"

definition kernova_amd_svm_create_vm :: "kenv \<Rightarrow> u32 \<Rightarrow> kernel \<Rightarrow> (int \<times> kernel) option" where
  "kernova_amd_svm_create_vm E guest_size k =
     (if \<not> sv_initialized (k_svm k) then Some (- EINVAL, k)
      else if guest_size \<noteq> 0 \<and> 4096 < guest_size then Some (- EINVAL, k)
      else
        let (r, k) = alloc_vmcb E k in
        if r \<noteq> 0 then Some (r, k)
        else
          let (r, k) = alloc_guest E k in
          if r \<noteq> 0 then
            (case kernova_free_page (sv_vmcb (k_svm k)) k of
               None \<Rightarrow> None
             | Some k \<Rightarrow> Some (r, k\<lparr>k_svm := (k_svm k)\<lparr>sv_vmcb := 0\<rparr>\<rparr>))
          else
            (case store_page (sv_guest_page (k_svm k)) kernova_prepare_guest_page k of
               None \<Rightarrow> None
             | Some k \<Rightarrow>
                 (case store_page (sv_vmcb (k_svm k)) (kernova_prepare_vmcb (sv_guest_pa (k_svm k))) k of
                    None \<Rightarrow> None
                  | Some k \<Rightarrow> Some (0, k\<lparr>k_svm := (k_svm k)\<lparr>sv_vm_created := True\<rparr>\<rparr>))))"

text \<open>The instruction: an invalid-opcode exception unless this CPU has EFER.SVME set.\<close>

definition vmrun :: "kenv \<Rightarrow> nat \<Rightarrow> u64 \<Rightarrow> kernel \<Rightarrow> kernel option" where
  "vmrun E cpu pa k =
     (if rdmsrl cpu MSR_EFER k AND EFER_SVME = 0 then None
      else Some (k\<lparr>k_pages := env_vmrun E cpu pa (k_pages k), k_vmruns := (cpu, pa) # k_vmruns k\<rparr>))"

definition kernova_amd_svm_run ::
  "kenv \<Rightarrow> nat \<Rightarrow> bool \<Rightarrow> kernova_run_request \<Rightarrow> kernel \<Rightarrow> (int \<times> kernova_run_request \<times> kernel) option" where
  "kernova_amd_svm_run E cpu allow request k =
     (let request = request\<lparr>run_status := 0\<rparr>;
          request = request\<lparr>run_runtime_state := state_code KERNOVA_STATE_UNINITIALIZED\<rparr>;
          request = request\<lparr>run_exit_code := 0, run_exit_info1 := 0, run_exit_info2 := 0\<rparr>
      in if \<not> sv_initialized (k_svm k) \<or> \<not> sv_vm_created (k_svm k) then
           Some (- EINVAL, request\<lparr>run_status := of_int (- EINVAL),
             run_runtime_state := state_code KERNOVA_STATE_ERROR\<rparr>, k)
         else if \<not> allow \<or> run_flags request AND KERNOVA_RUN_ALLOW_PRIVILEGED = 0 then
           Some (- EPERM, request\<lparr>run_status := of_int (- EPERM),
             run_runtime_state := state_code KERNOVA_STATE_LAUNCH_BLOCKED\<rparr>, k)
         else
           (case vmrun E cpu (sv_vmcb_pa (k_svm k)) k of
              None \<Rightarrow> None
            | Some k \<Rightarrow>
                (case k_pages k (sv_vmcb (k_svm k)) of
                   None \<Rightarrow> None
                 | Some p \<Rightarrow>
                     let k = k\<lparr>k_svm := (k_svm k)\<lparr>sv_last_exit_code := vmcb_read_u64 VMCB_CONTROL_EXIT_CODE p\<rparr>\<rparr>;
                         k = k\<lparr>k_svm := (k_svm k)\<lparr>sv_last_exit_info1 := vmcb_read_u64 VMCB_CONTROL_EXIT_INFO1 p\<rparr>\<rparr>;
                         k = k\<lparr>k_svm := (k_svm k)\<lparr>sv_last_exit_info2 := vmcb_read_u64 VMCB_CONTROL_EXIT_INFO2 p\<rparr>\<rparr>;
                         request = request\<lparr>run_runtime_state := state_code KERNOVA_STATE_VMEXIT_RECEIVED\<rparr>;
                         request = request\<lparr>run_exit_code := sv_last_exit_code (k_svm k)\<rparr>;
                         request = request\<lparr>run_exit_info1 := sv_last_exit_info1 (k_svm k)\<rparr>;
                         request = request\<lparr>run_exit_info2 := sv_last_exit_info2 (k_svm k)\<rparr>
                     in Some (0, request, k))))"

fun free_pages :: "u64 list \<Rightarrow> kernel \<Rightarrow> kernel option" where
  "free_pages [] k = Some k"
| "free_pages (p # ps) k = (case kernova_free_page p k of None \<Rightarrow> None | Some k \<Rightarrow> free_pages ps k)"

definition kernova_amd_svm_destroy :: "nat \<Rightarrow> kernel \<Rightarrow> kernel option" where
  "kernova_amd_svm_destroy cpu k =
     (let k = (if sv_hsave_saved (k_svm k)
               then wrmsrl cpu MSR_VM_HSAVE_PA (sv_original_vm_hsave_pa (k_svm k)) k else k);
          k = (if sv_efer_saved (k_svm k) then wrmsrl cpu MSR_EFER (sv_original_efer (k_svm k)) k else k)
      in case free_pages [sv_guest_page (k_svm k), sv_vmcb (k_svm k), sv_host_save_area (k_svm k)] k of
           None \<Rightarrow> None
         | Some k \<Rightarrow> Some (k\<lparr>k_svm := zero_svm\<rparr>))"

definition kernova_intel_vmx_fill_caps :: "kernova_caps \<Rightarrow> kernova_caps" where
  "kernova_intel_vmx_fill_caps c =
     (if caps_vmx_supported c = 0 then c
      else c\<lparr>caps_backend_flags := caps_backend_flags c OR KERNOVA_BACKEND_INTEL_VMX\<rparr>)"

section \<open>The pages the driver holds\<close>

definition held :: "kernel \<Rightarrow> u64 list \<Rightarrow> bool" where
  "held k ps \<longleftrightarrow> dom (k_pages k) = set ps \<and> distinct ps \<and> 0 \<notin> set ps \<and> (\<forall>b\<in>ran (k_pages k). length b = PAGE)"

lemma wrmsrl_simps [simp]:
  "k_svm (wrmsrl c r v k) = k_svm k" "k_pages (wrmsrl c r v k) = k_pages k" "k_caps (wrmsrl c r v k) = k_caps k"
  "k_vmruns (wrmsrl c r v k) = k_vmruns k" "k_requests (wrmsrl c r v k) = k_requests k"
  by (simp_all add: wrmsrl_def)

lemma rdmsrl_simps [simp]:
  "rdmsrl c r (wrmsrl c' r' v k) = (if c = c' \<and> r = r' then v else rdmsrl c r k)"
  "rdmsrl c r (k\<lparr>k_svm := x\<rparr>) = rdmsrl c r k" "rdmsrl c r (k\<lparr>k_pages := y\<rparr>) = rdmsrl c r k"
  "rdmsrl c r (k\<lparr>k_requests := n\<rparr>) = rdmsrl c r k" "rdmsrl c r (k\<lparr>k_caps := z\<rparr>) = rdmsrl c r k"
  "rdmsrl c r (k\<lparr>k_vmruns := w\<rparr>) = rdmsrl c r k"
  by (simp_all add: rdmsrl_def wrmsrl_def)

lemma errno_nonzero [simp]: "ENOMEM \<noteq> 0" "EINVAL \<noteq> 0" "EPERM \<noteq> 0" "ENODEV \<noteq> 0" "EFAULT \<noteq> 0" "ENOTTY \<noteq> 0" "EOPNOTSUPP \<noteq> 0"
  by (simp_all add: errno_defs)

lemma held_cong: "k_pages k' = k_pages k \<Longrightarrow> held k' ps = held k ps"
  by (simp add: held_def)

lemma held_simps [simp]:
  "held (k\<lparr>k_svm := v\<rparr>) ps = held k ps" "held (k\<lparr>k_caps := c\<rparr>) ps = held k ps"
  "held (k\<lparr>k_requests := n\<rparr>) ps = held k ps" "held (wrmsrl cpu r x k) ps = held k ps"
  by (simp_all add: held_def)

lemma held_page: "held k ps \<Longrightarrow> p \<in> set ps \<Longrightarrow> \<exists>b. k_pages k p = Some b \<and> length b = PAGE"
  by (auto simp: held_def ran_def dom_def)

text \<open>An allocation fails and changes nothing but the request counter, or adds a page.\<close>

lemma alloc_cases:
  assumes "kenv_ok E" "held k ps"
  obtains "kernova_alloc_page E k = (- ENOMEM, 0, 0, k\<lparr>k_requests := k_requests k + 1\<rparr>)"
  | p k' where "p \<noteq> 0" "kernova_alloc_page E k = (0, p, env_virt_to_phys E p, k')" "held k' (p # ps)"
    "k_svm k' = k_svm k" "k_msr k' = k_msr k" "k_caps k' = k_caps k" "k_vmruns k' = k_vmruns k"
proof (cases "env_alloc E (k_requests k) (k_pages k) = 0")
  case True
  then show ?thesis using that(1) by (simp add: kernova_alloc_page_def Let_def)
next
  case False
  let ?p = "env_alloc E (k_requests k) (k_pages k)"
  have n: "k_pages k ?p = None" using assms(1) False by (simp add: kenv_ok_def)
  then have "?p \<notin> set ps" using assms(2) by (auto simp: held_def)
  then have "held (k\<lparr>k_requests := k_requests k + 1, k_pages := (k_pages k)(?p \<mapsto> replicate PAGE 0)\<rparr>) (?p # ps)"
    using assms(2) False n by (auto simp: held_def)
  then show ?thesis using that(2) False by (simp add: kernova_alloc_page_def Let_def)
qed

lemma free_held:
  assumes "held k (p # ps)"
  obtains k' where "kernova_free_page p k = Some k'" "held k' ps" "k_svm k' = k_svm k" "k_msr k' = k_msr k"
    "k_caps k' = k_caps k" "k_vmruns k' = k_vmruns k"
proof -
  have "p \<noteq> 0" "k_pages k p \<noteq> None" using assms by (auto simp: held_def)
  moreover have "held (k\<lparr>k_pages := (k_pages k)(p := None)\<rparr>) ps"
    using assms by (auto simp: held_def ran_def)
  ultimately show ?thesis using that [of "k\<lparr>k_pages := (k_pages k)(p := None)\<rparr>"] by (simp add: kernova_free_page_def)
qed

lemma store_held:
  assumes "held k ps" "p \<in> set ps" "length b = PAGE"
  obtains k' where "store_page p b k = Some k'" "held k' ps" "k_svm k' = k_svm k" "k_msr k' = k_msr k"
    "k_caps k' = k_caps k" "k_vmruns k' = k_vmruns k" "k_pages k' = (k_pages k)(p \<mapsto> b)"
proof -
  have "k_pages k p \<noteq> None" using held_page [OF assms(1,2)] by auto
  moreover have "held (k\<lparr>k_pages := (k_pages k)(p \<mapsto> b)\<rparr>) ps"
    using assms by (auto simp: held_def ran_def)
  ultimately show ?thesis using that [of "k\<lparr>k_pages := (k_pages k)(p \<mapsto> b)\<rparr>"] by (simp add: store_page_def)
qed

lemma vmrun_held:
  assumes "kenv_ok E" "held k ps" "vmrun E cpu pa k = Some k'"
  shows "held k' ps" "k_svm k' = k_svm k" "k_msr k' = k_msr k" "k_caps k' = k_caps k"
    "k_vmruns k' = (cpu, pa) # k_vmruns k" "k_pages k' = env_vmrun E cpu pa (k_pages k)"
proof -
  have k': "k' = k\<lparr>k_pages := env_vmrun E cpu pa (k_pages k), k_vmruns := (cpu, pa) # k_vmruns k\<rparr>"
    using assms(3) by (simp add: vmrun_def split: if_splits)
  have d: "dom (env_vmrun E cpu pa (k_pages k)) = dom (k_pages k)"
    and l: "(\<forall>b\<in>ran (k_pages k). length b = PAGE) \<longrightarrow> (\<forall>b\<in>ran (env_vmrun E cpu pa (k_pages k)). length b = PAGE)"
    using assms(1) unfolding kenv_ok_def by blast+
  show "held k' ps" using assms(2) l unfolding held_def by (simp add: k' d)
qed (use assms(3) in \<open>auto simp: vmrun_def split: if_splits\<close>)

lemma free_pages_all:
  "held k ps \<Longrightarrow> \<exists>k'. free_pages ps k = Some k' \<and> held k' [] \<and> k_svm k' = k_svm k \<and> k_msr k' = k_msr k
     \<and> k_caps k' = k_caps k \<and> k_vmruns k' = k_vmruns k"
proof (induction ps arbitrary: k)
  case (Cons p ps)
  obtain k1 where 1: "kernova_free_page p k = Some k1" "held k1 ps" "k_svm k1 = k_svm k" "k_msr k1 = k_msr k"
    "k_caps k1 = k_caps k" "k_vmruns k1 = k_vmruns k"
    using free_held [OF Cons.prems] by metis
  show ?case using Cons.IH [OF 1(2)] 1 by auto
qed simp

lemma free_null: "free_pages (0 # ps) k = free_pages ps k"
  by (simp add: kernova_free_page_def)

section \<open>The three phases of the context\<close>

definition phase_uninit :: "kernel \<Rightarrow> bool" where
  "phase_uninit k \<longleftrightarrow> (let v = k_svm k in \<not> sv_initialized v \<and> \<not> sv_vm_created v \<and> \<not> sv_efer_saved v
     \<and> \<not> sv_hsave_saved v \<and> sv_vmcb v = 0 \<and> sv_guest_page v = 0 \<and> sv_host_save_area v = 0) \<and> held k []"

definition phase_init :: "kenv \<Rightarrow> kernel \<Rightarrow> bool" where
  "phase_init E k \<longleftrightarrow> (let v = k_svm k in sv_initialized v \<and> \<not> sv_vm_created v \<and> sv_efer_saved v
     \<and> sv_hsave_saved v \<and> sv_vmcb v = 0 \<and> sv_guest_page v = 0
     \<and> sv_host_save_pa v = env_virt_to_phys E (sv_host_save_area v) \<and> held k [sv_host_save_area v])"

definition phase_created :: "kenv \<Rightarrow> kernel \<Rightarrow> bool" where
  "phase_created E k \<longleftrightarrow> (let v = k_svm k in sv_initialized v \<and> sv_vm_created v \<and> sv_efer_saved v
     \<and> sv_hsave_saved v \<and> sv_vmcb_pa v = env_virt_to_phys E (sv_vmcb v)
     \<and> sv_guest_pa v = env_virt_to_phys E (sv_guest_page v)
     \<and> sv_host_save_pa v = env_virt_to_phys E (sv_host_save_area v)
     \<and> held k [sv_guest_page v, sv_vmcb v, sv_host_save_area v])"

definition svm_inv :: "kenv \<Rightarrow> kernel \<Rightarrow> bool" where
  "svm_inv E k \<longleftrightarrow> phase_uninit k \<or> phase_init E k \<or> phase_created E k"

lemmas phase_defs = phase_uninit_def phase_init_def phase_created_def

lemma initialized_phase:
  "svm_inv E k \<Longrightarrow> sv_initialized (k_svm k) \<longleftrightarrow> phase_init E k \<or> phase_created E k"
  "svm_inv E k \<Longrightarrow> \<not> sv_initialized (k_svm k) \<longleftrightarrow> phase_uninit k"
  "svm_inv E k \<Longrightarrow> sv_vm_created (k_svm k) \<longleftrightarrow> phase_created E k"
  by (auto simp: svm_inv_def phase_defs Let_def)

lemma phase_caps [simp]:
  "phase_uninit (k\<lparr>k_caps := c\<rparr>) = phase_uninit k" "phase_init E (k\<lparr>k_caps := c\<rparr>) = phase_init E k"
  "phase_created E (k\<lparr>k_caps := c\<rparr>) = phase_created E k"
  "phase_uninit (k\<lparr>k_requests := n\<rparr>) = phase_uninit k" "phase_init E (k\<lparr>k_requests := n\<rparr>) = phase_init E k"
  "phase_created E (k\<lparr>k_requests := n\<rparr>) = phase_created E k"
  by (simp_all add: phase_defs)

text \<open>\<open>init\<close> on an unused context: no memory, or initialised with the registers taken over.\<close>

lemma init_uninit:
  assumes "kenv_ok E" "phase_uninit k" "caps_svm_supported (k_caps k) \<noteq> 0" "rdmsrl cpu MSR_VM_CR k AND VM_CR_SVMDIS = 0"
  obtains "kernova_amd_svm_init E cpu k = (- ENOMEM, k\<lparr>k_requests := k_requests k + 1\<rparr>)"
  | k' where "kernova_amd_svm_init E cpu k = (0, k')" "phase_init E k'"
    "sv_original_efer (k_svm k') = k_msr k cpu MSR_EFER" "sv_original_vm_hsave_pa (k_svm k') = k_msr k cpu MSR_VM_HSAVE_PA"
    "k_msr k' = (k_msr k)(cpu := (k_msr k cpu)(MSR_EFER := k_msr k cpu MSR_EFER OR EFER_SVME,
       MSR_VM_HSAVE_PA := sv_host_save_pa (k_svm k')))"
    "k_vmruns k' = k_vmruns k" "k_caps k' = k_caps k" "sv_last_exit_code (k_svm k') = sv_last_exit_code (k_svm k)"
proof -
  have n: "\<not> sv_initialized (k_svm k)" and h: "held k []" using assms(2) by (simp_all add: phase_uninit_def Let_def)
  show ?thesis
  proof (cases rule: alloc_cases [OF assms(1) h])
    case 1
    then show ?thesis using that(1) n assms(3,4) by (simp add: kernova_amd_svm_init_def Let_def)
  next
    case (2 p k1)
    then show ?thesis
      using that(2) n assms(2-4)
      by (simp add: kernova_amd_svm_init_def Let_def phase_defs wrmsrl_def rdmsrl_def held_def)
  qed
qed


lemma init_step:
  assumes "kenv_ok E" "svm_inv E k" "kernova_amd_svm_init E cpu k = (r, k')"
  shows "svm_inv E k'"
proof (cases "caps_svm_supported (k_caps k) = 0 \<or> rdmsrl cpu MSR_VM_CR k AND VM_CR_SVMDIS \<noteq> 0 \<or> sv_initialized (k_svm k)")
  case True
  then show ?thesis using assms(2,3) by (auto simp: kernova_amd_svm_init_def split: if_splits)
next
  case False
  then have g: "caps_svm_supported (k_caps k) \<noteq> 0" "rdmsrl cpu MSR_VM_CR k AND VM_CR_SVMDIS = 0" "phase_uninit k"
    using initialized_phase(2) [OF assms(2)] by auto
  show ?thesis
    by (rule init_uninit [OF assms(1) g(3,1,2)]) (use g(3) assms(3) in \<open>auto simp: svm_inv_def\<close>)
qed

text \<open>A page written piece by piece.\<close>

definition put :: "u8 list \<Rightarrow> nat \<times> u8 list \<Rightarrow> u8 list" where
  "put p w = page_write (fst w) (snd w) p"

definition vmcb_stores :: "u64 \<Rightarrow> (nat \<times> u8 list) list" where
  "vmcb_stores guest_pa =
     (let segment = (\<lambda>attrib :: u16. le_bytes 2 (0::u16) @ le_bytes 2 attrib @ le_bytes 4 (0xffff::u32) @ le_bytes 8 (0::u64));
          quad = (\<lambda>v :: u64. le_bytes 8 v)
      in [(0x00c, quad (push_bit 24 1)), (0x058, le_bytes 4 (1::u32)), (0x05c, [1]),
          (0x400, segment 0x93), (0x410, segment 0x9b), (0x420, segment 0x93), (0x430, segment 0x93),
          (0x440, segment 0x93), (0x450, segment 0x93), (0x460, segment 0x82), (0x470, segment 0x82),
          (0x480, segment 0x82), (0x490, segment 0x8b), (0x4d0, quad 0), (0x558, quad 0x10), (0x550, quad 0),
          (0x548, quad 0), (0x568, quad 0xffff0ff0), (0x560, quad 0x400), (0x570, quad 2), (0x578, quad guest_pa),
          (0x5d8, quad (guest_pa + 4096 - 16)), (0x5f8, quad 0), (0x0c8, quad (guest_pa + 3))])"

lemma prepare_vmcb_stores: "kernova_prepare_vmcb pa = foldl put (replicate PAGE 0) (vmcb_stores pa)"
  by (simp only: kernova_prepare_vmcb_def vmcb_stores_def Let_def foldl.simps put_def fst_conv snd_conv
      vmcb_write_u8_def vmcb_write_u32_def vmcb_write_u64_def vmcb_write_segment_def vmcb_offsets)

lemma length_puts:
  "list_all (\<lambda>w. fst w + length (snd w) \<le> length p) ws \<Longrightarrow> length (foldl put p ws) = length p"
  by (induction ws arbitrary: p) (simp_all add: put_def)

text \<open>What is at an offset after the stores, the last one first; \<open>None\<close> if one of them overlaps
  it only partly.\<close>

fun stored_at :: "nat \<Rightarrow> nat \<Rightarrow> (nat \<times> u8 list) list \<Rightarrow> u8 list option" where
  "stored_at off n [] = Some (replicate n 0)"
| "stored_at off n (w # ws) =
     (if fst w = off \<and> length (snd w) = n then Some (snd w)
      else if off + n \<le> fst w \<or> fst w + length (snd w) \<le> off then stored_at off n ws
      else None)"

lemma read_puts:
  assumes "list_all (\<lambda>w. fst w + length (snd w) \<le> N) ws" "stored_at off n (rev ws) = Some r" "off + n \<le> N"
  shows "page_read off n (foldl put (replicate N 0) ws) = r"
  using assms
proof (induction ws arbitrary: r rule: rev_induct)
  case Nil
  then show ?case by (simp add: page_read_replicate)
next
  case (snoc w ws)
  let ?p = "foldl put (replicate N 0) ws"
  have l: "length ?p = N" using snoc.prems(1) by (simp add: length_puts)
  have w: "fst w + length (snd w) \<le> N" using snoc.prems(1) by simp
  show ?case
  proof (cases "fst w = off \<and> length (snd w) = n")
    case True
    then show ?thesis using snoc.prems(2) w l by (auto simp: put_def [of _ w] page_read_write_same)
  next
    case False
    then have d: "off + n \<le> fst w \<or> fst w + length (snd w) \<le> off" and s: "stored_at off n (rev ws) = Some r"
      using snoc.prems(2) by (auto split: if_splits)
    have "page_read off n ?p = r" using snoc.IH [OF _ s snoc.prems(3)] snoc.prems(1) by simp
    then show ?thesis using d w l by (auto simp: put_def [of _ w] page_read_write_before page_read_write_after)
  qed
qed

lemma vmcb_stores_bounded: "list_all (\<lambda>w. fst w + length (snd w) \<le> PAGE) (vmcb_stores pa)"
  by (simp add: vmcb_stores_def PAGE_def Let_def)

lemma length_prepared:
  "length kernova_prepare_guest_page = PAGE" "length (kernova_prepare_vmcb pa) = PAGE"
  using vmcb_stores_bounded [of pa]
  by (simp_all add: kernova_prepare_guest_page_def prepare_vmcb_stores length_puts)

lemma read_prepared:
  assumes "stored_at off n (rev (vmcb_stores pa)) = Some r" "off + n \<le> PAGE"
  shows "page_read off n (kernova_prepare_vmcb pa) = r"
  unfolding prepare_vmcb_stores by (rule read_puts [OF vmcb_stores_bounded assms])

lemma prepared_fields:
  "vmcb_read_u64 VMCB_SAVE_RIP (kernova_prepare_vmcb pa) = pa"
  "vmcb_read_u64 VMCB_SAVE_RSP (kernova_prepare_vmcb pa) = pa + 4096 - 16"
  "vmcb_read_u64 VMCB_CONTROL_N_RIP (kernova_prepare_vmcb pa) = pa + 3"
  "vmcb_read_u64 VMCB_CONTROL_INTERCEPT (kernova_prepare_vmcb pa) = 0x1000000"
  "vmcb_read_u64 VMCB_SAVE_EFER (kernova_prepare_vmcb pa) = 0"
  "vmcb_read_u64 VMCB_CONTROL_EXIT_CODE (kernova_prepare_vmcb pa) = 0"
  "page_read VMCB_CONTROL_ASID 4 (kernova_prepare_vmcb pa) = le_bytes 4 (1 :: u32)"
proof -
  have r: "vmcb_read_u64 off (kernova_prepare_vmcb pa) = v"
    if "stored_at off 8 (rev (vmcb_stores pa)) = Some (le_bytes 8 v)" "off + 8 \<le> PAGE" for off v
    using read_prepared [OF that] by (simp add: vmcb_read_u64_def enc_simps)
  note s = vmcb_stores_def vmcb_offsets PAGE_def Let_def
  show "vmcb_read_u64 VMCB_SAVE_RIP (kernova_prepare_vmcb pa) = pa" by (rule r) (simp_all add: s)
  show "vmcb_read_u64 VMCB_SAVE_RSP (kernova_prepare_vmcb pa) = pa + 4096 - 16" by (rule r) (simp_all add: s)
  show "vmcb_read_u64 VMCB_CONTROL_N_RIP (kernova_prepare_vmcb pa) = pa + 3" by (rule r) (simp_all add: s)
  show "vmcb_read_u64 VMCB_CONTROL_INTERCEPT (kernova_prepare_vmcb pa) = 0x1000000" by (rule r) (simp_all add: s)
  show "vmcb_read_u64 VMCB_SAVE_EFER (kernova_prepare_vmcb pa) = 0" by (rule r) (simp_all add: s)
  have "le_bytes 8 (0::u64) = replicate 8 0" by (simp add: le_bytes_def map_replicate_const)
  then show "vmcb_read_u64 VMCB_CONTROL_EXIT_CODE (kernova_prepare_vmcb pa) = 0" by (intro r) (simp_all add: s)
  show "page_read VMCB_CONTROL_ASID 4 (kernova_prepare_vmcb pa) = le_bytes 4 (1 :: u32)"
    by (rule read_prepared) (simp_all add: s)
qed

text \<open>A page whose contents are exactly these fields, given with their offsets, and zero elsewhere.\<close>

definition page_is :: "u8 list \<Rightarrow> (nat \<times> u8 list) list \<Rightarrow> bool" where
  "page_is p fs \<longleftrightarrow> length p = 4096 \<and> (\<forall>(off, bs)\<in>set fs. page_read off (length bs) p = bs)
     \<and> (\<forall>i<4096. (\<forall>(off, bs)\<in>set fs. i < off \<or> off + length bs \<le> i) \<longrightarrow> p ! i = 0)"

lemma puts_outside:
  assumes "list_all (\<lambda>w. fst w + length (snd w) \<le> N) ws" "i < N" "\<forall>w\<in>set ws. i < fst w \<or> fst w + length (snd w) \<le> i"
  shows "foldl put (replicate N 0) ws ! i = 0"
  using assms
proof (induction ws rule: rev_induct)
  case (snoc w ws)
  let ?p = "foldl put (replicate N 0) ws"
  have l: "length ?p = N" using snoc.prems(1) by (simp add: length_puts)
  have "put ?p w ! i = ?p ! i"
    using snoc.prems l by (auto simp: put_def page_write_def nth_append min_def)
  then show ?case using snoc by simp
qed simp

text \<open>A segment in the save area: selector 0, attributes, limit 0xFFFF, base 0.\<close>

definition segment_image :: "u8 \<Rightarrow> u8 list" where
  "segment_image attrib = [0, 0, attrib, 0, 0xFF, 0xFF, 0, 0, 0, 0, 0, 0, 0, 0, 0, 0]"

definition vmcb_image :: "u64 \<Rightarrow> (nat \<times> u8 list) list" where
  "vmcb_image guest_pa =
     [(0x00C, [0, 0, 0, 1, 0, 0, 0, 0]), (0x058, [1, 0, 0, 0]), (0x05C, [1]),
      (0x400, segment_image 0x93), (0x410, segment_image 0x9B), (0x420, segment_image 0x93), (0x430, segment_image 0x93),
      (0x440, segment_image 0x93), (0x450, segment_image 0x93), (0x460, segment_image 0x82), (0x470, segment_image 0x82),
      (0x480, segment_image 0x82), (0x490, segment_image 0x8B),
      (0x4D0, replicate 8 0), (0x558, [0x10, 0, 0, 0, 0, 0, 0, 0]), (0x550, replicate 8 0), (0x548, replicate 8 0),
      (0x568, [0xF0, 0x0F, 0xFF, 0xFF, 0, 0, 0, 0]), (0x560, [0, 4, 0, 0, 0, 0, 0, 0]),
      (0x570, [2, 0, 0, 0, 0, 0, 0, 0]), (0x578, le_bytes 8 guest_pa), (0x5D8, le_bytes 8 (guest_pa + 4080)),
      (0x5F8, replicate 8 0), (0x0C8, le_bytes 8 (guest_pa + 3))]"

lemma le_consts:
  "le_bytes 8 (push_bit 24 1 :: u64) = [0, 0, 0, 1, 0, 0, 0, 0]" "le_bytes 4 (1 :: u32) = [1, 0, 0, 0]"
  "le_bytes 2 (0 :: u16) @ le_bytes 2 (0x93 :: u16) @ le_bytes 4 (0xffff :: u32) @ replicate 8 0 = segment_image 0x93"
  "le_bytes 2 (0 :: u16) @ le_bytes 2 (0x9b :: u16) @ le_bytes 4 (0xffff :: u32) @ replicate 8 0 = segment_image 0x9b"
  "le_bytes 2 (0 :: u16) @ le_bytes 2 (0x82 :: u16) @ le_bytes 4 (0xffff :: u32) @ replicate 8 0 = segment_image 0x82"
  "le_bytes 2 (0 :: u16) @ le_bytes 2 (0x8b :: u16) @ le_bytes 4 (0xffff :: u32) @ replicate 8 0 = segment_image 0x8b"
  "le_bytes 8 (0 :: u64) = replicate 8 0" "le_bytes 8 (0x10 :: u64) = [0x10, 0, 0, 0, 0, 0, 0, 0]"
  "le_bytes 8 (0x400 :: u64) = [0, 4, 0, 0, 0, 0, 0, 0]" "le_bytes 8 (0xffff0ff0 :: u64) = [0xF0, 0x0F, 0xFF, 0xFF, 0, 0, 0, 0]"
  "le_bytes 8 (2 :: u64) = [2, 0, 0, 0, 0, 0, 0, 0]"
  by code_simp+

lemma stores_are_image: "vmcb_stores pa = vmcb_image pa"
proof -
  have "pa + 4096 - 16 = pa + 4080" by simp
  then show ?thesis
    unfolding vmcb_stores_def vmcb_image_def Let_def le_consts by (simp only:)
qed

text \<open>The fields do not overlap, so each of them is what is read at its place.\<close>

lemma image_reads:
  "\<forall>(off, bs)\<in>set (vmcb_image pa). stored_at off (length bs) (rev (vmcb_stores pa)) = Some bs \<and> off + length bs \<le> PAGE"
  unfolding stores_are_image by (simp add: vmcb_image_def segment_image_def PAGE_def)

lemma page_is_field: "page_is p fs \<Longrightarrow> (off, bs) \<in> set fs \<Longrightarrow> page_read off (length bs) p = bs"
  by (auto simp: page_is_def)

lemma prepared_page_is: "page_is (kernova_prepare_vmcb pa) (vmcb_image pa)"
  unfolding page_is_def
proof (intro conjI allI impI)
  show "length (kernova_prepare_vmcb pa) = 4096" using length_prepared(2) by (simp add: PAGE_def)
  show "\<forall>(off, bs)\<in>set (vmcb_image pa). page_read off (length bs) (kernova_prepare_vmcb pa) = bs"
    using image_reads [of pa] read_prepared by fast
  fix i :: nat
  assume "i < 4096" "\<forall>(off, bs)\<in>set (vmcb_image pa). i < off \<or> off + length bs \<le> i"
  then have "i < PAGE" "\<forall>w\<in>set (vmcb_stores pa). i < fst w \<or> fst w + length (snd w) \<le> i"
    by (auto simp: PAGE_def stores_are_image)
  then show "kernova_prepare_vmcb pa ! i = 0"
    unfolding prepare_vmcb_stores using puts_outside [OF vmcb_stores_bounded] by blast
qed

text \<open>The end of \<open>create_vm\<close>, when both pages are there.\<close>

lemma create_fill:
  assumes "held k ps" "p \<in> set ps" "q \<in> set ps" "p \<noteq> q"
  obtains k' where
    "(case store_page p kernova_prepare_guest_page k of None \<Rightarrow> None
      | Some k \<Rightarrow> (case store_page q (kernova_prepare_vmcb pa) k of None \<Rightarrow> None
                  | Some k \<Rightarrow> Some (0, f k))) = Some (0 :: int, f k')"
    "held k' ps" "k_svm k' = k_svm k" "k_msr k' = k_msr k" "k_caps k' = k_caps k" "k_vmruns k' = k_vmruns k"
    "k_pages k' q = Some (kernova_prepare_vmcb pa)" "k_pages k' p = Some kernova_prepare_guest_page"
proof -
  obtain k1 where 1: "store_page p kernova_prepare_guest_page k = Some k1" "held k1 ps" "k_svm k1 = k_svm k"
    "k_msr k1 = k_msr k" "k_caps k1 = k_caps k" "k_vmruns k1 = k_vmruns k"
    "k_pages k1 = (k_pages k)(p \<mapsto> kernova_prepare_guest_page)"
    using store_held [OF assms(1,2) length_prepared(1)] by metis
  obtain k2 where 2: "store_page q (kernova_prepare_vmcb pa) k1 = Some k2" "held k2 ps" "k_svm k2 = k_svm k1"
    "k_msr k2 = k_msr k1" "k_caps k2 = k_caps k1" "k_vmruns k2 = k_vmruns k1"
    "k_pages k2 = (k_pages k1)(q \<mapsto> kernova_prepare_vmcb pa)"
    using store_held [OF 1(2) assms(3) length_prepared(2)] by metis
  show ?thesis by (rule that [of k2]) (use 1 2 assms(4) in simp_all)
qed

definition created_with :: "kernel \<Rightarrow> bool" where
  "created_with k \<longleftrightarrow> k_pages k (sv_vmcb (k_svm k)) = Some (kernova_prepare_vmcb (sv_guest_pa (k_svm k)))
     \<and> k_pages k (sv_guest_page (k_svm k)) = Some kernova_prepare_guest_page"

definition same_machine :: "kernel \<Rightarrow> kernel \<Rightarrow> bool" where
  "same_machine k k' \<longleftrightarrow> k_msr k' = k_msr k \<and> k_vmruns k' = k_vmruns k \<and> k_caps k' = k_caps k
     \<and> sv_original_efer (k_svm k') = sv_original_efer (k_svm k)
     \<and> sv_original_vm_hsave_pa (k_svm k') = sv_original_vm_hsave_pa (k_svm k)
     \<and> sv_host_save_pa (k_svm k') = sv_host_save_pa (k_svm k)
     \<and> sv_last_exit_code (k_svm k') = sv_last_exit_code (k_svm k)"

lemma guest_size_ok: "(guest_size :: u32) \<le> 4096 \<Longrightarrow> \<not> 4096 < guest_size"
  by (simp add: not_less)

lemma create_tail:
  assumes "sv_initialized (k_svm k)" "guest_size \<le> 4096" "alloc_vmcb E k = (0, k1)" "alloc_guest E k1 = (0, k2)"
    and "held k2 ps" "sv_guest_page (k_svm k2) \<in> set ps" "sv_vmcb (k_svm k2) \<in> set ps"
    and "sv_guest_page (k_svm k2) \<noteq> sv_vmcb (k_svm k2)"
  obtains k' where "kernova_amd_svm_create_vm E guest_size k = Some (0, k')" "held k' ps" "created_with k'"
    "k_svm k' = (k_svm k2)\<lparr>sv_vm_created := True\<rparr>" "k_msr k' = k_msr k2" "k_caps k' = k_caps k2"
    "k_vmruns k' = k_vmruns k2"
proof -
  let ?f = "\<lambda>k. k\<lparr>k_svm := (k_svm k)\<lparr>sv_vm_created := True\<rparr>\<rparr>" and ?v = "k_svm k2"
  obtain k3 where g: "store_page (sv_guest_page ?v) kernova_prepare_guest_page k2 = Some k3" "held k3 ps" "k_svm k3 = ?v"
    "k_msr k3 = k_msr k2" "k_caps k3 = k_caps k2" "k_vmruns k3 = k_vmruns k2"
    "k_pages k3 = (k_pages k2)(sv_guest_page ?v \<mapsto> kernova_prepare_guest_page)"
    using store_held [OF assms(5,6) length_prepared(1)] by metis
  obtain k4 where v: "store_page (sv_vmcb ?v) (kernova_prepare_vmcb (sv_guest_pa ?v)) k3 = Some k4" "held k4 ps"
    "k_svm k4 = k_svm k3" "k_msr k4 = k_msr k3" "k_caps k4 = k_caps k3" "k_vmruns k4 = k_vmruns k3"
    "k_pages k4 = (k_pages k3)(sv_vmcb ?v \<mapsto> kernova_prepare_vmcb (sv_guest_pa ?v))"
    using store_held [OF g(2) assms(7) length_prepared(2)] by metis
  have "kernova_amd_svm_create_vm E guest_size k = Some (0, ?f k4)"
    unfolding kernova_amd_svm_create_vm_def
    using assms(1-4) guest_size_ok [OF assms(2)] g(1,3) v(1) by simp
  then show ?thesis
    by (rule that) (use g v assms(8) in \<open>simp_all add: created_with_def\<close>)
qed

lemma create_created:
  assumes "phase_created E k" "guest_size \<le> 4096"
  obtains k' where "kernova_amd_svm_create_vm E guest_size k = Some (0, k')" "phase_created E k'" "created_with k'"
    "same_machine k k'"
proof -
  let ?v = "k_svm k"
  have h: "held k [sv_guest_page ?v, sv_vmcb ?v, sv_host_save_area ?v]" and i: "sv_initialized ?v"
    using assms(1) by (simp_all add: phase_created_def Let_def)
  have ne: "sv_guest_page ?v \<noteq> 0" "sv_vmcb ?v \<noteq> 0" "sv_guest_page ?v \<noteq> sv_vmcb ?v"
    using h by (auto simp: held_def)
  have a: "alloc_vmcb E k = (0, k)" "alloc_guest E k = (0, k)" using ne by (simp_all add: alloc_vmcb_def alloc_guest_def)
  show ?thesis
    by (rule create_tail [OF i assms(2) a h])
      (use ne assms(1) that in \<open>simp_all add: phase_created_def Let_def same_machine_def\<close>)
qed

text \<open>\<open>create_vm\<close> on an initialised context: no memory and nothing kept, or a prepared VM.\<close>

lemma create_init:
  assumes "kenv_ok E" "phase_init E k" "guest_size \<le> 4096"
  obtains k' where "kernova_amd_svm_create_vm E guest_size k = Some (- ENOMEM, k')" "phase_init E k'" "same_machine k k'"
  | k' where "kernova_amd_svm_create_vm E guest_size k = Some (0, k')" "phase_created E k'" "created_with k'"
    "same_machine k k'"
proof -
  let ?v = "k_svm k"
  have h: "held k [sv_host_save_area ?v]" and i: "sv_initialized ?v" and z: "sv_vmcb ?v = 0" "sv_guest_page ?v = 0"
    using assms(2) by (simp_all add: phase_init_def Let_def)
  show ?thesis
  proof (cases rule: alloc_cases [OF assms(1) h])
    case 1
    then have "kernova_amd_svm_create_vm E guest_size k = Some (- ENOMEM, k\<lparr>k_requests := k_requests k + 1\<rparr>)"
      using i z guest_size_ok [OF assms(3)] by (simp add: kernova_amd_svm_create_vm_def alloc_vmcb_def)
    then show ?thesis by (rule that(1)) (use assms(2) in \<open>simp_all add: same_machine_def\<close>)
  next
    case (2 p k1)
    let ?k1 = "k1\<lparr>k_svm := (k_svm k1)\<lparr>sv_vmcb := p, sv_vmcb_pa := env_virt_to_phys E p\<rparr>\<rparr>"
    have a: "alloc_vmcb E k = (0, ?k1)" using 2 z by (simp add: alloc_vmcb_def)
    have h1: "held ?k1 [p, sv_host_save_area ?v]" using 2(3) by simp
    have g0: "sv_guest_page (k_svm ?k1) = 0" using 2(4) z by simp
    show ?thesis
    proof (cases rule: alloc_cases [OF assms(1) h1])
      case 1
      then have b: "alloc_guest E ?k1 = (- ENOMEM, ?k1\<lparr>k_requests := k_requests ?k1 + 1\<rparr>)"
        using g0 by (simp add: alloc_guest_def)
      let ?kk = "?k1\<lparr>k_requests := k_requests ?k1 + 1\<rparr>"
      have hk: "held ?kk (p # [sv_host_save_area ?v])" using 2(3) by simp
      obtain k2 where k2: "kernova_free_page p ?kk = Some k2"
        "held k2 [sv_host_save_area ?v]" "k_svm k2 = k_svm ?kk" "k_msr k2 = k_msr ?kk" "k_caps k2 = k_caps ?kk"
        "k_vmruns k2 = k_vmruns ?kk"
        by (rule free_held [OF hk])
      have "kernova_amd_svm_create_vm E guest_size k = Some (- ENOMEM, k2\<lparr>k_svm := (k_svm k2)\<lparr>sv_vmcb := 0\<rparr>\<rparr>)"
        using i guest_size_ok [OF assms(3)] a b k2(1) by (simp add: kernova_amd_svm_create_vm_def)
      then show ?thesis
        by (rule that(1)) (use assms(2) k2 2 in \<open>simp_all add: same_machine_def phase_init_def Let_def\<close>)
    next
      case (2 q k2)
      let ?k2 = "k2\<lparr>k_svm := (k_svm k2)\<lparr>sv_guest_page := q, sv_guest_pa := env_virt_to_phys E q\<rparr>\<rparr>"
      have b: "alloc_guest E ?k1 = (0, ?k2)" using 2 g0 by (simp add: alloc_guest_def)
      have h2: "held ?k2 [q, p, sv_host_save_area ?v]" using 2(3) by simp
      then have ne: "q \<noteq> p" by (auto simp: held_def)
      show ?thesis
        by (rule create_tail [OF i assms(3) a b h2])
          (use ne assms(2) that(2) 2 \<open>k_svm k1 = k_svm k\<close> \<open>k_msr k1 = k_msr k\<close> \<open>k_caps k1 = k_caps k\<close>
            \<open>k_vmruns k1 = k_vmruns k\<close> in \<open>simp_all add: phase_created_def phase_init_def Let_def same_machine_def\<close>)
    qed
  qed
qed

lemma create_refused:
  assumes "\<not> sv_initialized (k_svm k) \<or> guest_size \<noteq> 0 \<and> 4096 < guest_size"
  shows "kernova_amd_svm_create_vm E guest_size k = Some (- EINVAL, k)"
  using assms by (auto simp: kernova_amd_svm_create_vm_def)

lemma create_step:
  assumes "kenv_ok E" "svm_inv E k"
  obtains r k' where "kernova_amd_svm_create_vm E guest_size k = Some (r, k')" "svm_inv E k'" "same_machine k k'"
proof (cases "\<not> sv_initialized (k_svm k) \<or> guest_size \<noteq> 0 \<and> 4096 < guest_size")
  case True
  then show ?thesis using that assms(2) create_refused [OF True] by (simp add: same_machine_def)
next
  case False
  then have i: "sv_initialized (k_svm k)" and g: "guest_size \<le> 4096" by (auto simp: not_less)
  then consider "phase_init E k" | "phase_created E k" using initialized_phase(1) [OF assms(2)] by auto
  then show ?thesis
  proof cases
    case 1
    show ?thesis
      by (rule create_init [OF assms(1) 1 g]) (use that in \<open>auto simp: svm_inv_def\<close>)
  next
    case 2
    show ?thesis by (rule create_created [OF 2 g]) (use that in \<open>auto simp: svm_inv_def\<close>)
  qed
qed

lemma svm_inv_held:
  assumes "svm_inv E k"
  shows "held k (filter (\<lambda>p. p \<noteq> 0) [sv_guest_page (k_svm k), sv_vmcb (k_svm k), sv_host_save_area (k_svm k)])"
  using assms unfolding svm_inv_def
proof (elim disjE)
  assume "phase_created E k"
  then have h: "held k [sv_guest_page (k_svm k), sv_vmcb (k_svm k), sv_host_save_area (k_svm k)]"
    by (simp add: phase_created_def Let_def)
  then have "sv_guest_page (k_svm k) \<noteq> 0" "sv_vmcb (k_svm k) \<noteq> 0" "sv_host_save_area (k_svm k) \<noteq> 0"
    by (auto simp: held_def)
  then show ?thesis using h by simp
next
  assume "phase_init E k"
  then have h: "held k [sv_host_save_area (k_svm k)]" and z: "sv_guest_page (k_svm k) = 0" "sv_vmcb (k_svm k) = 0"
    by (simp_all add: phase_init_def Let_def)
  then have "sv_host_save_area (k_svm k) \<noteq> 0" by (auto simp: held_def)
  then show ?thesis using h z by simp
qed (simp add: phase_uninit_def Let_def)

lemma free_pages_filter: "free_pages (filter (\<lambda>p. p \<noteq> 0) ps) k = free_pages ps k"
  by (induction ps arbitrary: k) (simp_all add: kernova_free_page_def split: option.split)

lemma svm_inv_saved:
  "svm_inv E k \<Longrightarrow> sv_efer_saved (k_svm k) = sv_initialized (k_svm k) \<and> sv_hsave_saved (k_svm k) = sv_initialized (k_svm k)"
  by (auto simp: svm_inv_def phase_defs Let_def)

text \<open>\<open>destroy\<close> frees every page and writes the saved registers back, on the CPU it runs on.\<close>

lemma destroy_step:
  assumes "svm_inv E k"
  obtains k' where "kernova_amd_svm_destroy cpu k = Some k'" "phase_uninit k'" "k_svm k' = zero_svm"
    "k_caps k' = k_caps k" "k_vmruns k' = k_vmruns k"
    "k_msr k' = (if sv_initialized (k_svm k)
       then (k_msr k)(cpu := (k_msr k cpu)(MSR_VM_HSAVE_PA := sv_original_vm_hsave_pa (k_svm k),
              MSR_EFER := sv_original_efer (k_svm k)))
       else k_msr k)"
proof -
  let ?v = "k_svm k"
  let ?k1 = "if sv_hsave_saved ?v then wrmsrl cpu MSR_VM_HSAVE_PA (sv_original_vm_hsave_pa ?v) k else k"
  let ?k2 = "if sv_efer_saved ?v then wrmsrl cpu MSR_EFER (sv_original_efer ?v) ?k1 else ?k1"
  have v: "k_svm ?k2 = ?v" "k_svm ?k1 = ?v" "k_caps ?k2 = k_caps k" "k_vmruns ?k2 = k_vmruns k"
    "k_pages ?k2 = k_pages k" by simp_all
  have hk: "held ?k2 (filter (\<lambda>p. p \<noteq> 0) [sv_guest_page ?v, sv_vmcb ?v, sv_host_save_area ?v])"
    unfolding held_cong [OF v(5)] by (rule svm_inv_held [OF assms])
  obtain k' where k2: "free_pages [sv_guest_page ?v, sv_vmcb ?v, sv_host_save_area ?v] ?k2 = Some k'"
    "held k' []" "k_svm k' = k_svm ?k2" "k_msr k' = k_msr ?k2" "k_caps k' = k_caps ?k2" "k_vmruns k' = k_vmruns ?k2"
    using free_pages_all [OF hk, unfolded free_pages_filter] by blast
  note k' = k2 [unfolded v]
  have d: "kernova_amd_svm_destroy cpu k = Some (k'\<lparr>k_svm := zero_svm\<rparr>)"
    unfolding kernova_amd_svm_destroy_def Let_def v k'(1) by simp
  have m: "k_msr k' = (if sv_initialized ?v
       then (k_msr k)(cpu := (k_msr k cpu)(MSR_VM_HSAVE_PA := sv_original_vm_hsave_pa ?v, MSR_EFER := sv_original_efer ?v))
       else k_msr k)"
    using k'(4) svm_inv_saved [OF assms] by (simp add: wrmsrl_def)
  show ?thesis
    by (rule that [OF d]) (use k' m in \<open>simp_all add: phase_uninit_def Let_def zero_svm_def\<close>)
qed

definition svme_on :: "nat \<Rightarrow> kernel \<Rightarrow> bool" where
  "svme_on cpu k \<longleftrightarrow> k_msr k cpu MSR_EFER AND EFER_SVME \<noteq> 0"

text \<open>\<open>run\<close>: refused without effect, or one VMRUN on the VMCB of the context.\<close>

lemma run_refused:
  "\<not> sv_initialized (k_svm k) \<or> \<not> sv_vm_created (k_svm k) \<Longrightarrow>
    kernova_amd_svm_run E cpu allow req k = Some (- EINVAL, req\<lparr>run_status := of_int (- EINVAL),
      run_runtime_state := 6, run_exit_code := 0, run_exit_info1 := 0, run_exit_info2 := 0\<rparr>, k)"
  by (auto simp: kernova_amd_svm_run_def)

lemma run_blocked:
  "sv_initialized (k_svm k) \<Longrightarrow> sv_vm_created (k_svm k) \<Longrightarrow> \<not> allow \<or> run_flags req AND KERNOVA_RUN_ALLOW_PRIVILEGED = 0 \<Longrightarrow>
    kernova_amd_svm_run E cpu allow req k = Some (- EPERM, req\<lparr>run_status := of_int (- EPERM),
      run_runtime_state := 4, run_exit_code := 0, run_exit_info1 := 0, run_exit_info2 := 0\<rparr>, k)"
  by (auto simp: kernova_amd_svm_run_def)

lemma run_runs:
  assumes "kenv_ok E" "phase_created E k" "allow" "run_flags req AND KERNOVA_RUN_ALLOW_PRIVILEGED \<noteq> 0" "svme_on cpu k"
  obtains k' p where "env_vmrun E cpu (env_virt_to_phys E (sv_vmcb (k_svm k))) (k_pages k) (sv_vmcb (k_svm k)) = Some p"
    "kernova_amd_svm_run E cpu allow req k = Some (0, req\<lparr>run_status := 0, run_runtime_state := 5,
      run_exit_code := vmcb_read_u64 VMCB_CONTROL_EXIT_CODE p, run_exit_info1 := vmcb_read_u64 VMCB_CONTROL_EXIT_INFO1 p,
      run_exit_info2 := vmcb_read_u64 VMCB_CONTROL_EXIT_INFO2 p\<rparr>, k')"
    "phase_created E k'" "k_msr k' = k_msr k" "k_caps k' = k_caps k"
    "k_vmruns k' = (cpu, env_virt_to_phys E (sv_vmcb (k_svm k))) # k_vmruns k"
    "sv_last_exit_code (k_svm k') = vmcb_read_u64 VMCB_CONTROL_EXIT_CODE p"
    "sv_original_efer (k_svm k') = sv_original_efer (k_svm k)"
    "sv_original_vm_hsave_pa (k_svm k') = sv_original_vm_hsave_pa (k_svm k)"
    "sv_host_save_pa (k_svm k') = sv_host_save_pa (k_svm k)"
proof -
  let ?v = "k_svm k" and ?ps = "[sv_guest_page (k_svm k), sv_vmcb (k_svm k), sv_host_save_area (k_svm k)]"
  let ?pa = "env_virt_to_phys E (sv_vmcb (k_svm k))"
  have h: "held k ?ps" and c: "sv_initialized ?v" "sv_vm_created ?v" "sv_vmcb_pa ?v = ?pa"
    using assms(2) by (simp_all add: phase_created_def Let_def)
  define k1 where "k1 = k\<lparr>k_pages := env_vmrun E cpu ?pa (k_pages k), k_vmruns := (cpu, ?pa) # k_vmruns k\<rparr>"
  have r: "vmrun E cpu ?pa k = Some k1"
    using assms(5) by (simp add: vmrun_def svme_on_def rdmsrl_def k1_def)
  note v = vmrun_held [OF assms(1) h r]
  obtain p where p: "k_pages k1 (sv_vmcb ?v) = Some p" using held_page [OF v(1), of "sv_vmcb ?v"] by auto
  let ?k = "k1\<lparr>k_svm := ?v\<lparr>sv_last_exit_code := vmcb_read_u64 VMCB_CONTROL_EXIT_CODE p,
      sv_last_exit_info1 := vmcb_read_u64 VMCB_CONTROL_EXIT_INFO1 p,
      sv_last_exit_info2 := vmcb_read_u64 VMCB_CONTROL_EXIT_INFO2 p\<rparr>\<rparr>"
  have "kernova_amd_svm_run E cpu allow req k = Some (0, req\<lparr>run_status := 0, run_runtime_state := 5,
      run_exit_code := vmcb_read_u64 VMCB_CONTROL_EXIT_CODE p, run_exit_info1 := vmcb_read_u64 VMCB_CONTROL_EXIT_INFO1 p,
      run_exit_info2 := vmcb_read_u64 VMCB_CONTROL_EXIT_INFO2 p\<rparr>, ?k)"
    using c assms(3,4) r p v(2) by (simp add: kernova_amd_svm_run_def Let_def)
  moreover have "phase_created E ?k" using assms(2) v(1,2) by (simp add: phase_created_def Let_def)
  ultimately show ?thesis using that [of p ?k] p v by simp
qed

end
