(* ===== verification/Kernel_Driver.thy ===== *)
theory Kernel_Driver
  imports Kernel_Svm Cpu_Features
begin

text \<open>
  The character device of the Linux driver, \<^verbatim>\<open>service-kernel/linux/kernova_main.c\<close>: CPU
  detection, the capability refresh at the start of every request, the request dispatcher,
  and loading and unloading. The mutex makes a request one atomic step, so the states of
  the driver are what \<open>driver_reach\<close> reaches by whole requests; \<open>cpus\<close> are the CPUs the
  scheduler runs them on. The caller's memory is \<open>user\<close>, with the ranges
  \<^verbatim>\<open>copy_from_user\<close> and \<^verbatim>\<open>copy_to_user\<close> can access.

  Shown: on one CPU no request crashes, the context is always in one of three phases, the
  pages held are those of the phase, and destroying gives registers and pages back; VMRUN
  happens only when all gates are open. On several CPUs the first of these fails.
\<close>

section \<open>Capabilities\<close>

definition zero_caps :: kernova_caps where
  "zero_caps = \<lparr>caps_abi_version = 0, caps_backend_flags = 0, caps_runtime_state = 0, caps_reserved0 = 0,
     caps_driver_name = replicate 32 0, caps_cpu_vendor = replicate 13 0, caps_reserved1 = replicate 3 0,
     caps_svm_revision = 0, caps_svm_asid_count = 0, caps_driver_loaded = 0, caps_svm_supported = 0,
     caps_vmx_supported = 0, caps_svm_initialized = 0, caps_vm_created = 0, caps_vmrun_enabled = 0,
     caps_last_vmexit_valid = 0, caps_reserved2 = 0, caps_last_exit_code = 0, caps_last_exit_info1 = 0,
     caps_last_exit_info2 = 0\<rparr>"

text \<open>\<open>strscpy\<close> of a string that fits: its characters and the terminating NUL.\<close>

definition strscpy :: "string \<Rightarrow> u8 list \<Rightarrow> u8 list" where
  "strscpy s d = page_write 0 (ascii s @ [0]) d"

text \<open>\<open>kernova_detect_cpu\<close> in its stages: the cleared structure with the constants, the vendor,
  the feature flags, the SVM leaf, the fallback flag.\<close>

definition detect_base :: kernova_caps where
  "detect_base =
     (let c = zero_caps;
          c = c\<lparr>caps_abi_version := KERNOVA_ABI_VERSION\<rparr>;
          c = c\<lparr>caps_driver_loaded := 1\<rparr>;
          c = c\<lparr>caps_runtime_state := state_code KERNOVA_STATE_CAPS_READY\<rparr>
      in c\<lparr>caps_driver_name := strscpy ''kernova-linux'' (caps_driver_name c)\<rparr>)"

definition detect_vendor_caps :: "kenv \<Rightarrow> kernova_caps \<Rightarrow> kernova_caps" where
  "detect_vendor_caps E c =
     (let r = env_cpuid E 0 0;
          c = c\<lparr>caps_cpu_vendor := page_write 0 (le_bytes 4 (ebx r)) (caps_cpu_vendor c)\<rparr>;
          c = c\<lparr>caps_cpu_vendor := page_write 4 (le_bytes 4 (edx r)) (caps_cpu_vendor c)\<rparr>;
          c = c\<lparr>caps_cpu_vendor := page_write 8 (le_bytes 4 (ecx r)) (caps_cpu_vendor c)\<rparr>
      in c\<lparr>caps_cpu_vendor := (caps_cpu_vendor c)[12 := 0]\<rparr>)"

definition detect_flags :: "kenv \<Rightarrow> kernova_caps \<Rightarrow> kernova_caps" where
  "detect_flags E c =
     (let c = (if env_has_svm E
               then c\<lparr>caps_backend_flags := caps_backend_flags c OR KERNOVA_BACKEND_AMD_SVM, caps_svm_supported := 1\<rparr>
               else c)
      in if env_has_vmx E
         then c\<lparr>caps_backend_flags := caps_backend_flags c OR KERNOVA_BACKEND_INTEL_VMX, caps_vmx_supported := 1\<rparr>
         else c)"

definition detect_svm_leaf :: "kenv \<Rightarrow> kernova_caps \<Rightarrow> kernova_caps" where
  "detect_svm_leaf E c =
     (let r = env_cpuid E 0x80000000 0
      in if 0x8000000A \<le> eax r \<and> caps_svm_supported c \<noteq> 0
         then let r = env_cpuid E 0x8000000A 0
              in c\<lparr>caps_svm_revision := eax r AND 0xff, caps_svm_asid_count := ebx r\<rparr>
         else c)"

definition detect_fallback :: "kernova_caps \<Rightarrow> kernova_caps" where
  "detect_fallback c =
     (if caps_backend_flags c = 0 then c\<lparr>caps_backend_flags := KERNOVA_BACKEND_USERSPACE_FALLBACK\<rparr> else c)"

definition kernova_detect_cpu :: "kenv \<Rightarrow> kernova_caps" where
  "kernova_detect_cpu E = detect_fallback (detect_svm_leaf E (detect_flags E (detect_vendor_caps E detect_base)))"

definition kernova_refresh_caps_locked :: "kenv \<Rightarrow> bool \<Rightarrow> kernel \<Rightarrow> kernel" where
  "kernova_refresh_caps_locked E allow k =
     (let current = kernova_detect_cpu E;
          k = k\<lparr>k_caps := current\<rparr>;
          k = kernova_amd_svm_fill_caps allow k
      in k\<lparr>k_caps := kernova_intel_vmx_fill_caps (k_caps k)\<rparr>)"

section \<open>Requests\<close>

record user =
  u_mem :: memory
  u_readable :: "u64 \<Rightarrow> nat \<Rightarrow> bool"
  u_writable :: "u64 \<Rightarrow> nat \<Rightarrow> bool"

definition copy_from_user :: "user \<Rightarrow> u64 \<Rightarrow> nat \<Rightarrow> u8 list option" where
  "copy_from_user U arg n = (if u_readable U arg n then Some (read_bytes (u_mem U) arg n) else None)"

definition copy_to_user :: "user \<Rightarrow> u64 \<Rightarrow> u8 list \<Rightarrow> user option" where
  "copy_to_user U arg bs =
     (if u_writable U arg (length bs) then Some (U\<lparr>u_mem := write_bytes arg bs (u_mem U)\<rparr>) else None)"

definition ioctl_query :: "u64 \<Rightarrow> user \<Rightarrow> kernel \<Rightarrow> int \<times> user \<times> kernel" where
  "ioctl_query arg U k =
     (case copy_to_user U arg (encode_caps (k_caps k)) of
        None \<Rightarrow> (- EFAULT, U, k)
      | Some U \<Rightarrow> (0, U, k))"

definition ioctl_init :: "kenv \<Rightarrow> nat \<Rightarrow> bool \<Rightarrow> u64 \<Rightarrow> user \<Rightarrow> kernel \<Rightarrow> int \<times> user \<times> kernel" where
  "ioctl_init E cpu allow arg U k =
     (case copy_from_user U arg sizeof_init of
        None \<Rightarrow> (- EFAULT, U, k)
      | Some bs \<Rightarrow>
          let request = decode_init bs;
              (rc, k) = (if init_backend_flags request AND KERNOVA_BACKEND_AMD_SVM \<noteq> 0
                          then kernova_amd_svm_init E cpu k else (- ENODEV, k))
          in (rc, U, kernova_refresh_caps_locked E allow k))"

definition ioctl_create :: "kenv \<Rightarrow> bool \<Rightarrow> u64 \<Rightarrow> user \<Rightarrow> kernel \<Rightarrow> (int \<times> user \<times> kernel) option" where
  "ioctl_create E allow arg U k =
     (case copy_from_user U arg sizeof_create of
        None \<Rightarrow> Some (- EFAULT, U, k)
      | Some bs \<Rightarrow>
          let request = decode_create bs in
          (case (if create_backend_flags request AND KERNOVA_BACKEND_AMD_SVM \<noteq> 0
                 then kernova_amd_svm_create_vm E (create_guest_size request) k else Some (- ENODEV, k)) of
             None \<Rightarrow> None
           | Some (rc, k) \<Rightarrow> Some (rc, U, kernova_refresh_caps_locked E allow k)))"

definition ioctl_run :: "kenv \<Rightarrow> nat \<Rightarrow> bool \<Rightarrow> u64 \<Rightarrow> user \<Rightarrow> kernel \<Rightarrow> (int \<times> user \<times> kernel) option" where
  "ioctl_run E cpu allow arg U k =
     (case copy_from_user U arg sizeof_run of
        None \<Rightarrow> Some (- EFAULT, U, k)
      | Some bs \<Rightarrow>
          (case kernova_amd_svm_run E cpu allow (decode_run bs) k of
             None \<Rightarrow> None
           | Some (rc, request, k) \<Rightarrow>
               (case copy_to_user U arg (encode_run request) of
                  None \<Rightarrow> Some (- EFAULT, U, kernova_refresh_caps_locked E allow k)
                | Some U \<Rightarrow> Some (rc, U, kernova_refresh_caps_locked E allow k))))"

definition ioctl_destroy :: "kenv \<Rightarrow> nat \<Rightarrow> bool \<Rightarrow> user \<Rightarrow> kernel \<Rightarrow> (int \<times> user \<times> kernel) option" where
  "ioctl_destroy E cpu allow U k =
     (case kernova_amd_svm_destroy cpu k of
        None \<Rightarrow> None
      | Some k \<Rightarrow> Some (0, U, kernova_refresh_caps_locked E allow k))"

text \<open>\<open>kernova_ioctl\<close> on CPU \<open>cpu\<close>; \<open>None\<close>: the kernel crashed.\<close>

definition kernova_ioctl :: "kenv \<Rightarrow> nat \<Rightarrow> bool \<Rightarrow> u32 \<Rightarrow> u64 \<Rightarrow> user \<Rightarrow> kernel \<Rightarrow> (int \<times> user \<times> kernel) option" where
  "kernova_ioctl E cpu allow cmd arg U k =
     (if IOC_TYPE cmd \<noteq> KERNOVA_IOCTL_MAGIC then Some (- ENOTTY, U, k)
      else
        let k = kernova_refresh_caps_locked E allow k in
        if cmd = KERNOVA_IOCTL_QUERY_CAPS then Some (ioctl_query arg U k)
        else if cmd = KERNOVA_IOCTL_INIT_BACKEND then Some (ioctl_init E cpu allow arg U k)
        else if cmd = KERNOVA_IOCTL_CREATE_VM then ioctl_create E allow arg U k
        else if cmd = KERNOVA_IOCTL_RUN_VM then ioctl_run E cpu allow arg U k
        else if cmd = KERNOVA_IOCTL_DESTROY_VM then ioctl_destroy E cpu allow U k
        else Some (- ENOTTY, U, k))"

text \<open>Loading with the result of \<^verbatim>\<open>misc_register\<close>, and unloading.\<close>

definition kernova_module_init :: "kenv \<Rightarrow> bool \<Rightarrow> int \<Rightarrow> kernel \<Rightarrow> int \<times> kernel" where
  "kernova_module_init E allow registered k =
     (let k = kernova_refresh_caps_locked E allow k
      in if registered \<noteq> 0 then (registered, k) else (0, k))"

definition kernova_module_exit :: "nat \<Rightarrow> kernel \<Rightarrow> kernel option" where
  "kernova_module_exit cpu k = kernova_amd_svm_destroy cpu k"

text \<open>The static \<open>kernova_state\<close> before loading, on a machine with registers \<open>m\<close>.\<close>

definition unloaded :: "(nat \<Rightarrow> u32 \<Rightarrow> u64) \<Rightarrow> kernel" where
  "unloaded m = \<lparr>k_caps = zero_caps, k_svm = zero_svm, k_msr = m, k_pages = Map.empty, k_requests = 0, k_vmruns = []\<rparr>"

section \<open>The reachable states\<close>

inductive driver_reach :: "kenv \<Rightarrow> nat set \<Rightarrow> (nat \<Rightarrow> u32 \<Rightarrow> u64) \<Rightarrow> kernel \<Rightarrow> bool" for E cpus m where
  load: "kernova_module_init E allow 0 (unloaded m) = (0, k) \<Longrightarrow> driver_reach E cpus m k"
| request: "driver_reach E cpus m k \<Longrightarrow> cpu \<in> cpus \<Longrightarrow>
    kernova_ioctl E cpu allow cmd arg U k = Some (r, U', k') \<Longrightarrow> driver_reach E cpus m k'"

lemma refresh_simps [simp]:
  "k_svm (kernova_refresh_caps_locked E allow k) = k_svm k" "k_msr (kernova_refresh_caps_locked E allow k) = k_msr k"
  "k_pages (kernova_refresh_caps_locked E allow k) = k_pages k"
  "k_vmruns (kernova_refresh_caps_locked E allow k) = k_vmruns k"
  "k_requests (kernova_refresh_caps_locked E allow k) = k_requests k"
  by (simp_all add: kernova_refresh_caps_locked_def kernova_amd_svm_fill_caps_def Let_def)

lemma refresh_phases [simp]:
  "phase_uninit (kernova_refresh_caps_locked E allow k) = phase_uninit k"
  "phase_init F (kernova_refresh_caps_locked E allow k) = phase_init F k"
  "phase_created F (kernova_refresh_caps_locked E allow k) = phase_created F k"
  "svm_inv F (kernova_refresh_caps_locked E allow k) = svm_inv F k"
  by (simp_all add: phase_defs held_def svm_inv_def)

text \<open>Registers on the one CPU the driver runs on, against those before loading.\<close>

definition msr_inv :: "nat \<Rightarrow> (nat \<Rightarrow> u32 \<Rightarrow> u64) \<Rightarrow> kernel \<Rightarrow> bool" where
  "msr_inv c m k \<longleftrightarrow>
     (if sv_initialized (k_svm k)
      then k_msr k = m(c := (m c)(MSR_EFER := m c MSR_EFER OR EFER_SVME, MSR_VM_HSAVE_PA := sv_host_save_pa (k_svm k)))
        \<and> sv_original_efer (k_svm k) = m c MSR_EFER \<and> sv_original_vm_hsave_pa (k_svm k) = m c MSR_VM_HSAVE_PA
      else k_msr k = m)"

lemma msr_inv_refresh [simp]: "msr_inv c m (kernova_refresh_caps_locked E allow k) = msr_inv c m k"
  by (simp add: msr_inv_def)

lemma msr_inv_requests [simp]: "msr_inv c m (k\<lparr>k_requests := n\<rparr>) = msr_inv c m k"
  by (simp add: msr_inv_def)

lemma svme_or: "(x OR EFER_SVME) AND EFER_SVME \<noteq> 0"
proof -
  have "bit ((x OR EFER_SVME) AND EFER_SVME) 12" by (simp add: EFER_SVME_def bit_simps)
  then show ?thesis by auto
qed

lemma msr_inv_svme: "msr_inv c m k \<Longrightarrow> sv_initialized (k_svm k) \<Longrightarrow> svme_on c k"
  by (simp add: msr_inv_def svme_on_def svme_or MSR_EFER_def MSR_VM_HSAVE_PA_def EFER_SVME_def)

lemma same_machine_msr:
  assumes "same_machine k k'" "sv_initialized (k_svm k') = sv_initialized (k_svm k)"
  shows "msr_inv c m k' = msr_inv c m k"
  using assms by (simp add: same_machine_def msr_inv_def)

lemma phase_initialized:
  "phase_uninit k \<Longrightarrow> \<not> sv_initialized (k_svm k)" "phase_init E k \<Longrightarrow> sv_initialized (k_svm k)"
  "phase_created E k \<Longrightarrow> sv_initialized (k_svm k)" "phase_created E k \<Longrightarrow> sv_vm_created (k_svm k)"
  "phase_init E k \<Longrightarrow> \<not> sv_vm_created (k_svm k)" "phase_uninit k \<Longrightarrow> \<not> sv_vm_created (k_svm k)"
  by (simp_all add: phase_defs Let_def)

lemma init_msr:
  assumes "kenv_ok E" "svm_inv E k" "msr_inv c m k" "kernova_amd_svm_init E c k = (r, k')"
  shows "msr_inv c m k'" "k_vmruns k' = k_vmruns k"
proof -
  have "msr_inv c m k' \<and> k_vmruns k' = k_vmruns k"
  proof (cases "caps_svm_supported (k_caps k) = 0 \<or> rdmsrl c MSR_VM_CR k AND VM_CR_SVMDIS \<noteq> 0 \<or> sv_initialized (k_svm k)")
    case True
    then show ?thesis using assms(3,4) by (auto simp: kernova_amd_svm_init_def split: if_splits)
  next
    case False
    then have g: "caps_svm_supported (k_caps k) \<noteq> 0" "rdmsrl c MSR_VM_CR k AND VM_CR_SVMDIS = 0" "phase_uninit k"
      using initialized_phase(2) [OF assms(2)] by auto
    have m: "k_msr k = m" using assms(3) phase_initialized(1) [OF g(3)] by (simp add: msr_inv_def)
    show ?thesis
    proof (rule init_uninit [OF assms(1) g(3,1,2)])
      assume "kernova_amd_svm_init E c k = (- ENOMEM, k\<lparr>k_requests := k_requests k + 1\<rparr>)"
      then show ?thesis using assms(3,4) by auto
    next
      fix k2 assume k2: "kernova_amd_svm_init E c k = (0, k2)" "phase_init E k2"
        "sv_original_efer (k_svm k2) = k_msr k c MSR_EFER" "sv_original_vm_hsave_pa (k_svm k2) = k_msr k c MSR_VM_HSAVE_PA"
        "k_msr k2 = (k_msr k)(c := (k_msr k c)(MSR_EFER := k_msr k c MSR_EFER OR EFER_SVME,
           MSR_VM_HSAVE_PA := sv_host_save_pa (k_svm k2)))" "k_vmruns k2 = k_vmruns k"
      then have "k' = k2" using assms(4) by simp
      then show ?thesis using k2 m phase_initialized(2) [OF k2(2)] by (simp add: msr_inv_def)
    qed
  qed
  then show "msr_inv c m k'" "k_vmruns k' = k_vmruns k" by simp_all
qed

lemma create_msr:
  assumes "kenv_ok E" "svm_inv E k" "msr_inv c m k"
  obtains r k' where "kernova_amd_svm_create_vm E guest_size k = Some (r, k')" "svm_inv E k'" "msr_inv c m k'"
    "same_machine k k'" "sv_initialized (k_svm k') = sv_initialized (k_svm k)"
proof -
  consider "\<not> sv_initialized (k_svm k) \<or> guest_size \<noteq> 0 \<and> 4096 < guest_size"
    | "phase_init E k" "guest_size \<le> 4096" | "phase_created E k" "guest_size \<le> 4096"
  proof (cases "4096 < guest_size")
    case True
    then have "guest_size \<noteq> 0" by auto
    then show ?thesis using that(1) True by blast
  next
    case False
    then have "guest_size \<le> 4096" by simp
    then show ?thesis using that initialized_phase(1) [OF assms(2)] by blast
  qed
  then show ?thesis
  proof cases
    case 1
    show ?thesis by (rule that [OF create_refused [OF 1]]) (use assms in \<open>simp_all add: same_machine_def\<close>)
  next
    case 2
    show ?thesis
    proof (rule create_init [OF assms(1) 2])
      fix k' assume k': "kernova_amd_svm_create_vm E guest_size k = Some (- ENOMEM, k')" "phase_init E k'" "same_machine k k'"
      have i: "sv_initialized (k_svm k') = sv_initialized (k_svm k)" using 2 k'(2) phase_initialized by metis
      show ?thesis
        by (rule that [OF k'(1)]) (use k' i assms(3) same_machine_msr [OF k'(3) i] in \<open>simp_all add: svm_inv_def\<close>)
    next
      fix k' assume k': "kernova_amd_svm_create_vm E guest_size k = Some (0, k')" "phase_created E k'" "created_with k'" "same_machine k k'"
      have i: "sv_initialized (k_svm k') = sv_initialized (k_svm k)" using 2 k'(2) phase_initialized by metis
      show ?thesis
        by (rule that [OF k'(1)]) (use k' i assms(3) same_machine_msr [OF k'(4) i] in \<open>simp_all add: svm_inv_def\<close>)
    qed
  next
    case 3
    show ?thesis
    proof (rule create_created [OF 3])
      fix k' assume k': "kernova_amd_svm_create_vm E guest_size k = Some (0, k')" "phase_created E k'" "created_with k'" "same_machine k k'"
      have i: "sv_initialized (k_svm k') = sv_initialized (k_svm k)" using 3 k'(2) phase_initialized by metis
      show ?thesis
        by (rule that [OF k'(1)]) (use k' i assms(3) same_machine_msr [OF k'(4) i] in \<open>simp_all add: svm_inv_def\<close>)
    qed
  qed
qed

lemma destroy_msr:
  assumes "svm_inv E k" "msr_inv c m k"
  obtains k' where "kernova_amd_svm_destroy c k = Some k'" "phase_uninit k'" "k_msr k' = m" "k_vmruns k' = k_vmruns k"
    "k_svm k' = zero_svm" "k_caps k' = k_caps k"
proof (rule destroy_step [OF assms(1), of c])
  fix k' assume k': "kernova_amd_svm_destroy c k = Some k'" "phase_uninit k'" "k_svm k' = zero_svm"
    "k_caps k' = k_caps k" "k_vmruns k' = k_vmruns k"
    "k_msr k' = (if sv_initialized (k_svm k)
       then (k_msr k)(c := (k_msr k c)(MSR_VM_HSAVE_PA := sv_original_vm_hsave_pa (k_svm k),
              MSR_EFER := sv_original_efer (k_svm k)))
       else k_msr k)"
  have "k_msr k' = m"
  proof (cases "sv_initialized (k_svm k)")
    case True
    then show ?thesis using k'(6) assms(2)
      by (simp add: msr_inv_def MSR_VM_HSAVE_PA_def MSR_EFER_def)
  next
    case False
    then show ?thesis using k'(6) assms(2) by (simp add: msr_inv_def)
  qed
  then show ?thesis using that k' by metis
qed

text \<open>The gates in front of VMRUN.\<close>

definition run_allowed :: "bool \<Rightarrow> u32 \<Rightarrow> kernel \<Rightarrow> bool" where
  "run_allowed allow flags k \<longleftrightarrow> sv_initialized (k_svm k) \<and> sv_vm_created (k_svm k) \<and> allow
     \<and> flags AND KERNOVA_RUN_ALLOW_PRIVILEGED \<noteq> 0"

lemma run_step:
  assumes "kenv_ok E" "svm_inv E k" "msr_inv c m k"
  obtains r req' k' where "kernova_amd_svm_run E c allow req k = Some (r, req', k')" "svm_inv E k'" "msr_inv c m k'"
    "k_vmruns k' = (if run_allowed allow (run_flags req) k
       then (c, env_virt_to_phys E (sv_vmcb (k_svm k))) # k_vmruns k else k_vmruns k)"
    "sv_vm_created (k_svm k') = sv_vm_created (k_svm k)" "sv_initialized (k_svm k') = sv_initialized (k_svm k)"
proof -
  consider "\<not> sv_initialized (k_svm k) \<or> \<not> sv_vm_created (k_svm k)"
    | "sv_initialized (k_svm k)" "sv_vm_created (k_svm k)" "\<not> allow \<or> run_flags req AND KERNOVA_RUN_ALLOW_PRIVILEGED = 0"
    | "sv_initialized (k_svm k)" "sv_vm_created (k_svm k)" "allow" "run_flags req AND KERNOVA_RUN_ALLOW_PRIVILEGED \<noteq> 0"
    by blast
  then show ?thesis
  proof cases
    case 1
    show ?thesis
      by (rule that [OF run_refused [OF 1] assms(2,3)]) (use 1 in \<open>auto simp: run_allowed_def\<close>)
  next
    case 2
    show ?thesis
      by (rule that [OF run_blocked [OF 2] assms(2,3)]) (use 2 in \<open>auto simp: run_allowed_def\<close>)
  next
    case 3
    have ph: "phase_created E k" using 3(2) initialized_phase(3) [OF assms(2)] by simp
    have sv: "svme_on c k" using msr_inv_svme [OF assms(3) 3(1)] .
    show ?thesis
    proof (rule run_runs [OF assms(1) ph 3(3,4) sv])
      fix k' p
      assume k': "kernova_amd_svm_run E c allow req k = Some (0, req\<lparr>run_status := 0, run_runtime_state := 5,
          run_exit_code := vmcb_read_u64 VMCB_CONTROL_EXIT_CODE p, run_exit_info1 := vmcb_read_u64 VMCB_CONTROL_EXIT_INFO1 p,
          run_exit_info2 := vmcb_read_u64 VMCB_CONTROL_EXIT_INFO2 p\<rparr>, k')"
        "phase_created E k'" "k_msr k' = k_msr k" "k_vmruns k' = (c, env_virt_to_phys E (sv_vmcb (k_svm k))) # k_vmruns k"
        "sv_original_efer (k_svm k') = sv_original_efer (k_svm k)"
        "sv_original_vm_hsave_pa (k_svm k') = sv_original_vm_hsave_pa (k_svm k)"
        "sv_host_save_pa (k_svm k') = sv_host_save_pa (k_svm k)"
      have i: "sv_initialized (k_svm k')" "sv_vm_created (k_svm k')" using k'(2) by (simp_all add: phase_created_def Let_def)
      have "msr_inv c m k'" using assms(3) 3(1) i k' by (simp add: msr_inv_def)
      moreover have "svm_inv E k'" using k'(2) by (simp add: svm_inv_def)
      ultimately show ?thesis using that [OF k'(1)] 3 i k' by (simp add: run_allowed_def)
    qed
  qed
qed

lemma ioctl_query_same: "snd (snd (ioctl_query arg U k)) = k"
  by (simp add: ioctl_query_def split: option.split)

lemma ioctl_init_step:
  assumes "kenv_ok E" "svm_inv E k" "msr_inv c m k" "ioctl_init E c allow arg U k = (r, U', k')"
  shows "svm_inv E k' \<and> msr_inv c m k' \<and> k_vmruns k' = k_vmruns k"
proof -
  obtain r2 k2 where i: "kernova_amd_svm_init E c k = (r2, k2)" by fastforce
  note s = init_step [OF assms(1,2) i] init_msr [OF assms(1-3) i]
  show ?thesis
    using assms(2-4) s i by (auto simp: ioctl_init_def Let_def split: option.splits if_splits)
qed

lemma ioctl_create_step:
  assumes "kenv_ok E" "svm_inv E k" "msr_inv c m k"
  obtains r U' k' where "ioctl_create E allow arg U k = Some (r, U', k')" "svm_inv E k'" "msr_inv c m k'" "k_vmruns k' = k_vmruns k"
proof (cases "copy_from_user U arg sizeof_create")
  case None
  then show ?thesis using that [of "- EFAULT" U k] assms(2,3) by (simp add: ioctl_create_def)
next
  case (Some bs)
  let ?q = "decode_create bs"
  obtain r k' where c: "kernova_amd_svm_create_vm E (create_guest_size ?q) k = Some (r, k')" "svm_inv E k'" "msr_inv c m k'"
    "same_machine k k'"
    by (rule create_msr [OF assms])
  show ?thesis
  proof (cases "create_backend_flags ?q AND KERNOVA_BACKEND_AMD_SVM = 0")
    case True
    then show ?thesis
      using that [of "- ENODEV" U "kernova_refresh_caps_locked E allow k"] Some assms(2,3) by (simp add: ioctl_create_def)
  next
    case False
    then show ?thesis
      using that [of r U "kernova_refresh_caps_locked E allow k'"] Some c by (simp add: ioctl_create_def same_machine_def)
  qed
qed

lemma ioctl_run_step:
  assumes "kenv_ok E" "svm_inv E k" "msr_inv c m k"
  obtains r U' k' where "ioctl_run E c allow arg U k = Some (r, U', k')" "svm_inv E k'" "msr_inv c m k'"
    "k_vmruns k' = k_vmruns k \<or> (\<exists>bs. copy_from_user U arg sizeof_run = Some bs \<and> run_allowed allow (run_flags (decode_run bs)) k)
      \<and> k_vmruns k' = (c, env_virt_to_phys E (sv_vmcb (k_svm k))) # k_vmruns k"
proof (cases "copy_from_user U arg sizeof_run")
  case None
  then show ?thesis using that [of "- EFAULT" U k] assms(2,3) by (simp add: ioctl_run_def)
next
  case (Some bs)
  obtain r q k' where c: "kernova_amd_svm_run E c allow (decode_run bs) k = Some (r, q, k')" "svm_inv E k'" "msr_inv c m k'"
    "k_vmruns k' = (if run_allowed allow (run_flags (decode_run bs)) k
       then (c, env_virt_to_phys E (sv_vmcb (k_svm k))) # k_vmruns k else k_vmruns k)"
    by (rule run_step [OF assms])
  let ?k = "kernova_refresh_caps_locked E allow k'"
  have "\<exists>r U'. ioctl_run E c allow arg U k = Some (r, U', ?k)"
    using Some c(1) by (cases "copy_to_user U arg (encode_run q)") (simp_all add: ioctl_run_def)
  then obtain r' U' where "ioctl_run E c allow arg U k = Some (r', U', ?k)" by blast
  then show ?thesis by (rule that) (use c Some in auto)
qed

lemma ioctl_destroy_step:
  assumes "svm_inv E k" "msr_inv c m k"
  obtains k' where "ioctl_destroy F c allow U k = Some (0, U, k')" "phase_uninit k'" "k_msr k' = m" "k_vmruns k' = k_vmruns k"
    "k_svm k' = zero_svm"
proof (rule destroy_msr [OF assms])
  fix k' assume "kernova_amd_svm_destroy c k = Some k'" "phase_uninit k'" "k_msr k' = m" "k_vmruns k' = k_vmruns k"
    "k_svm k' = zero_svm"
  then show ?thesis using that [of "kernova_refresh_caps_locked F allow k'"] by (simp add: ioctl_destroy_def)
qed

lemma uninit_inv: "phase_uninit k \<Longrightarrow> k_msr k = m \<Longrightarrow> svm_inv E k \<and> msr_inv c m k"
  by (simp add: svm_inv_def msr_inv_def phase_initialized)

lemma ioctl_dispatch:
  "kernova_ioctl E c allow KERNOVA_IOCTL_QUERY_CAPS arg U k = Some (ioctl_query arg U (kernova_refresh_caps_locked E allow k))"
  "kernova_ioctl E c allow KERNOVA_IOCTL_INIT_BACKEND arg U k
     = Some (ioctl_init E c allow arg U (kernova_refresh_caps_locked E allow k))"
  "kernova_ioctl E c allow KERNOVA_IOCTL_CREATE_VM arg U k = ioctl_create E allow arg U (kernova_refresh_caps_locked E allow k)"
  "kernova_ioctl E c allow KERNOVA_IOCTL_RUN_VM arg U k = ioctl_run E c allow arg U (kernova_refresh_caps_locked E allow k)"
  "kernova_ioctl E c allow KERNOVA_IOCTL_DESTROY_VM arg U k = ioctl_destroy E c allow U (kernova_refresh_caps_locked E allow k)"
  by (simp_all add: kernova_ioctl_def ioctl_values IOC_TYPE_def)

text \<open>A request on the CPU the driver was initialised on always returns and keeps the invariants.\<close>

lemma ioctl_step:
  assumes "kenv_ok E" "svm_inv E k" "msr_inv c m k"
  obtains r U' k' where "kernova_ioctl E c allow cmd arg U k = Some (r, U', k')" "svm_inv E k'" "msr_inv c m k'"
    "k_vmruns k' = k_vmruns k \<or> cmd = KERNOVA_IOCTL_RUN_VM
      \<and> (\<exists>bs. copy_from_user U arg sizeof_run = Some bs \<and> run_allowed allow (run_flags (decode_run bs)) k)
      \<and> k_vmruns k' = (c, env_virt_to_phys E (sv_vmcb (k_svm k))) # k_vmruns k"
proof -
  let ?k = "kernova_refresh_caps_locked E allow k"
  have k: "svm_inv E ?k" "msr_inv c m ?k" using assms(2,3) by simp_all
  have ra: "run_allowed allow f ?k = run_allowed allow f k" for f by (simp add: run_allowed_def)
  note final = that
  have res: thesis if "kernova_ioctl E c allow cmd arg U k = Some (r, U', k')" "svm_inv E k'" "msr_inv c m k'"
      "k_vmruns k' = k_vmruns k" for r U' k'
    by (rule final [OF that(1-3)]) (use that(4) in simp)
  consider "IOC_TYPE cmd \<noteq> KERNOVA_IOCTL_MAGIC"
    | "IOC_TYPE cmd = KERNOVA_IOCTL_MAGIC" "cmd = KERNOVA_IOCTL_QUERY_CAPS"
    | "IOC_TYPE cmd = KERNOVA_IOCTL_MAGIC" "cmd = KERNOVA_IOCTL_INIT_BACKEND"
    | "IOC_TYPE cmd = KERNOVA_IOCTL_MAGIC" "cmd = KERNOVA_IOCTL_CREATE_VM"
    | "IOC_TYPE cmd = KERNOVA_IOCTL_MAGIC" "cmd = KERNOVA_IOCTL_RUN_VM"
    | "IOC_TYPE cmd = KERNOVA_IOCTL_MAGIC" "cmd = KERNOVA_IOCTL_DESTROY_VM"
    | "IOC_TYPE cmd = KERNOVA_IOCTL_MAGIC" "cmd \<notin> {KERNOVA_IOCTL_QUERY_CAPS, KERNOVA_IOCTL_INIT_BACKEND,
        KERNOVA_IOCTL_CREATE_VM, KERNOVA_IOCTL_RUN_VM, KERNOVA_IOCTL_DESTROY_VM}"
    by blast
  then show ?thesis
  proof cases
    case 1
    then show ?thesis using res [of "- ENOTTY" U k] assms(2,3) by (simp add: kernova_ioctl_def)
  next
    case 2
    obtain r U' k' where q: "ioctl_query arg U ?k = (r, U', k')" by (metis prod_cases3)
    then have "k' = ?k" using ioctl_query_same [of arg U ?k] by simp
    then show ?thesis using res [of r U' k'] 2 k q by (simp add: kernova_ioctl_def)
  next
    case 3
    obtain r U' k' where q: "ioctl_init E c allow arg U ?k = (r, U', k')" by (metis prod_cases3)
    then show ?thesis using res [of r U' k'] 3 ioctl_init_step [OF assms(1) k q]
      by (simp add: ioctl_dispatch)
  next
    case 4
    obtain r U' k' where q: "ioctl_create E allow arg U ?k = Some (r, U', k')" "svm_inv E k'" "msr_inv c m k'"
      "k_vmruns k' = k_vmruns ?k"
      by (rule ioctl_create_step [OF assms(1) k])
    show ?thesis by (rule res [of r U' k']) (use 4 q in \<open>simp_all add: ioctl_dispatch\<close>)
  next
    case 5
    obtain r U' k' where q: "ioctl_run E c allow arg U ?k = Some (r, U', k')" "svm_inv E k'" "msr_inv c m k'"
      "k_vmruns k' = k_vmruns ?k \<or> (\<exists>bs. copy_from_user U arg sizeof_run = Some bs
        \<and> run_allowed allow (run_flags (decode_run bs)) ?k)
        \<and> k_vmruns k' = (c, env_virt_to_phys E (sv_vmcb (k_svm ?k))) # k_vmruns ?k"
      by (rule ioctl_run_step [OF assms(1) k])
    show ?thesis by (rule final [of r U' k']) (use 5 q in \<open>simp_all add: ioctl_dispatch ra\<close>)
  next
    case 6
    obtain k' where q: "ioctl_destroy E c allow U ?k = Some (0, U, k')" "phase_uninit k'" "k_msr k' = m"
      "k_vmruns k' = k_vmruns ?k"
      by (rule ioctl_destroy_step [OF k])
    show ?thesis by (rule res [of 0 U k']) (use 6 q uninit_inv [of k' m E c] in \<open>simp_all add: ioctl_dispatch\<close>)
  next
    case 7
    then show ?thesis using res [of "- ENOTTY" U ?k] k by (simp add: kernova_ioctl_def)
  qed
qed

lemma unloaded_inv: "kernova_module_init E allow 0 (unloaded m) = (0, k) \<Longrightarrow> svm_inv E k \<and> msr_inv c m k \<and> phase_uninit k"
proof -
  assume "kernova_module_init E allow 0 (unloaded m) = (0, k)"
  then have k: "k = kernova_refresh_caps_locked E allow (unloaded m)" by (simp add: kernova_module_init_def Let_def)
  have "phase_uninit (unloaded m)" by (simp add: phase_uninit_def unloaded_def zero_svm_def held_def)
  then show ?thesis using uninit_inv [of k m E c] k by (simp add: unloaded_def)
qed

lemma driver_reach_inv: "driver_reach E {c} m k \<Longrightarrow> kenv_ok E \<Longrightarrow> svm_inv E k \<and> msr_inv c m k"
proof (induction rule: driver_reach.induct)
  case (load allow k)
  then show ?case using unloaded_inv by blast
next
  case (request k cpu allow cmd arg U r U' k')
  then have "svm_inv E k" "msr_inv c m k" "cpu = c" by simp_all
  then show ?case using request.hyps(3) ioctl_step [OF request.prems, of k c m allow cmd arg U] by auto
qed

section \<open>Other CPUs\<close>

lemma run_other_cpu:
  assumes "phase_created E k" "k_msr k b MSR_EFER AND EFER_SVME = 0" "allow" "run_flags req AND KERNOVA_RUN_ALLOW_PRIVILEGED \<noteq> 0"
  shows "kernova_amd_svm_run E b allow req k = None"
  using assms by (simp add: kernova_amd_svm_run_def phase_created_def Let_def vmrun_def rdmsrl_def)

section \<open>Requests on any CPU\<close>

lemma run_returns_inv:
  assumes "kenv_ok E" "svm_inv E k" "kernova_amd_svm_run E c allow req k = Some (r, q, k')"
  shows "svm_inv E k'"
proof (cases "\<not> sv_initialized (k_svm k) \<or> \<not> sv_vm_created (k_svm k)")
  case True
  then show ?thesis using assms(2,3) run_refused [of k E c allow req] by simp
next
  case False
  then have n: "sv_initialized (k_svm k)" "sv_vm_created (k_svm k)" by simp_all
  then have ph: "phase_created E k" using initialized_phase(3) [OF assms(2)] by blast
  show ?thesis
  proof (cases "\<not> allow \<or> run_flags req AND KERNOVA_RUN_ALLOW_PRIVILEGED = 0")
    case True
    then show ?thesis using assms(2,3) run_blocked [OF n True, of E c] by simp
  next
    case g: False
    show ?thesis
    proof (cases "svme_on c k")
      case True
      show ?thesis
        by (rule run_runs [OF assms(1) ph _ _ True, of allow req]) (use g assms(3) in \<open>auto simp: svm_inv_def\<close>)
    next
      case False
      then show ?thesis using run_other_cpu [OF ph, of c allow req] g assms(3) by (simp add: svme_on_def)
    qed
  qed
qed

text \<open>Whatever CPU a request runs on, if it returns, the context is in order afterwards.\<close>

lemma ioctl_returns_inv:
  assumes "kenv_ok E" "svm_inv E k" "kernova_ioctl E c allow cmd arg U k = Some (r, U', k')"
  shows "svm_inv E k'"
proof -
  let ?k = "kernova_refresh_caps_locked E allow k"
  have j: "svm_inv E ?k" using assms(2) by simp
  have i: "svm_inv E k1" if "kernova_amd_svm_init E c ?k = (r1, k1)" for r1 k1 by (rule init_step [OF assms(1) j that])
  have cr: "svm_inv E k1" if "kernova_amd_svm_create_vm E g ?k = Some (r1, k1)" for g r1 k1
    by (rule create_step [OF assms(1) j, of g]) (use that in simp)
  have ru: "svm_inv E k1" if "kernova_amd_svm_run E c allow q ?k = Some (r1, q1, k1)" for q r1 q1 k1
    by (rule run_returns_inv [OF assms(1) j that])
  have de: "svm_inv E k1" if "kernova_amd_svm_destroy c ?k = Some k1" for k1
    by (rule destroy_step [OF j, of c]) (use that in \<open>simp add: svm_inv_def\<close>)
  show ?thesis
    using assms(3) j i cr ru de ioctl_query_same
    by (auto simp: kernova_ioctl_def ioctl_query_def ioctl_init_def ioctl_create_def ioctl_run_def ioctl_destroy_def Let_def
        split: option.splits if_splits prod.splits)
qed

lemma driver_reach_any_inv: "driver_reach E cpus m k \<Longrightarrow> kenv_ok E \<Longrightarrow> svm_inv E k"
proof (induction rule: driver_reach.induct)
  case (load allow k)
  then show ?case using unloaded_inv by blast
next
  case (request k cpu allow cmd arg U r U' k')
  then show ?case using ioctl_returns_inv by blast
qed

text \<open>What the hardware checks before it enters a guest (AMD64 manual, VMRUN): a VMCB that does not
  intercept VMRUN, or whose EFER.SVME is clear, is illegal and gives \<open>VMEXIT_INVALID\<close> (-1).\<close>

definition svm_consistency :: "kenv \<Rightarrow> bool" where
  "svm_consistency E \<longleftrightarrow> (\<forall>c ps va p. ps va = Some p \<and> length p = PAGE
      \<and> (\<not> bit (p ! 0x10) 0 \<or> vmcb_read_u64 VMCB_SAVE_EFER p AND EFER_SVME = 0)
     \<longrightarrow> (\<exists>p'. env_vmrun E c (env_virt_to_phys E va) ps va = Some p' \<and> vmcb_read_u64 VMCB_CONTROL_EXIT_CODE p' = - 1))"

lemma run_prepared_invalid:
  assumes "kenv_ok E" "svm_consistency E" "phase_created E k" "created_with k" "svme_on c k" "allow"
    "run_flags req AND KERNOVA_RUN_ALLOW_PRIVILEGED \<noteq> 0"
  obtains q k' where "kernova_amd_svm_run E c allow req k = Some (0, q, k')" "run_exit_code q = - 1" "run_runtime_state q = 5"
    "run_status q = 0" "sv_last_exit_code (k_svm k') = - 1" "phase_created E k'"
proof -
  have "length (kernova_prepare_vmcb (sv_guest_pa (k_svm k))) = PAGE" by (rule length_prepared)
  moreover have "k_pages k (sv_vmcb (k_svm k)) = Some (kernova_prepare_vmcb (sv_guest_pa (k_svm k)))"
    using assms(4) by (simp add: created_with_def)
  moreover have "vmcb_read_u64 VMCB_SAVE_EFER (kernova_prepare_vmcb (sv_guest_pa (k_svm k))) AND EFER_SVME = 0"
    by (simp add: prepared_fields)
  ultimately obtain p' where p': "env_vmrun E c (env_virt_to_phys E (sv_vmcb (k_svm k))) (k_pages k) (sv_vmcb (k_svm k)) = Some p'"
    "vmcb_read_u64 VMCB_CONTROL_EXIT_CODE p' = - 1"
    using assms(2) unfolding svm_consistency_def by blast
  show ?thesis
  proof (rule run_runs [OF assms(1,3,6,7,5)])
    fix k' p
    assume a: "env_vmrun E c (env_virt_to_phys E (sv_vmcb (k_svm k))) (k_pages k) (sv_vmcb (k_svm k)) = Some p"
      "kernova_amd_svm_run E c allow req k = Some (0, req\<lparr>run_status := 0, run_runtime_state := 5,
        run_exit_code := vmcb_read_u64 VMCB_CONTROL_EXIT_CODE p, run_exit_info1 := vmcb_read_u64 VMCB_CONTROL_EXIT_INFO1 p,
        run_exit_info2 := vmcb_read_u64 VMCB_CONTROL_EXIT_INFO2 p\<rparr>, k')"
      "phase_created E k'" "sv_last_exit_code (k_svm k') = vmcb_read_u64 VMCB_CONTROL_EXIT_CODE p"
    then have "p = p'" using p'(1) by simp
    then show ?thesis using that [OF a(2)] a p'(2) by simp
  qed
qed

section \<open>A concrete machine for the witnesses\<close>

text \<open>An AMD CPU, an allocator that hands out the pages \<open>0x1000, 0x2000, \<dots>\<close> in turn as long as
  they are free, identity translation, and VMRUN that finds every VMCB illegal.\<close>

definition demo_env :: kenv where
  "demo_env = \<lparr>env_cpuid = (\<lambda>l _. if l = 0 then \<lparr>eax = 1, ebx = 0x68747541, ecx = 0x444D4163, edx = 0x69746E65\<rparr>
       else \<lparr>eax = 0x8000000A, ebx = 16, ecx = 4, edx = 0\<rparr>),
     env_has_svm = True, env_has_vmx = False,
     env_alloc = (\<lambda>n ps. let p = of_nat (n + 1) * 0x1000 in if ps p = None then p else 0),
     env_virt_to_phys = (\<lambda>p. p),
     env_vmrun = (\<lambda>_ pa ps. case ps pa of None \<Rightarrow> ps
        | Some p \<Rightarrow> if length p = PAGE then ps(pa \<mapsto> page_write 0x070 (le_bytes 8 (- 1 :: u64)) p) else ps)\<rparr>"

lemma demo_ok: "kenv_ok demo_env"
  unfolding kenv_ok_def
proof (intro conjI allI impI)
  fix n ps assume "env_alloc demo_env n ps \<noteq> 0"
  then show "ps (env_alloc demo_env n ps) = None" by (auto simp: demo_env_def Let_def split: if_splits)
next
  fix c :: nat and pa :: u64 and ps :: pages
  show "dom (env_vmrun demo_env c pa ps) = dom ps"
    by (auto simp: demo_env_def split: option.split if_splits)
  assume "\<forall>b\<in>ran ps. length b = PAGE"
  then show "\<forall>b\<in>ran (env_vmrun demo_env c pa ps). length b = PAGE"
    by (auto simp: demo_env_def ran_def PAGE_def split: option.split if_splits)
qed

lemma demo_consistency: "svm_consistency demo_env"
  unfolding svm_consistency_def
proof (intro allI impI)
  fix c :: nat and ps :: pages and va p
  assume a: "ps va = Some p \<and> length p = PAGE
      \<and> (\<not> bit (p ! 0x10) 0 \<or> vmcb_read_u64 VMCB_SAVE_EFER p AND EFER_SVME = 0)"
  then have "vmcb_read_u64 VMCB_CONTROL_EXIT_CODE (page_write 0x070 (le_bytes 8 (- 1 :: u64)) p) = - 1"
    by (simp add: vmcb_read_u64_def VMCB_CONTROL_EXIT_CODE_def page_read_write_same PAGE_def enc_simps)
  then show "\<exists>p'. env_vmrun demo_env c (env_virt_to_phys demo_env va) ps va = Some p'
      \<and> vmcb_read_u64 VMCB_CONTROL_EXIT_CODE p' = - 1"
    using a by (simp add: demo_env_def)
qed

definition demo_loaded :: kernel where
  "demo_loaded = snd (kernova_module_init demo_env True 0 (unloaded (\<lambda>_ _. 0)))"

lemma demo_loaded_reach: "driver_reach demo_env cpus (\<lambda>_ _. 0) demo_loaded"
proof (rule driver_reach.load)
  show "kernova_module_init demo_env True 0 (unloaded (\<lambda>_ _. 0)) = (0, demo_loaded)"
    by (simp add: demo_loaded_def kernova_module_init_def Let_def)
qed

text \<open>A caller whose whole memory is accessible, with a request in it.\<close>

definition caller :: "u64 \<Rightarrow> u8 list \<Rightarrow> user" where
  "caller arg bs = \<lparr>u_mem = write_bytes arg bs (\<lambda>_. 0), u_readable = (\<lambda>_ _. True), u_writable = (\<lambda>_ _. True)\<rparr>"

lemma caller_read: "length bs = n \<Longrightarrow> n < 2 ^ 14 \<Longrightarrow> copy_from_user (caller arg bs) arg n = Some bs"
  by (simp add: caller_def copy_from_user_def mem_simps)

definition svm_init_request :: "u8 list" where
  "svm_init_request = encode_init \<lparr>init_backend_flags = KERNOVA_BACKEND_AMD_SVM, init_reserved = 0\<rparr>"

definition svm_create_request :: "u8 list" where
  "svm_create_request = encode_create \<lparr>create_backend_flags = KERNOVA_BACKEND_AMD_SVM, create_guest_size = 4096\<rparr>"

definition svm_run_request :: "u8 list" where
  "svm_run_request = encode_run \<lparr>run_flags = KERNOVA_RUN_ALLOW_PRIVILEGED, run_reserved = 0, run_runtime_state = 0,
     run_status = 0, run_exit_code = 0, run_exit_info1 = 0, run_exit_info2 = 0\<rparr>"

lemma request_lengths [simp]: "length svm_init_request = 8" "length svm_create_request = 8" "length svm_run_request = 40"
  by (simp_all add: svm_init_request_def svm_create_request_def svm_run_request_def length_encode
      sizeof_init_def sizeof_create_def sizeof_run_def)

definition demo_init :: kernel where
  "demo_init = snd (snd (ioctl_init demo_env 0 True 0x100 (caller 0x100 svm_init_request) 
      (kernova_refresh_caps_locked demo_env True demo_loaded)))"

definition demo_created :: kernel where
  "demo_created = snd (snd (the (ioctl_create demo_env True 0x100 (caller 0x100 svm_create_request)
      (kernova_refresh_caps_locked demo_env True demo_init))))"

lemma requests_decode:
  "init_backend_flags (decode_init svm_init_request) = 1" "create_backend_flags (decode_create svm_create_request) = 1"
  "create_guest_size (decode_create svm_create_request) = 4096" "run_flags (decode_run svm_run_request) = 1"
  by (simp_all add: svm_init_request_def svm_create_request_def svm_run_request_def KERNOVA_BACKEND_AMD_SVM_def
      KERNOVA_RUN_ALLOW_PRIVILEGED_def)

lemma detect_frame [simp]:
  "caps_svm_supported (detect_fallback c) = caps_svm_supported c" "caps_vmx_supported (detect_fallback c) = caps_vmx_supported c"
  "caps_svm_supported (detect_svm_leaf E c) = caps_svm_supported c" "caps_vmx_supported (detect_svm_leaf E c) = caps_vmx_supported c"
  "caps_driver_loaded (detect_fallback c) = caps_driver_loaded c" "caps_driver_loaded (detect_svm_leaf E c) = caps_driver_loaded c"
  "caps_driver_loaded (detect_flags E c) = caps_driver_loaded c" "caps_driver_loaded (detect_vendor_caps E c) = caps_driver_loaded c"
  "caps_wf (detect_fallback c) = caps_wf c" "caps_wf (detect_svm_leaf E c) = caps_wf c" "caps_wf (detect_flags E c) = caps_wf c"
  "caps_runtime_state (detect_fallback c) = caps_runtime_state c" "caps_runtime_state (detect_svm_leaf E c) = caps_runtime_state c"
  "caps_runtime_state (detect_flags E c) = caps_runtime_state c"
  "caps_runtime_state (detect_vendor_caps E c) = caps_runtime_state c"
  by (simp_all add: detect_fallback_def detect_svm_leaf_def detect_flags_def detect_vendor_caps_def Let_def caps_wf_def)

lemma detect_flags_supported:
  "caps_svm_supported (detect_flags E c) = (if env_has_svm E then 1 else caps_svm_supported c)"
  "caps_vmx_supported (detect_flags E c) = (if env_has_vmx E then 1 else caps_vmx_supported c)"
  by (simp_all add: detect_flags_def Let_def)

lemma detect_vendor_supported:
  "caps_svm_supported (detect_vendor_caps E c) = caps_svm_supported c"
  "caps_vmx_supported (detect_vendor_caps E c) = caps_vmx_supported c"
  by (simp_all add: detect_vendor_caps_def Let_def)

lemma detect_base_fields [simp]:
  "caps_svm_supported detect_base = 0" "caps_vmx_supported detect_base = 0" "caps_driver_loaded detect_base = 1"
  "caps_runtime_state detect_base = 1" "caps_cpu_vendor detect_base = replicate 13 0" "length (caps_driver_name detect_base) = 32"
  "length (caps_reserved1 detect_base) = 3"
  by (simp_all add: detect_base_def zero_caps_def Let_def strscpy_def ascii_def)

lemma detect_caps_wf: "caps_wf (kernova_detect_cpu E)"
  by (simp add: kernova_detect_cpu_def) (simp add: detect_vendor_caps_def caps_wf_def Let_def)

lemma detected_caps [simp]:
  "caps_svm_supported (kernova_detect_cpu E) = (if env_has_svm E then 1 else 0)"
  "caps_vmx_supported (kernova_detect_cpu E) = (if env_has_vmx E then 1 else 0)"
  "caps_driver_loaded (kernova_detect_cpu E) = 1" "caps_runtime_state (kernova_detect_cpu E) = 1"
  by (simp_all add: kernova_detect_cpu_def detect_flags_supported detect_vendor_supported)

text \<open>What a refresh reports.\<close>

lemma refreshed_caps:
  "caps_svm_supported (k_caps (kernova_refresh_caps_locked E allow k)) = (if env_has_svm E then 1 else 0)"
  "caps_vmx_supported (k_caps (kernova_refresh_caps_locked E allow k)) = (if env_has_vmx E then 1 else 0)"
  "caps_driver_loaded (k_caps (kernova_refresh_caps_locked E allow k)) = 1"
  "caps_svm_initialized (k_caps (kernova_refresh_caps_locked E allow k)) = (if sv_initialized (k_svm k) then 1 else 0)"
  "caps_vm_created (k_caps (kernova_refresh_caps_locked E allow k)) = (if sv_vm_created (k_svm k) then 1 else 0)"
  "caps_last_vmexit_valid (k_caps (kernova_refresh_caps_locked E allow k)) = (if sv_last_exit_code (k_svm k) \<noteq> 0 then 1 else 0)"
  "caps_last_exit_code (k_caps (kernova_refresh_caps_locked E allow k)) = sv_last_exit_code (k_svm k)"
  "caps_runtime_state (k_caps (kernova_refresh_caps_locked E allow k))
     = (if sv_vm_created (k_svm k) then 3 else if sv_initialized (k_svm k) then 2 else 1)"
  "caps_vmrun_enabled (k_caps (kernova_refresh_caps_locked E allow k)) = (if allow then 1 else 0)"
  "caps_wf (k_caps (kernova_refresh_caps_locked E allow k))"
  using detect_caps_wf [of E]
  by (simp_all add: kernova_refresh_caps_locked_def kernova_amd_svm_fill_caps_def kernova_intel_vmx_fill_caps_def
      Let_def caps_wf_def)

lemma demo_caps: "caps_svm_supported (k_caps (kernova_refresh_caps_locked demo_env allow k)) = 1"
  by (simp add: refreshed_caps demo_env_def)

lemma demo_loaded_state:
  "k_svm demo_loaded = zero_svm" "k_msr demo_loaded = (\<lambda>_ _. 0)" "k_pages demo_loaded = Map.empty"
  "k_requests demo_loaded = 0" "k_vmruns demo_loaded = []"
  by (simp_all add: demo_loaded_def kernova_module_init_def Let_def unloaded_def)

lemma demo_init_call:
  "\<exists>k. kernova_amd_svm_init demo_env 0 (kernova_refresh_caps_locked demo_env True demo_loaded) = (0, k)
    \<and> demo_init = kernova_refresh_caps_locked demo_env True k \<and> k_requests k = 1 \<and> sv_initialized (k_svm k)
    \<and> sv_vmcb (k_svm k) = 0 \<and> sv_guest_page (k_svm k) = 0 \<and> k_pages k = [0x1000 \<mapsto> replicate PAGE 0]"
proof -
  let ?k = "kernova_refresh_caps_locked demo_env True demo_loaded"
  have a: "kernova_alloc_page demo_env ?k
     = (0, 0x1000, 0x1000, ?k\<lparr>k_requests := 1, k_pages := [0x1000 \<mapsto> replicate PAGE 0]\<rparr>)"
    by (simp add: kernova_alloc_page_def Let_def demo_loaded_state) (simp add: demo_env_def)
  have "\<exists>k. kernova_amd_svm_init demo_env 0 ?k = (0, k) \<and> k_requests k = 1 \<and> sv_initialized (k_svm k)
    \<and> sv_vmcb (k_svm k) = 0 \<and> sv_guest_page (k_svm k) = 0 \<and> k_pages k = [0x1000 \<mapsto> replicate PAGE 0]"
    using a by (simp add: kernova_amd_svm_init_def demo_caps demo_loaded_state zero_svm_def rdmsrl_def Let_def)
  then show ?thesis
    using caller_read [of svm_init_request 8 "0x100"]
    by (auto simp: demo_init_def ioctl_init_def sizeof_init_def requests_decode KERNOVA_BACKEND_AMD_SVM_def)
qed

lemma demo_init_reach: "driver_reach demo_env {0} (\<lambda>_ _. 0) demo_init"
proof -
  obtain r U where "ioctl_init demo_env 0 True 0x100 (caller 0x100 svm_init_request)
      (kernova_refresh_caps_locked demo_env True demo_loaded) = (r, U, demo_init)"
    by (metis demo_init_def prod.collapse)
  then show ?thesis
    by (intro driver_reach.request [OF demo_loaded_reach, of 0 _ True KERNOVA_IOCTL_INIT_BACKEND "0x100" "caller 0x100 svm_init_request" r U])
      (simp_all add: ioctl_dispatch)
qed

lemma demo_create_call:
  "\<exists>k. kernova_amd_svm_create_vm demo_env 4096 (kernova_refresh_caps_locked demo_env True demo_init) = Some (0, k)
    \<and> demo_created = kernova_refresh_caps_locked demo_env True k \<and> phase_created demo_env k \<and> created_with k"
proof -
  obtain k where k: "demo_init = kernova_refresh_caps_locked demo_env True k" "k_requests k = 1" "sv_initialized (k_svm k)"
    "sv_vmcb (k_svm k) = 0" "sv_guest_page (k_svm k) = 0" "k_pages k = [0x1000 \<mapsto> replicate PAGE 0]"
    using demo_init_call by blast
  let ?k = "kernova_refresh_caps_locked demo_env True demo_init"
  have ph: "phase_init demo_env ?k"
  proof -
    have "svm_inv demo_env ?k" using driver_reach_inv [OF demo_init_reach demo_ok] by simp
    moreover have "sv_initialized (k_svm ?k)" using k(3) by (simp add: k(1))
    moreover have "\<not> phase_created demo_env ?k"
    proof
      assume "phase_created demo_env ?k"
      then have "sv_vmcb (k_svm ?k) \<noteq> 0" by (auto simp: phase_created_def Let_def held_def)
      then show False using k(4) by (simp add: k(1))
    qed
    ultimately show ?thesis using initialized_phase(1) by blast
  qed
  have s: "k_svm ?k = k_svm k" "k_pages ?k = k_pages k" "k_requests ?k = k_requests k" by (simp_all add: k(1))
  have v: "alloc_vmcb demo_env ?k = (0, ?k\<lparr>k_requests := 2, k_pages := (k_pages k)(0x2000 \<mapsto> replicate PAGE 0),
      k_svm := (k_svm k)\<lparr>sv_vmcb := 0x2000, sv_vmcb_pa := 0x2000\<rparr>\<rparr>)"
    using k(2-6) s by (simp add: alloc_vmcb_def kernova_alloc_page_def Let_def) (simp add: demo_env_def)
  have g: "fst (alloc_guest demo_env (snd (alloc_vmcb demo_env ?k))) = 0"
    using k(2-6) s by (simp add: v alloc_guest_def kernova_alloc_page_def Let_def) (simp add: demo_env_def)
  have e: "\<exists>k'. kernova_amd_svm_create_vm demo_env 4096 ?k = Some (0, k') \<and> phase_created demo_env k' \<and> created_with k'"
  proof (rule create_init [OF demo_ok ph order_refl])
    fix k' assume f: "kernova_amd_svm_create_vm demo_env 4096 ?k = Some (- ENOMEM, k')"
    have "sv_initialized (k_svm ?k)" using k(3) s by simp
    then have False using f g v
      by (auto simp: kernova_amd_svm_create_vm_def case_prod_beta errno_defs split: option.splits if_splits)
    then show ?thesis ..
  qed blast
  then show ?thesis
    using caller_read [of svm_create_request 8 "0x100"]
    by (auto simp: demo_created_def ioctl_create_def sizeof_create_def requests_decode KERNOVA_BACKEND_AMD_SVM_def)
qed

lemma demo_created_reach: "driver_reach demo_env {0} (\<lambda>_ _. 0) demo_created"
proof -
  obtain k where k: "kernova_amd_svm_create_vm demo_env 4096 (kernova_refresh_caps_locked demo_env True demo_init) = Some (0, k)"
    "demo_created = kernova_refresh_caps_locked demo_env True k"
    using demo_create_call by blast
  have "ioctl_create demo_env True 0x100 (caller 0x100 svm_create_request)
      (kernova_refresh_caps_locked demo_env True demo_init) = Some (0, caller 0x100 svm_create_request, demo_created)"
    using k caller_read [of svm_create_request 8 "0x100"]
    by (simp add: ioctl_create_def sizeof_create_def requests_decode KERNOVA_BACKEND_AMD_SVM_def)
  then show ?thesis
    by (intro driver_reach.request [OF demo_init_reach, of 0 True KERNOVA_IOCTL_CREATE_VM "0x100" "caller 0x100 svm_create_request"])
      (simp_all add: ioctl_dispatch)
qed

lemma demo_created_phase: "phase_created demo_env demo_created" "created_with demo_created"
proof -
  obtain k where k: "demo_created = kernova_refresh_caps_locked demo_env True k" "phase_created demo_env k" "created_with k"
    using demo_create_call by blast
  show "phase_created demo_env demo_created" "created_with demo_created"
    unfolding k(1) using k(2,3) by (simp_all add: created_with_def)
qed

section \<open>The life cycle of the context\<close>

text \<open>The contract of the device: three phases, and what each request may do to them.\<close>

datatype lifecycle = Idle | Initialized | VmReady

definition lifecycle :: "kernel \<Rightarrow> lifecycle" where
  "lifecycle k = (if sv_vm_created (k_svm k) then VmReady else if sv_initialized (k_svm k) then Initialized else Idle)"

definition lifecycle_step :: "u32 \<Rightarrow> int \<Rightarrow> lifecycle \<Rightarrow> lifecycle \<Rightarrow> bool" where
  "lifecycle_step cmd rc p p' \<longleftrightarrow>
     (if cmd = KERNOVA_IOCTL_INIT_BACKEND then (if rc = 0 then p' = (if p = Idle then Initialized else p) else p' = p)
      else if cmd = KERNOVA_IOCTL_CREATE_VM then (if rc = 0 then p \<noteq> Idle \<and> p' = VmReady else p' = p)
      else if cmd = KERNOVA_IOCTL_DESTROY_VM then rc = 0 \<and> p' = Idle
      else p' = p \<and> (cmd = KERNOVA_IOCTL_RUN_VM \<and> rc = 0 \<longrightarrow> p = VmReady))"

lemma lifecycle_phase:
  "phase_uninit k \<Longrightarrow> lifecycle k = Idle" "phase_init E k \<Longrightarrow> lifecycle k = Initialized" "phase_created E k \<Longrightarrow> lifecycle k = VmReady"
  by (simp_all add: lifecycle_def phase_initialized)

lemma lifecycle_refresh [simp]: "lifecycle (kernova_refresh_caps_locked E allow k) = lifecycle k"
  by (simp add: lifecycle_def)

lemma init_lifecycle:
  assumes "kernova_amd_svm_init E c k = (r, k')" "svm_inv E k"
  shows "lifecycle k' = (if r = 0 \<and> lifecycle k = Idle then Initialized else lifecycle k)"
proof (cases "r = 0")
  case True
  then show ?thesis using assms
    by (auto simp: kernova_amd_svm_init_def kernova_alloc_page_def lifecycle_def Let_def split: if_splits)
next
  case False
  then show ?thesis using assms
    by (auto simp: kernova_amd_svm_init_def kernova_alloc_page_def lifecycle_def Let_def split: if_splits)
qed

lemma create_lifecycle:
  assumes "kenv_ok E" "svm_inv E k" "kernova_amd_svm_create_vm E g k = Some (r, k')"
  shows "r = 0 \<and> lifecycle k \<noteq> Idle \<and> lifecycle k' = VmReady \<or> r \<noteq> 0 \<and> lifecycle k' = lifecycle k"
proof -
  consider "\<not> sv_initialized (k_svm k) \<or> g \<noteq> 0 \<and> 4096 < g" | "phase_init E k" "g \<le> 4096" | "phase_created E k" "g \<le> 4096"
  proof (cases "4096 < g")
    case True
    then have "g \<noteq> 0" by auto
    then show ?thesis using that(1) True by blast
  next
    case False
    then have "g \<le> 4096" by simp
    then show ?thesis using that initialized_phase(1) [OF assms(2)] by blast
  qed
  then show ?thesis
  proof cases
    case 1
    then show ?thesis using create_refused [OF 1, of E] assms(3) by simp
  next
    case 2
    show ?thesis
      by (rule create_init [OF assms(1) 2]) (use assms(3) 2 lifecycle_phase in auto)
  next
    case 3
    show ?thesis
      by (rule create_created [OF 3]) (use assms(3) 3 lifecycle_phase in auto)
  qed
qed

lemma run_lifecycle:
  assumes "kernova_amd_svm_run E c allow req k = Some (r, q, k')"
  shows "lifecycle k' = lifecycle k \<and> (r = 0 \<longrightarrow> lifecycle k = VmReady)"
  using assms
  by (auto simp: kernova_amd_svm_run_def lifecycle_def vmrun_def Let_def split: if_splits option.splits)

lemma ioctl_lifecycle:
  assumes "kenv_ok E" "svm_inv E k" "kernova_ioctl E c allow cmd arg U k = Some (r, U', k')"
    "IOC_TYPE cmd = KERNOVA_IOCTL_MAGIC"
  shows "lifecycle_step cmd r (lifecycle k) (lifecycle k')"
proof -
  let ?k = "kernova_refresh_caps_locked E allow k"
  have i: "svm_inv E ?k" using assms(2) by simp
  consider "cmd = KERNOVA_IOCTL_QUERY_CAPS" | "cmd = KERNOVA_IOCTL_INIT_BACKEND" | "cmd = KERNOVA_IOCTL_CREATE_VM"
    | "cmd = KERNOVA_IOCTL_RUN_VM" | "cmd = KERNOVA_IOCTL_DESTROY_VM"
    | "cmd \<notin> {KERNOVA_IOCTL_QUERY_CAPS, KERNOVA_IOCTL_INIT_BACKEND, KERNOVA_IOCTL_CREATE_VM, KERNOVA_IOCTL_RUN_VM,
        KERNOVA_IOCTL_DESTROY_VM}" by blast
  then show ?thesis
  proof cases
    case 1
    then have "k' = ?k" using assms(3) ioctl_query_same [of arg U ?k] by (simp add: ioctl_dispatch)
    then show ?thesis using 1 by (simp add: lifecycle_step_def ioctl_values)
  next
    case 2
    obtain r2 k2 where q: "kernova_amd_svm_init E c ?k = (r2, k2)" by fastforce
    have l: "lifecycle k2 = (if r2 = 0 \<and> lifecycle k = Idle then Initialized else lifecycle k)"
      using init_lifecycle [OF q i] by simp
    then show ?thesis using 2 assms(3) q
      by (auto simp: ioctl_dispatch ioctl_init_def lifecycle_step_def split: option.splits if_splits)
  next
    case 3
    have "r = 0 \<and> lifecycle k \<noteq> Idle \<and> lifecycle k' = VmReady \<or> r \<noteq> 0 \<and> lifecycle k' = lifecycle k"
      using assms(3)
      by (auto simp: 3 ioctl_dispatch ioctl_create_def Let_def split: option.splits if_splits
          dest!: create_lifecycle [OF assms(1) i])
    then show ?thesis using 3 by (auto simp: lifecycle_step_def ioctl_values)
  next
    case 4
    have "lifecycle k' = lifecycle k \<and> (r = 0 \<longrightarrow> lifecycle k = VmReady)"
      using assms(3)
      by (auto simp: 4 ioctl_dispatch ioctl_run_def split: option.splits dest!: run_lifecycle)
    then show ?thesis using 4 by (auto simp: lifecycle_step_def ioctl_values)
  next
    case 5
    obtain k2 where d: "kernova_amd_svm_destroy c ?k = Some k2" "phase_uninit k2"
      by (rule destroy_step [OF i])
    have "r = 0 \<and> k' = kernova_refresh_caps_locked E allow k2"
      using assms(3) d(1) by (auto simp: 5 ioctl_dispatch ioctl_destroy_def)
    then show ?thesis using lifecycle_phase(1) [OF d(2)] by (simp add: 5 lifecycle_step_def ioctl_values)
  next
    case 6
    then have "k' = ?k" using assms(3,4) by (simp add: kernova_ioctl_def Let_def)
    then show ?thesis using 6 by (simp add: lifecycle_step_def)
  qed
qed

lemma svm_inv_pages:
  assumes "svm_inv E k"
  shows "dom (k_pages k) = {sv_guest_page (k_svm k), sv_vmcb (k_svm k), sv_host_save_area (k_svm k)} - {0}"
  using svm_inv_held [OF assms] unfolding held_def by auto

lemma phase_uninit_pages: "phase_uninit k \<Longrightarrow> k_pages k = Map.empty"
  by (simp add: phase_uninit_def held_def Let_def)

lemma svm_inv_pointers:
  assumes "svm_inv E k"
  shows "sv_vm_created (k_svm k) \<longleftrightarrow> sv_vmcb (k_svm k) \<noteq> 0" "sv_vm_created (k_svm k) \<longleftrightarrow> sv_guest_page (k_svm k) \<noteq> 0"
    "sv_initialized (k_svm k) \<longleftrightarrow> sv_host_save_area (k_svm k) \<noteq> 0" "sv_vm_created (k_svm k) \<longrightarrow> sv_initialized (k_svm k)"
  using assms by (auto simp: svm_inv_def phase_defs Let_def held_def)


lemma demo_request: "\<exists>r U' k'. kernova_ioctl demo_env 0 allow cmd arg U demo_created = Some (r, U', k')"
proof -
  have i: "svm_inv demo_env demo_created" "msr_inv 0 (\<lambda>_ _. 0) demo_created"
    using driver_reach_inv [OF demo_created_reach demo_ok] by simp_all
  show ?thesis by (rule ioctl_step [OF demo_ok i, of allow cmd arg U]) blast
qed

section \<open>Properties\<close>

text \<open>C1: Memory safety on one CPU: in every state the driver reaches, every request, with any number,
  argument and caller, returns (no crash: no access to a page not held, no double free, no
  VMRUN without SVME), and the pages held are exactly those the context points to, which
  are there exactly in the phases that need them: nothing leaks.\<close>

theorem driver_never_crashes:
  assumes "kenv_ok E" "driver_reach E {c} m k"
  shows "(\<exists>r U' k'. kernova_ioctl E c allow cmd arg U k = Some (r, U', k'))
    \<and> dom (k_pages k) = {sv_guest_page (k_svm k), sv_vmcb (k_svm k), sv_host_save_area (k_svm k)} - {0}
    \<and> (sv_vm_created (k_svm k) \<longleftrightarrow> sv_vmcb (k_svm k) \<noteq> 0) \<and> (sv_vm_created (k_svm k) \<longleftrightarrow> sv_guest_page (k_svm k) \<noteq> 0)
    \<and> (sv_initialized (k_svm k) \<longleftrightarrow> sv_host_save_area (k_svm k) \<noteq> 0)
    \<and> (sv_vm_created (k_svm k) \<longrightarrow> sv_initialized (k_svm k))"
proof -
  have i: "svm_inv E k" "msr_inv c m k" using driver_reach_inv [OF assms(2,1)] by simp_all
  have "\<exists>r U' k'. kernova_ioctl E c allow cmd arg U k = Some (r, U', k')"
    by (rule ioctl_step [OF assms(1) i, of allow cmd arg U]) blast
  then show ?thesis using svm_inv_pages [OF i(1)] svm_inv_pointers [OF i(1)] by blast
qed

theorem driver_never_crashes_witness:
  "\<exists>r U' k'. kernova_ioctl demo_env 0 True KERNOVA_IOCTL_RUN_VM 0x100 (caller 0x100 svm_run_request) demo_created = Some (r, U', k')"
  using driver_never_crashes [OF demo_ok demo_created_reach] by blast

text \<open>C2: Destroying gives everything back. In any state that requests on any CPUs lead to, on any CPU,
  \<open>KERNOVA_IOCTL_DESTROY_VM\<close> returns 0 and unloading succeeds, and afterwards no page is held and the
  context is blank. If all requests ran on the CPU \<open>c\<close> that destroys or unloads, every
  model-specific register of every CPU has the value it had before the driver was loaded (on
  another CPU it has not, see \<open>driver_unsafe_across_cpus\<close>).\<close>

theorem destroy_restores_machine:
  assumes "kenv_ok E" "driver_reach E cpus m k"
  shows "(\<exists>k'. kernova_ioctl E c allow KERNOVA_IOCTL_DESTROY_VM arg U k = Some (0, U, k')
      \<and> k_pages k' = Map.empty \<and> k_svm k' = zero_svm \<and> (cpus = {c} \<longrightarrow> k_msr k' = m))
    \<and> (\<exists>k'. kernova_module_exit c k = Some k' \<and> k_pages k' = Map.empty \<and> k_svm k' = zero_svm \<and> (cpus = {c} \<longrightarrow> k_msr k' = m))"
proof -
  let ?k = "kernova_refresh_caps_locked E allow k"
  have i: "svm_inv E k" by (rule driver_reach_any_inv [OF assms(2,1)])
  then have j: "svm_inv E ?k" by simp
  have m: "msr_inv c m k" "msr_inv c m ?k" if "cpus = {c}" using driver_reach_inv [of E c m k] assms that by simp_all
  obtain k1 where 1: "kernova_amd_svm_destroy c ?k = Some k1" "phase_uninit k1" "k_svm k1 = zero_svm"
    using destroy_step [OF j, of c] by metis
  obtain k2 where 2: "kernova_amd_svm_destroy c k = Some k2" "phase_uninit k2" "k_svm k2 = zero_svm"
    using destroy_step [OF i, of c] by metis
  have "k_msr k1 = m" "k_msr k2 = m" if "cpus = {c}"
    using destroy_msr [OF j m(2) [OF that]] destroy_msr [OF i m(1) [OF that]] 1(1) 2(1) by (metis option.inject)+
  then show ?thesis
    using 1 2 phase_uninit_pages by (auto simp: ioctl_dispatch ioctl_destroy_def kernova_module_exit_def)
qed

theorem destroy_restores_machine_witness:
  "\<exists>k'. kernova_module_exit 0 demo_created = Some k' \<and> k_pages k' = Map.empty \<and> k_msr k' = (\<lambda>_ _. 0)"
  using destroy_restores_machine [OF demo_ok demo_created_reach, of 0] by blast



text \<open>C4: The driver refines the life cycle Idle, Initialized, VmReady: initialising succeeds or changes
  nothing, creating a VM succeeds only after initialising, running only with a VM, destroying
  always leads back to Idle, and no other request changes the phase.\<close>

theorem driver_refines_lifecycle:
  assumes "kenv_ok E" "driver_reach E {c} m k" "kernova_ioctl E c allow cmd arg U k = Some (r, U', k')"
    "IOC_TYPE cmd = KERNOVA_IOCTL_MAGIC"
  shows "lifecycle_step cmd r (lifecycle k) (lifecycle k')"
  using ioctl_lifecycle [OF assms(1) _ assms(3,4)] driver_reach_inv [OF assms(2,1)] by blast

theorem driver_refines_lifecycle_witness:
  "\<exists>r U' k'. kernova_ioctl demo_env 0 True KERNOVA_IOCTL_DESTROY_VM 0 (caller 0 []) demo_created = Some (r, U', k')
    \<and> lifecycle_step KERNOVA_IOCTL_DESTROY_VM r (lifecycle demo_created) (lifecycle k')"
proof -
  obtain r U' k' where q: "kernova_ioctl demo_env 0 True KERNOVA_IOCTL_DESTROY_VM 0 (caller 0 []) demo_created = Some (r, U', k')"
    using demo_request by blast
  then have "lifecycle_step KERNOVA_IOCTL_DESTROY_VM r (lifecycle demo_created) (lifecycle k')"
    by (rule driver_refines_lifecycle [OF demo_ok demo_created_reach]) (simp add: ioctl_values IOC_TYPE_def)
  then show ?thesis using q by blast
qed

lemma demo_init_refreshed_reach: "driver_reach demo_env {0} (\<lambda>_ _. 0) (kernova_refresh_caps_locked demo_env True demo_init)"
proof -
  have "snd (snd (ioctl_query 0 (caller 0 []) (kernova_refresh_caps_locked demo_env True demo_init)))
      = kernova_refresh_caps_locked demo_env True demo_init" by (rule ioctl_query_same)
  then obtain r U where "ioctl_query 0 (caller 0 []) (kernova_refresh_caps_locked demo_env True demo_init)
      = (r, U, kernova_refresh_caps_locked demo_env True demo_init)" by (metis prod.collapse)
  then show ?thesis
    by (intro driver_reach.request [OF demo_init_reach, of 0 True KERNOVA_IOCTL_QUERY_CAPS 0 "caller 0 []" r U])
      (simp_all add: ioctl_dispatch)
qed

text \<open>C30: The driver is not safe on several CPUs, because the registers it sets belong to one of them:
  after initialising on CPU \<open>c\<close>, a permitted run on a CPU \<open>b\<close> whose SVME was clear executes
  VMRUN there and crashes, and destroying on \<open>b\<close> leaves SVME set on \<open>c\<close> and VM_HSAVE_PA of
  \<open>c\<close> pointing to the page that was just freed.\<close>

theorem driver_unsafe_across_cpus:
  assumes "kenv_ok E" "driver_reach E {c} m k" "sv_vm_created (k_svm k)" "b \<noteq> c" "m b MSR_EFER AND EFER_SVME = 0"
    and "copy_from_user U arg sizeof_run = Some bs" "run_flags (decode_run bs) AND KERNOVA_RUN_ALLOW_PRIVILEGED \<noteq> 0"
  shows "kernova_ioctl E b True KERNOVA_IOCTL_RUN_VM arg U k = None
    \<and> (\<exists>k'. kernova_ioctl E b True KERNOVA_IOCTL_DESTROY_VM arg U k = Some (0, U, k') \<and> k_pages k' = Map.empty
        \<and> k_msr k' c MSR_EFER AND EFER_SVME \<noteq> 0
        \<and> k_msr k' c MSR_VM_HSAVE_PA = env_virt_to_phys E (sv_host_save_area (k_svm k)))"
proof
  let ?k = "kernova_refresh_caps_locked E True k"
  have i: "svm_inv E k" "msr_inv c m k" using driver_reach_inv [OF assms(2,1)] by simp_all
  have pk: "phase_created E k" using assms(3) initialized_phase(3) [OF i(1)] by blast
  then have ph: "phase_created E ?k" and n: "sv_initialized (k_svm k)" by (simp_all add: phase_initialized)
  have q: "k_msr k = m(c := (m c)(MSR_EFER := m c MSR_EFER OR EFER_SVME, MSR_VM_HSAVE_PA := sv_host_save_pa (k_svm k)))"
    using i(2) n by (simp add: msr_inv_def)
  have kb: "k_msr ?k b = m b" using assms(4) by (simp add: q)
  have b: "k_msr ?k b MSR_EFER AND EFER_SVME = 0" unfolding kb by (rule assms(5))
  have ne: "MSR_EFER \<noteq> MSR_VM_HSAVE_PA" by (simp add: MSR_EFER_def MSR_VM_HSAVE_PA_def)
  have c: "k_msr k c MSR_EFER = m c MSR_EFER OR EFER_SVME" "k_msr k c MSR_VM_HSAVE_PA = sv_host_save_pa (k_svm k)"
    unfolding q using ne by simp_all
  show "kernova_ioctl E b True KERNOVA_IOCTL_RUN_VM arg U k = None"
    using run_other_cpu [OF ph b _ assms(7)] assms(6) by (simp add: ioctl_dispatch ioctl_run_def)
  have pa: "sv_host_save_pa (k_svm k) = env_virt_to_phys E (sv_host_save_area (k_svm k))"
    using ph by (simp add: phase_created_def Let_def)
  have j: "svm_inv E ?k" using i(1) by simp
  show "\<exists>k'. kernova_ioctl E b True KERNOVA_IOCTL_DESTROY_VM arg U k = Some (0, U, k') \<and> k_pages k' = Map.empty
      \<and> k_msr k' c MSR_EFER AND EFER_SVME \<noteq> 0
      \<and> k_msr k' c MSR_VM_HSAVE_PA = env_virt_to_phys E (sv_host_save_area (k_svm k))"
  proof (rule destroy_step [OF j, of b])
    fix k' assume d: "kernova_amd_svm_destroy b ?k = Some k'" "phase_uninit k'"
      "k_msr k' = (if sv_initialized (k_svm ?k)
         then (k_msr ?k)(b := (k_msr ?k b)(MSR_VM_HSAVE_PA := sv_original_vm_hsave_pa (k_svm ?k),
                MSR_EFER := sv_original_efer (k_svm ?k))) else k_msr ?k)"
    have "k_msr k' c = k_msr k c" using d(3) assms(4) by simp
    then show ?thesis
      using d(1) phase_uninit_pages [OF d(2)] c pa svme_or [of "m c MSR_EFER"]
      by (simp add: ioctl_dispatch ioctl_destroy_def)
  qed
qed

theorem driver_unsafe_across_cpus_witness:
  "kernova_ioctl demo_env 1 True KERNOVA_IOCTL_RUN_VM 0x100 (caller 0x100 svm_run_request) demo_created = None"
  using driver_unsafe_across_cpus [OF demo_ok demo_created_reach _ _ _ caller_read [of svm_run_request sizeof_run "0x100"], of 1]
    demo_created_phase(1) phase_initialized(4)
  by (simp add: sizeof_run_def requests_decode KERNOVA_RUN_ALLOW_PRIVILEGED_def)

text \<open>The VMCB the driver prepares is one the hardware refuses: it intercepts HLT only and leaves
  EFER.SVME of the guest clear. So the first run after creating a VM, with all gates open,
  returns success to the caller with exit code -1 (\<open>VMEXIT_INVALID\<close>), and the next query
  reports this as a valid VM exit.\<close>

theorem first_run_is_invalid:
  assumes "kenv_ok E" "svm_consistency E" "driver_reach E {c} m k" "phase_created E k" "created_with k"
    and "copy_from_user U arg sizeof_run = Some bs" "run_flags (decode_run bs) AND KERNOVA_RUN_ALLOW_PRIVILEGED \<noteq> 0"
    and "u_writable U arg sizeof_run"
  shows "\<exists>U' k'. kernova_ioctl E c True KERNOVA_IOCTL_RUN_VM arg U k = Some (0, U', k')
    \<and> run_exit_code (decode_run (read_bytes (u_mem U') arg sizeof_run)) = - 1
    \<and> run_runtime_state (decode_run (read_bytes (u_mem U') arg sizeof_run)) = state_code KERNOVA_STATE_VMEXIT_RECEIVED
    \<and> caps_last_vmexit_valid (k_caps k') = 1"
proof -
  let ?k = "kernova_refresh_caps_locked E True k"
  have i: "svm_inv E k" "msr_inv c m k" using driver_reach_inv [OF assms(3,1)] by simp_all
  have ph: "phase_created E ?k" and cw: "created_with ?k" using assms(4,5) by (simp_all add: created_with_def)
  have sv: "svme_on c ?k"
    using msr_inv_svme [of c m ?k] i(2) phase_initialized(3) [OF assms(4)] by simp
  show ?thesis
  proof (rule run_prepared_invalid [OF assms(1,2) ph cw sv TrueI assms(7)])
    fix q k2 assume r: "kernova_amd_svm_run E c True (decode_run bs) ?k = Some (0, q, k2)" "run_exit_code q = - 1"
      "run_runtime_state q = 5" "sv_last_exit_code (k_svm k2) = - 1"
    have w: "copy_to_user U arg (encode_run q) = Some (U\<lparr>u_mem := write_bytes arg (encode_run q) (u_mem U)\<rparr>)"
      using assms(8) by (simp add: copy_to_user_def length_encode)
    then show ?thesis
      using assms(6) r run_struct.store_load [where s = q]
      by (simp add: ioctl_dispatch ioctl_run_def refreshed_caps)
  qed
qed

theorem first_run_is_invalid_witness:
  "\<exists>U' k'. kernova_ioctl demo_env 0 True KERNOVA_IOCTL_RUN_VM 0x100 (caller 0x100 svm_run_request) demo_created = Some (0, U', k')
    \<and> run_exit_code (decode_run (read_bytes (u_mem U') 0x100 sizeof_run)) = - 1 \<and> caps_last_vmexit_valid (k_caps k') = 1"
  using first_run_is_invalid [OF demo_ok demo_consistency demo_created_reach demo_created_phase
      caller_read [of svm_run_request sizeof_run "0x100"]]
  by (auto simp: sizeof_run_def requests_decode KERNOVA_RUN_ALLOW_PRIVILEGED_def caller_def)

text \<open>C31: What a query reports: for a caller whose buffer is writable it returns 0 and the structure
  in the buffer decodes to the state: the phase as \<open>runtime_state\<close>, and the last exit as
  valid exactly when its code is not 0, so an exit with code 0 (a read of CR0) is reported
  as no exit at all.\<close>

theorem query_reports_state:
  assumes "u_writable U arg sizeof_caps"
  shows "\<exists>U'. kernova_ioctl E c allow KERNOVA_IOCTL_QUERY_CAPS arg U k = Some (0, U', kernova_refresh_caps_locked E allow k)
    \<and> (let q = decode_caps (read_bytes (u_mem U') arg sizeof_caps) in
         caps_runtime_state q = (case lifecycle k of Idle \<Rightarrow> 1 | Initialized \<Rightarrow> 2 | VmReady \<Rightarrow> 3)
         \<and> caps_svm_supported q = (if env_has_svm E then 1 else 0) \<and> caps_vmrun_enabled q = (if allow then 1 else 0)
         \<and> caps_last_exit_code q = sv_last_exit_code (k_svm k)
         \<and> caps_last_vmexit_valid q = (if sv_last_exit_code (k_svm k) = 0 then 0 else 1))"
proof -
  let ?c = "k_caps (kernova_refresh_caps_locked E allow k)"
  have wf: "caps_wf ?c" by (simp add: refreshed_caps)
  then have l: "length (encode_caps ?c) = sizeof_caps" by (simp add: length_encode)
  then have "copy_to_user U arg (encode_caps ?c) = Some (U\<lparr>u_mem := write_bytes arg (encode_caps ?c) (u_mem U)\<rparr>)"
    using assms by (simp add: copy_to_user_def)
  then show ?thesis
    using caps_struct.store_load [OF wf, of arg "u_mem U"]
    by (simp add: ioctl_dispatch ioctl_query_def Let_def refreshed_caps lifecycle_def)
qed

theorem query_reports_state_witness:
  "\<exists>U'. kernova_ioctl demo_env 0 True KERNOVA_IOCTL_QUERY_CAPS 0x100 (caller 0 []) demo_created
      = Some (0, U', kernova_refresh_caps_locked demo_env True demo_created)"
  using query_reports_state [of "caller 0 []" "0x100" demo_env 0 True demo_created] by (auto simp: caller_def)

lemma create_contents:
  assumes "kenv_ok E" "svm_inv E k" "kernova_amd_svm_create_vm E g k = Some (0, k')"
  shows "phase_created E k' \<and> created_with k'"
proof -
  have ok: "\<not> (\<not> sv_initialized (k_svm k) \<or> g \<noteq> 0 \<and> 4096 < g)"
    using create_refused [of k g E] assms(3) by auto
  have g: "g \<le> 4096"
  proof (cases "4096 < g")
    case True
    then have "g \<noteq> 0" by auto
    then show ?thesis using True ok by blast
  qed simp
  consider "phase_init E k" | "phase_created E k" using ok initialized_phase(1) [OF assms(2)] by blast
  then show ?thesis
  proof cases
    case 1
    show ?thesis by (rule create_init [OF assms(1) 1 g]) (use assms(3) in auto)
  next
    case 2
    show ?thesis by (rule create_created [OF 2 g]) (use assms(3) in auto)
  qed
qed

text \<open>C29: What a successful \<open>create_vm\<close> leaves, byte for byte. The VMCB page holds the fields of
  \<open>vmcb_image\<close> and zero everywhere else: of all intercepts only bit 24 of the word at 0x00C (HLT),
  ASID 1, TLB control 1, flat real-mode segments (attributes 0x93, code 0x9B, descriptor tables and
  LDT 0x82, TR 0x8B), EFER, CR3 and CR4 zero, CR0 0x10, RFLAGS 2, RIP the physical address of the guest
  page, RSP 16 bytes below its end, the next RIP three bytes in. The guest page is the program
  NOP, NOP, HLT, filled up with HLT.\<close>

theorem created_vm_contents:
  assumes "kenv_ok E" "driver_reach E cpus m k" "kernova_amd_svm_create_vm E guest_size k = Some (0, k')"
  shows "\<exists>p g. k_pages k' (sv_vmcb (k_svm k')) = Some p \<and> k_pages k' (sv_guest_page (k_svm k')) = Some g
    \<and> sv_vmcb (k_svm k') \<noteq> sv_guest_page (k_svm k')
    \<and> page_is p (vmcb_image (env_virt_to_phys E (sv_guest_page (k_svm k'))))
    \<and> length g = 4096 \<and> (\<forall>i<4096. g ! i = (if i < 2 then 0x90 else 0xF4))"
proof -
  have "svm_inv E k" by (rule driver_reach_any_inv [OF assms(2,1)])
  then have c: "phase_created E k'" "created_with k'" using create_contents [OF assms(1) _ assms(3)] by simp_all
  then have pa: "sv_guest_pa (k_svm k') = env_virt_to_phys E (sv_guest_page (k_svm k'))"
    and d: "sv_vmcb (k_svm k') \<noteq> sv_guest_page (k_svm k')"
    by (auto simp: phase_created_def Let_def held_def)
  have "length kernova_prepare_guest_page = 4096" "\<forall>i<4096. kernova_prepare_guest_page ! i = (if i < 2 then 0x90 else 0xF4)"
    by (auto simp: kernova_prepare_guest_page_def PAGE_def nth_list_update Let_def)
  then show ?thesis
    using c(2) pa d prepared_page_is by (simp add: created_with_def)
qed

theorem created_vm_contents_witness:
  "\<exists>k' p. kernova_amd_svm_create_vm demo_env 4096 (kernova_refresh_caps_locked demo_env True demo_init) = Some (0, k')
    \<and> k_pages k' (sv_vmcb (k_svm k')) = Some p \<and> page_read 0x00C 8 p = [0, 0, 0, 1, 0, 0, 0, 0]"
proof -
  obtain k' where k: "kernova_amd_svm_create_vm demo_env 4096 (kernova_refresh_caps_locked demo_env True demo_init) = Some (0, k')"
    using demo_create_call by blast
  have "(0x00C, [0, 0, 0, 1, 0, 0, 0, 0]) \<in> set (vmcb_image pa)" for pa by (simp add: vmcb_image_def)
  from page_is_field [OF _ this]
  have f: "page_read 0x00C 8 p = [0, 0, 0, 1, 0, 0, 0, 0]" if "page_is p (vmcb_image pa)" for p pa
    using that by (simp add: numeral_eq_Suc)
  show ?thesis using created_vm_contents [OF demo_ok demo_init_refreshed_reach k] k f by blast
qed

end
