(* ===== verification/Amd_Svm.thy ===== *)
theory Amd_Svm
  imports Cpu_Features
begin

text \<open>
  The userspace AMD SVM runtime, \<^verbatim>\<open>src/virtualization/amd_svm/amd_svm.cpp\<close> and
  \<^verbatim>\<open>include/virtualization/amd_svm.hpp\<close>: capabilities from the CPUID features, the VMCB
  page, and the runtime context with its state. Fields carry the prefix \<open>cap_\<close>,
  \<open>vmcb_\<close> or \<open>ctx_\<close>; a \<^verbatim>\<open>const char*\<close> is a string.

  Shown: when preparing succeeds and the exact VMCB it leaves, that a launch attempt never
  succeeds and uses the preparation up, and that the summary text agrees with the result.
\<close>

datatype svm_runtime_state = Unsupported | Supported | Prepared | LaunchBlocked | LaunchAttempted

record svm_capabilities =
  cap_supported :: bool
  cap_revision :: u32
  cap_asid_count :: u32
  cap_nested_paging :: bool
  cap_lbr_virtualization :: bool
  cap_svm_lock :: bool
  cap_nrip_save :: bool
  cap_tsc_rate_msr :: bool
  cap_vmcb_clean :: bool
  cap_flush_by_asid :: bool
  cap_decode_assists :: bool
  cap_pause_filter :: bool
  cap_pause_filter_threshold :: bool
  cap_avic :: bool
  cap_vmsave_virtualization :: bool
  cap_vgif :: bool

definition VMCB_SIZE :: nat where "VMCB_SIZE = 4096"
definition VMCB_CONTROL_AREA_SIZE :: nat where "VMCB_CONTROL_AREA_SIZE = 1024"
definition VMCB_SAVE_STATE_SIZE :: nat where "VMCB_SAVE_STATE_SIZE = 1024"
definition HOST_SAVE_AREA_SIZE :: nat where "HOST_SAVE_AREA_SIZE = 4096"

record vmcb =
  vmcb_control_area :: "u8 list"
  vmcb_save_state_area :: "u8 list"
  vmcb_reserved :: "u8 list"

record svm_context =
  ctx_vmcb :: vmcb
  ctx_host_save_area :: "u8 list"
  ctx_capabilities :: svm_capabilities
  ctx_state :: svm_runtime_state
  ctx_last_error :: string

text \<open>The value-initialised structures \<^verbatim>\<open>Vmcb{}\<close>, \<^verbatim>\<open>HostSaveArea{}\<close>,
  \<^verbatim>\<open>SvmCapabilities{}\<close>, \<^verbatim>\<open>SvmRuntimeContext{}\<close>.\<close>

definition blank_vmcb :: vmcb where
  "blank_vmcb = \<lparr>vmcb_control_area = replicate VMCB_CONTROL_AREA_SIZE 0,
     vmcb_save_state_area = replicate VMCB_SAVE_STATE_SIZE 0,
     vmcb_reserved = replicate (VMCB_SIZE - VMCB_CONTROL_AREA_SIZE - VMCB_SAVE_STATE_SIZE) 0\<rparr>"

definition blank_host_save_area :: "u8 list" where
  "blank_host_save_area = replicate HOST_SAVE_AREA_SIZE 0"

definition no_capabilities :: svm_capabilities where
  "no_capabilities = \<lparr>cap_supported = False, cap_revision = 0, cap_asid_count = 0, cap_nested_paging = False,
     cap_lbr_virtualization = False, cap_svm_lock = False, cap_nrip_save = False, cap_tsc_rate_msr = False,
     cap_vmcb_clean = False, cap_flush_by_asid = False, cap_decode_assists = False, cap_pause_filter = False,
     cap_pause_filter_threshold = False, cap_avic = False, cap_vmsave_virtualization = False, cap_vgif = False\<rparr>"

definition blank_context :: svm_context where
  "blank_context = \<lparr>ctx_vmcb = blank_vmcb, ctx_host_save_area = blank_host_save_area,
     ctx_capabilities = no_capabilities, ctx_state = Unsupported, ctx_last_error = ''not initialized''\<rparr>"

text \<open>The structure in memory: one page.\<close>

definition vmcb_page :: "vmcb \<Rightarrow> u8 list" where
  "vmcb_page v = vmcb_control_area v @ vmcb_save_state_area v @ vmcb_reserved v"

definition has_minimum_runtime_support :: "svm_capabilities \<Rightarrow> bool" where
  "has_minimum_runtime_support c \<longleftrightarrow> cap_supported c \<and> cap_revision c \<noteq> 0 \<and> cap_asid_count c \<noteq> 0"

definition capabilities_from_cpu_features :: "cpu_features \<Rightarrow> svm_capabilities" where
  "capabilities_from_cpu_features f =
     (let c = no_capabilities;
          c = c\<lparr>cap_supported := vendor f = AMD \<and> svm f\<rparr>;
          c = c\<lparr>cap_revision := svm_revision f\<rparr>;
          c = c\<lparr>cap_asid_count := svm_asid_count f\<rparr>;
          c = c\<lparr>cap_nested_paging := svm_nested_paging f\<rparr>;
          c = c\<lparr>cap_lbr_virtualization := svm_lbr_virtualization f\<rparr>;
          c = c\<lparr>cap_svm_lock := svm_lock f\<rparr>;
          c = c\<lparr>cap_nrip_save := svm_nrip_save f\<rparr>;
          c = c\<lparr>cap_tsc_rate_msr := svm_tsc_rate_msr f\<rparr>;
          c = c\<lparr>cap_vmcb_clean := svm_vmcb_clean f\<rparr>;
          c = c\<lparr>cap_flush_by_asid := svm_flush_by_asid f\<rparr>;
          c = c\<lparr>cap_decode_assists := svm_decode_assists f\<rparr>;
          c = c\<lparr>cap_pause_filter := svm_pause_filter f\<rparr>;
          c = c\<lparr>cap_pause_filter_threshold := svm_pause_filter_threshold f\<rparr>;
          c = c\<lparr>cap_avic := svm_avic f\<rparr>;
          c = c\<lparr>cap_vmsave_virtualization := svm_vmsave_virtualization f\<rparr>
      in c\<lparr>cap_vgif := svm_vgif f\<rparr>)"

definition initialize_vmcb :: "vmcb \<Rightarrow> vmcb" where
  "initialize_vmcb v = blank_vmcb"

definition initialize_host_save_area :: "u8 list \<Rightarrow> u8 list" where
  "initialize_host_save_area h = blank_host_save_area"

text \<open>The lambdas \<open>write16\<close> and \<open>write32\<close> of \<open>prepare_minimal_vmcb\<close>.\<close>

definition vmcb_write16 :: "nat \<Rightarrow> u16 \<Rightarrow> vmcb \<Rightarrow> vmcb" where
  "vmcb_write16 offset value v =
     (let v = v\<lparr>vmcb_control_area := (vmcb_control_area v)[offset + 0 := ucast (value AND 0xFF)]\<rparr>
      in v\<lparr>vmcb_control_area := (vmcb_control_area v)[offset + 1 := ucast (drop_bit 8 value AND 0xFF)]\<rparr>)"

definition vmcb_write32 :: "nat \<Rightarrow> u32 \<Rightarrow> vmcb \<Rightarrow> vmcb" where
  "vmcb_write32 offset value v =
     (let v = v\<lparr>vmcb_control_area := (vmcb_control_area v)[offset + 0 := ucast (value AND 0xFF)]\<rparr>;
          v = v\<lparr>vmcb_control_area := (vmcb_control_area v)[offset + 1 := ucast (drop_bit 8 value AND 0xFF)]\<rparr>;
          v = v\<lparr>vmcb_control_area := (vmcb_control_area v)[offset + 2 := ucast (drop_bit 16 value AND 0xFF)]\<rparr>
      in v\<lparr>vmcb_control_area := (vmcb_control_area v)[offset + 3 := ucast (drop_bit 24 value AND 0xFF)]\<rparr>)"

definition prepare_minimal_vmcb :: "vmcb \<Rightarrow> svm_capabilities \<Rightarrow> vmcb" where
  "prepare_minimal_vmcb v c =
     (let v = initialize_vmcb v;
          v = vmcb_write16 0x000 0xFFFF v;
          v = vmcb_write16 0x002 0xFFFF v;
          v = vmcb_write32 0x00C 1 v;
          v = (if cap_nested_paging c then vmcb_write32 0x090 1 v else v);
          v = (if cap_vmcb_clean c then vmcb_write32 0x0C0 0 v else v)
      in v)"

definition capability_summary :: "svm_capabilities \<Rightarrow> string" where
  "capability_summary c =
     (if \<not> cap_supported c then ''AMD SVM is not advertised by CPUID''
      else if \<not> has_minimum_runtime_support c then ''AMD SVM is present, but minimum runtime metadata is incomplete''
      else if cap_nested_paging c \<and> cap_nrip_save c then ''AMD SVM is present with nested paging and NRIP save''
      else ''AMD SVM is present with baseline VMRUN support'')"

definition prepare_runtime_context :: "svm_context \<Rightarrow> cpu_features \<Rightarrow> int \<times> svm_context" where
  "prepare_runtime_context x f =
     (let x = blank_context;
          x = x\<lparr>ctx_capabilities := capabilities_from_cpu_features f\<rparr>
      in if \<not> has_minimum_runtime_support (ctx_capabilities x) then
           let x = x\<lparr>ctx_state := Unsupported\<rparr>;
               x = x\<lparr>ctx_last_error := capability_summary (ctx_capabilities x)\<rparr>
           in (- 1, x)
         else
           let x = x\<lparr>ctx_host_save_area := initialize_host_save_area (ctx_host_save_area x)\<rparr>;
               x = x\<lparr>ctx_vmcb := prepare_minimal_vmcb (ctx_vmcb x) (ctx_capabilities x)\<rparr>;
               x = x\<lparr>ctx_state := Prepared\<rparr>;
               x = x\<lparr>ctx_last_error := ''AMD SVM runtime context prepared; VMRUN requires privileged execution''\<rparr>
           in (0, x))"

definition attempt_vmrun :: "svm_context \<Rightarrow> int \<times> svm_context" where
  "attempt_vmrun x =
     (if ctx_state x \<noteq> Prepared then (- 1, x\<lparr>ctx_last_error := ''AMD SVM context is not prepared''\<rparr>)
      else
        let x = x\<lparr>ctx_state := LaunchBlocked\<rparr>;
            x = x\<lparr>ctx_last_error := ''VMRUN is blocked in userspace builds; use the Linux kernel driver for privileged execution''\<rparr>
        in (- 2, x))"

fun runtime_state_name :: "svm_runtime_state \<Rightarrow> string" where
  "runtime_state_name Unsupported = ''unsupported''"
| "runtime_state_name Supported = ''supported''"
| "runtime_state_name Prepared = ''prepared''"
| "runtime_state_name LaunchBlocked = ''launch-blocked''"
| "runtime_state_name LaunchAttempted = ''launch-attempted''"

section \<open>The prepared control area\<close>

lemma prepared_control_area:
  assumes "i < 1024"
  shows "vmcb_control_area (prepare_minimal_vmcb v c) ! i =
    (if i \<in> {0, 1, 2, 3} then 0xFF else if i = 0x00C then 1
     else if i = 0x090 \<and> cap_nested_paging c then 1 else 0)"
  using assms
  by (simp add: prepare_minimal_vmcb_def vmcb_write16_def vmcb_write32_def initialize_vmcb_def blank_vmcb_def
      VMCB_CONTROL_AREA_SIZE_def nth_list_update Let_def)

lemma prepared_page:
  "length (vmcb_page (prepare_minimal_vmcb v c)) = VMCB_SIZE"
  "vmcb_save_state_area (prepare_minimal_vmcb v c) = replicate 1024 0"
  "vmcb_reserved (prepare_minimal_vmcb v c) = replicate 2048 0"
  "length (vmcb_control_area (prepare_minimal_vmcb v c)) = 1024"
  by (simp_all add: vmcb_page_def prepare_minimal_vmcb_def vmcb_write16_def vmcb_write32_def initialize_vmcb_def
      blank_vmcb_def VMCB_SIZE_def VMCB_CONTROL_AREA_SIZE_def VMCB_SAVE_STATE_SIZE_def Let_def)

lemma prepared_page_bytes:
  assumes "i < 4096"
  shows "vmcb_page (prepare_minimal_vmcb v c) ! i =
    (if i \<in> {0, 1, 2, 3} then 0xFF else if i = 0x00C then 1
     else if i = 0x090 \<and> cap_nested_paging c then 1 else 0)"
  using assms prepared_control_area [of i v c]
  by (cases "i < 1024") (auto simp: vmcb_page_def prepared_page nth_append)

lemma capability_fields [simp]:
  "cap_supported (capabilities_from_cpu_features f) \<longleftrightarrow> vendor f = AMD \<and> svm f"
  "cap_revision (capabilities_from_cpu_features f) = svm_revision f"
  "cap_asid_count (capabilities_from_cpu_features f) = svm_asid_count f"
  "cap_nested_paging (capabilities_from_cpu_features f) = svm_nested_paging f"
  "cap_nrip_save (capabilities_from_cpu_features f) = svm_nrip_save f"
  "cap_vmcb_clean (capabilities_from_cpu_features f) = svm_vmcb_clean f"
  by (simp_all add: capabilities_from_cpu_features_def Let_def)

definition svm_usable :: "cpu_features \<Rightarrow> bool" where
  "svm_usable f \<longleftrightarrow> vendor f = AMD \<and> svm f \<and> svm_revision f \<noteq> 0 \<and> svm_asid_count f \<noteq> 0"

lemma minimum_iff: "has_minimum_runtime_support (capabilities_from_cpu_features f) \<longleftrightarrow> svm_usable f"
  by (simp add: has_minimum_runtime_support_def svm_usable_def conj_assoc)

lemma prepare_success:
  assumes "svm_usable f"
  shows "prepare_runtime_context x f = (0, \<lparr>ctx_vmcb = prepare_minimal_vmcb blank_vmcb (capabilities_from_cpu_features f),
    ctx_host_save_area = blank_host_save_area, ctx_capabilities = capabilities_from_cpu_features f,
    ctx_state = Prepared,
    ctx_last_error = ''AMD SVM runtime context prepared; VMRUN requires privileged execution''\<rparr>)"
  using assms
  by (simp add: prepare_runtime_context_def Let_def minimum_iff blank_context_def initialize_host_save_area_def)

lemma prepare_failure:
  assumes "\<not> svm_usable f"
  shows "prepare_runtime_context x f = (- 1, blank_context\<lparr>ctx_capabilities := capabilities_from_cpu_features f,
    ctx_state := Unsupported, ctx_last_error := capability_summary (capabilities_from_cpu_features f)\<rparr>)"
  using assms by (simp add: prepare_runtime_context_def Let_def minimum_iff)

text \<open>What a program can do with a context.\<close>

inductive svm_reach :: "svm_context \<Rightarrow> bool" where
  fresh: "svm_reach blank_context"
| prepare: "svm_reach x \<Longrightarrow> prepare_runtime_context x f = (r, x') \<Longrightarrow> svm_reach x'"
| attempt: "svm_reach x \<Longrightarrow> attempt_vmrun x = (r, x') \<Longrightarrow> svm_reach x'"

lemma svm_reach_state: "svm_reach x \<Longrightarrow> ctx_state x \<in> {Unsupported, Prepared, LaunchBlocked}
    \<and> (ctx_state x \<noteq> Unsupported \<longrightarrow> has_minimum_runtime_support (ctx_capabilities x))"
proof (induction rule: svm_reach.induct)
  case (prepare x f r x')
  then show ?case using prepare_success [of f x] prepare_failure [of f x] by (cases "svm_usable f") (auto simp: minimum_iff)
next
  case (attempt x r x')
  then show ?case by (auto simp: attempt_vmrun_def Let_def split: if_splits)
qed (simp add: blank_context_def)

section \<open>Properties\<close>

text \<open>C40: \<open>prepare_runtime_context\<close> succeeds exactly on an AMD CPU with SVM, a revision and ASIDs, and
  then leaves one 4 KiB VMCB with these bytes and no others set, in the whole page: all
  control-register accesses intercepted (bytes 0 to 3), INTR (byte 0x00C), nested paging enabled
  if the CPU has it (byte 0x090). In particular the ASID is 0 and the save area is blank.
  Otherwise it returns -1 and the context holds a blank VMCB and says why.\<close>

theorem prepare_context_vmcb:
  "(svm_usable f \<longrightarrow> fst (prepare_runtime_context x f) = 0
      \<and> ctx_state (snd (prepare_runtime_context x f)) = Prepared
      \<and> length (vmcb_page (ctx_vmcb (snd (prepare_runtime_context x f)))) = 4096
      \<and> (\<forall>i<4096. vmcb_page (ctx_vmcb (snd (prepare_runtime_context x f))) ! i =
           (if i \<in> {0, 1, 2, 3} then 0xFF else if i = 0x00C then 1
            else if i = 0x090 \<and> svm_nested_paging f then 1 else 0)))
   \<and> (\<not> svm_usable f \<longrightarrow> fst (prepare_runtime_context x f) = - 1
      \<and> ctx_state (snd (prepare_runtime_context x f)) = Unsupported
      \<and> ctx_vmcb (snd (prepare_runtime_context x f)) = blank_vmcb
      \<and> ctx_last_error (snd (prepare_runtime_context x f)) = (if vendor f = AMD \<and> svm f
           then ''AMD SVM is present, but minimum runtime metadata is incomplete''
           else ''AMD SVM is not advertised by CPUID''))"
proof (cases "svm_usable f")
  case True
  then show ?thesis by (simp add: prepare_success prepared_page_bytes prepared_page(1) VMCB_SIZE_def)
next
  case False
  then show ?thesis
    by (simp add: prepare_failure capability_summary_def minimum_iff) (simp add: blank_context_def)
qed

theorem prepare_context_vmcb_witness:
  "fst (prepare_runtime_context blank_context (no_features\<lparr>vendor := AMD, svm := True, svm_revision := 1, svm_asid_count := 8\<rparr>)) = 0"
  using prepare_context_vmcb [of "no_features\<lparr>vendor := AMD, svm := True, svm_revision := 1, svm_asid_count := 8\<rparr>" blank_context]
  by (simp add: svm_usable_def)

text \<open>A launch never succeeds in userspace. In every reachable context \<open>attempt_vmrun\<close> returns -2 if
  the context is prepared and -1 otherwise, leaves the VMCB as it is, and uses the
  preparation up: a second attempt is refused. \<open>LaunchAttempted\<close> and \<open>Supported\<close> are
  never reached.\<close>

theorem launch_never_succeeds:
  assumes "svm_reach x"
  shows "ctx_state x \<in> {Unsupported, Prepared, LaunchBlocked}
    \<and> fst (attempt_vmrun x) = (if ctx_state x = Prepared then - 2 else - 1)
    \<and> ctx_vmcb (snd (attempt_vmrun x)) = ctx_vmcb x
    \<and> fst (attempt_vmrun (snd (attempt_vmrun x))) = - 1"
  using svm_reach_state [OF assms] by (auto simp: attempt_vmrun_def Let_def)

theorem launch_never_succeeds_witness:
  "fst (attempt_vmrun blank_context) = - 1"
  using launch_never_succeeds [OF svm_reach.fresh] by (simp add: blank_context_def)

end
