(* ===== verification/Backend.thy ===== *)
theory Backend
  imports Kernel_Driver Amd_Svm
begin

text \<open>
  \<^verbatim>\<open>src/virtualization/hypervisor_backend.cpp\<close>, its header, and the stubs of
  \<^verbatim>\<open>src/vmx_stubs.cpp\<close> that the userspace build links: the four backends and their
  selection. \<open>world\<close> holds the objects of the three backends that have state and the kernel
  they talk to; a virtual call is a case distinction on the kind. The operating system is
  \<open>os\<close>: CPUID, the environment variables, the result of opening the device, and where the
  process keeps its request structures. A system call runs the driver of \<open>Kernel_Driver\<close>.
  \<open>None\<close> is a crash of the kernel. Output is not modelled.

  The text of a status is a pointer: \<open>Literal\<close> for static text, \<open>Local\<close> for a pointer into
  the stack frame of the function that returned it.
\<close>

section \<open>State\<close>

datatype backend_kind = UserspacePoC | KernelDriver | IntelVMX | AmdSVM

datatype c_text = Literal string | Local "u8 list"

record backend_status =
  bs_kind :: backend_kind
  bs_cpu :: cpu_features
  bs_hardware_supported :: bool
  bs_hardware_validated :: bool
  bs_kernel_driver_available :: bool
  bs_mode :: string
  bs_reason :: c_text

definition default_status :: backend_status where
  "default_status = \<lparr>bs_kind = UserspacePoC, bs_cpu = no_features, bs_hardware_supported = False,
     bs_hardware_validated = False, bs_kernel_driver_available = False, bs_mode = ''userspace-poc'',
     bs_reason = Literal ''hardware virtualization backend not selected''\<rparr>"

record kernel_driver_backend =
  kd_fd :: int
  kd_initialized :: bool
  kd_configured :: bool

record intel_vmx_backend =
  iv_initialized :: bool
  iv_configured :: bool

record world =
  w_kd :: kernel_driver_backend
  w_intel :: intel_vmx_backend
  w_amd :: svm_context
  w_kernel :: kernel

definition fresh_kd :: kernel_driver_backend where
  "fresh_kd = \<lparr>kd_fd = - 1, kd_initialized = False, kd_configured = False\<rparr>"

definition fresh_intel :: intel_vmx_backend where
  "fresh_intel = \<lparr>iv_initialized = False, iv_configured = False\<rparr>"

record os =
  os_cpuid :: cpuid_fn
  os_getenv :: "string \<Rightarrow> string option"
  os_open :: int
  os_kenv :: kenv
  os_cpu :: nat
  os_allow_vmrun :: bool
  os_stack :: u64

text \<open>The assembly entry points the Intel backend calls, by their results.\<close>

record vmx_api =
  api_vmx_init :: u64
  api_vmcs_setup :: u64
  api_vmx_launch :: u64

definition vmx_init_stub :: u64 where "vmx_init_stub = 0"
definition vmcs_setup_stub :: u64 where "vmcs_setup_stub = 0"
definition vmx_launch_stub :: u64 where "vmx_launch_stub = 0"

definition vmx_stubs :: vmx_api where
  "vmx_stubs = \<lparr>api_vmx_init = vmx_init_stub, api_vmcs_setup = vmcs_setup_stub, api_vmx_launch = vmx_launch_stub\<rparr>"

definition hardware_backend_enabled :: "os \<Rightarrow> bool" where
  "hardware_backend_enabled Os \<longleftrightarrow>
     os_getenv Os ''KERNOVA_ENABLE_HARDWARE_BACKEND'' = Some ''1'' \<or> os_getenv Os ''KERNOVA_STRICT_VMX'' = Some ''1''"

section \<open>The userspace backend\<close>

definition userspace_status :: "os \<Rightarrow> backend_status" where
  "userspace_status Os =
     default_status\<lparr>bs_kind := UserspacePoC, bs_cpu := detect_cpu_features (os_cpuid Os),
       bs_hardware_supported := False, bs_hardware_validated := False, bs_mode := ''userspace-poc'',
       bs_reason := Literal ''hardware virtualization backend unavailable in this environment''\<rparr>"

section \<open>The kernel driver backend\<close>

text \<open>\<^verbatim>\<open>::ioctl(fd, cmd, &s)\<close> with the bytes of \<open>s\<close>: the result (-1 for an error), the bytes
  afterwards, the world afterwards.\<close>

definition sys_ioctl :: "os \<Rightarrow> u32 \<Rightarrow> u8 list \<Rightarrow> world \<Rightarrow> (int \<times> u8 list \<times> world) option" where
  "sys_ioctl Os cmd bs W =
     (case kernova_ioctl (os_kenv Os) (os_cpu Os) (os_allow_vmrun Os) cmd (os_stack Os) (caller (os_stack Os) bs) (w_kernel W) of
        None \<Rightarrow> None
      | Some (r, U, k) \<Rightarrow>
          Some (if r < 0 then - 1 else r, read_bytes (u_mem U) (os_stack Os) (length bs), W\<lparr>w_kernel := k\<rparr>))"

definition kd_available :: "os \<Rightarrow> world \<Rightarrow> bool \<times> world" where
  "kd_available Os W =
     (if 0 \<le> kd_fd (w_kd W) then (True, W)
      else let W = W\<lparr>w_kd := (w_kd W)\<lparr>kd_fd := os_open Os\<rparr>\<rparr> in (0 \<le> kd_fd (w_kd W), W))"

definition query_caps :: "os \<Rightarrow> world \<Rightarrow> (int \<times> kernova_caps \<times> world) option" where
  "query_caps Os W =
     (case sys_ioctl Os KERNOVA_IOCTL_QUERY_CAPS (encode_caps zero_caps) W of
        None \<Rightarrow> None
      | Some (r, bs, W) \<Rightarrow> Some (r, decode_caps bs, W))"

definition kd_status :: "os \<Rightarrow> world \<Rightarrow> (backend_status \<times> world) option" where
  "kd_status Os W =
     (let s = default_status;
          s = s\<lparr>bs_kind := KernelDriver\<rparr>;
          s = s\<lparr>bs_cpu := detect_cpu_features (os_cpuid Os)\<rparr>;
          s = s\<lparr>bs_kernel_driver_available := 0 \<le> kd_fd (w_kd W)\<rparr>;
          s = s\<lparr>bs_hardware_supported := False, bs_hardware_validated := False\<rparr>;
          s = s\<lparr>bs_mode := ''kernel-driver-unavailable'', bs_reason := Literal ''Kernova kernel driver is not loaded''\<rparr>
      in if kd_fd (w_kd W) < 0 then Some (s, W)
         else case query_caps Os W of
           None \<Rightarrow> None
         | Some (r, caps, W) \<Rightarrow>
             if r \<noteq> 0 then
               Some (s\<lparr>bs_mode := ''kernel-driver-error'',
                       bs_reason := Literal ''Kernova kernel driver did not respond to QUERY_CAPS''\<rparr>, W)
             else
               let s = s\<lparr>bs_kernel_driver_available := caps_driver_loaded caps \<noteq> 0\<rparr>;
                   s = s\<lparr>bs_hardware_supported := caps_svm_supported caps \<noteq> 0 \<or> caps_vmx_supported caps \<noteq> 0\<rparr>;
                   s = s\<lparr>bs_hardware_validated := caps_last_vmexit_valid caps \<noteq> 0\<rparr>;
                   s = s\<lparr>bs_mode := if caps_last_vmexit_valid caps \<noteq> 0 then ''kernel-driver-vmexit''
                          else if caps_vm_created caps \<noteq> 0 then ''kernel-driver-vm-created'' else ''kernel-driver-ready''\<rparr>
               in Some (s\<lparr>bs_reason := Local (caps_driver_name caps)\<rparr>, W))"

definition kd_init :: "os \<Rightarrow> world \<Rightarrow> (int \<times> world) option" where
  "kd_init Os W =
     (let (there, W) = kd_available Os W in
      if \<not> there then Some (- 1, W)
      else case query_caps Os W of
        None \<Rightarrow> None
      | Some (r, caps, W) \<Rightarrow>
          if r \<noteq> 0 then Some (- 2, W)
          else if caps_svm_supported caps = 0 \<and> caps_vmx_supported caps = 0 then Some (- 3, W)
          else
            let request = \<lparr>init_backend_flags = if caps_svm_supported caps \<noteq> 0 then KERNOVA_BACKEND_AMD_SVM
                             else KERNOVA_BACKEND_INTEL_VMX, init_reserved = 0\<rparr>
            in case sys_ioctl Os KERNOVA_IOCTL_INIT_BACKEND (encode_init request) W of
                 None \<Rightarrow> None
               | Some (r, _, W) \<Rightarrow>
                   if r \<noteq> 0 then Some (- 4, W)
                   else Some (0, W\<lparr>w_kd := (w_kd W)\<lparr>kd_initialized := True\<rparr>\<rparr>))"

definition kd_setup_guest :: "os \<Rightarrow> world \<Rightarrow> (int \<times> world) option" where
  "kd_setup_guest Os W =
     (if kd_fd (w_kd W) < 0 \<or> \<not> kd_initialized (w_kd W) then Some (- 1, W)
      else case query_caps Os W of
        None \<Rightarrow> None
      | Some (r, caps, W) \<Rightarrow>
          if r \<noteq> 0 then Some (- 2, W)
          else
            let request = \<lparr>create_backend_flags = if caps_svm_supported caps \<noteq> 0 then KERNOVA_BACKEND_AMD_SVM
                             else KERNOVA_BACKEND_INTEL_VMX, create_guest_size = 4096\<rparr>
            in case sys_ioctl Os KERNOVA_IOCTL_CREATE_VM (encode_create request) W of
                 None \<Rightarrow> None
               | Some (r, _, W) \<Rightarrow>
                   if r \<noteq> 0 then Some (- 3, W)
                   else Some (0, W\<lparr>w_kd := (w_kd W)\<lparr>kd_configured := True\<rparr>\<rparr>))"

text \<open>The request of \<open>launch\<close>; \<^verbatim>\<open>request.status\<close> is an \<^verbatim>\<open>int32_t\<close>.\<close>

definition launch_request :: "os \<Rightarrow> kernova_run_request" where
  "launch_request Os = \<lparr>run_flags = if hardware_backend_enabled Os then KERNOVA_RUN_ALLOW_PRIVILEGED else 0,
     run_reserved = 0, run_runtime_state = 0, run_status = 0, run_exit_code = 0, run_exit_info1 = 0, run_exit_info2 = 0\<rparr>"

definition kd_launch :: "os \<Rightarrow> world \<Rightarrow> (int \<times> world) option" where
  "kd_launch Os W =
     (if kd_fd (w_kd W) < 0 \<or> \<not> kd_configured (w_kd W) then Some (- 1, W)
      else case sys_ioctl Os KERNOVA_IOCTL_RUN_VM (encode_run (launch_request Os)) W of
        None \<Rightarrow> None
      | Some (r, bs, W) \<Rightarrow>
          if r \<noteq> 0 then Some (if run_status (decode_run bs) \<noteq> 0 then sint (run_status (decode_run bs)) else - 2, W)
          else Some (0, W))"

definition kd_shutdown :: "os \<Rightarrow> world \<Rightarrow> world option" where
  "kd_shutdown Os W =
     (case (if 0 \<le> kd_fd (w_kd W) then
              (case sys_ioctl Os KERNOVA_IOCTL_DESTROY_VM [] W of
                 None \<Rightarrow> None
               | Some (_, _, W) \<Rightarrow> Some (W\<lparr>w_kd := (w_kd W)\<lparr>kd_fd := - 1\<rparr>\<rparr>))
            else Some W) of
        None \<Rightarrow> None
      | Some W \<Rightarrow> Some (W\<lparr>w_kd := (w_kd W)\<lparr>kd_initialized := False, kd_configured := False\<rparr>\<rparr>))"

section \<open>The Intel backend\<close>

definition intel_status :: "os \<Rightarrow> world \<Rightarrow> backend_status" where
  "intel_status Os W =
     (let s = default_status;
          s = s\<lparr>bs_kind := IntelVMX\<rparr>;
          s = s\<lparr>bs_cpu := detect_cpu_features (os_cpuid Os)\<rparr>;
          s = s\<lparr>bs_hardware_supported := vendor (bs_cpu s) = Intel \<and> vmx (bs_cpu s)\<rparr>;
          s = s\<lparr>bs_hardware_validated := iv_initialized (w_intel W) \<and> iv_configured (w_intel W)\<rparr>;
          s = s\<lparr>bs_mode := if bs_hardware_validated s then ''hardware-vmx'' else ''hardware-vmx-pending''\<rparr>
      in s\<lparr>bs_reason := Literal (if bs_hardware_supported s then ''Intel VMX is advertised by CPUID''
             else ''Intel VMX is not available on this CPU/runtime'')\<rparr>)"

definition intel_init :: "os \<Rightarrow> vmx_api \<Rightarrow> world \<Rightarrow> int \<times> world" where
  "intel_init Os A W =
     (let current = intel_status Os W in
      if \<not> bs_hardware_supported current then (- 1, W)
      else if \<not> hardware_backend_enabled Os then (- 3, W)
      else if api_vmx_init A \<noteq> 0 then (- 2, W)
      else (0, W\<lparr>w_intel := (w_intel W)\<lparr>iv_initialized := True\<rparr>\<rparr>))"

definition intel_setup_guest :: "vmx_api \<Rightarrow> world \<Rightarrow> int \<times> world" where
  "intel_setup_guest A W =
     (if \<not> iv_initialized (w_intel W) then (- 1, W)
      else if api_vmcs_setup A \<noteq> 0 then (- 2, W)
      else (0, W\<lparr>w_intel := (w_intel W)\<lparr>iv_configured := True\<rparr>\<rparr>))"

text \<open>\<^verbatim>\<open>static_cast<int>\<close> keeps the low 32 bits.\<close>

definition intel_launch :: "vmx_api \<Rightarrow> world \<Rightarrow> int \<times> world" where
  "intel_launch A W =
     (if \<not> iv_configured (w_intel W) then (- 1, W)
      else (sint (ucast (api_vmx_launch A) :: u32), W))"

definition intel_shutdown :: "world \<Rightarrow> world" where
  "intel_shutdown W =
     (if iv_initialized (w_intel W) then W\<lparr>w_intel := (w_intel W)\<lparr>iv_initialized := False, iv_configured := False\<rparr>\<rparr> else W)"

section \<open>The AMD backend\<close>

definition amd_status :: "os \<Rightarrow> world \<Rightarrow> backend_status" where
  "amd_status Os W =
     (let s = default_status;
          s = s\<lparr>bs_kind := AmdSVM\<rparr>;
          s = s\<lparr>bs_cpu := detect_cpu_features (os_cpuid Os)\<rparr>;
          capabilities = capabilities_from_cpu_features (bs_cpu s);
          s = s\<lparr>bs_hardware_supported := has_minimum_runtime_support capabilities\<rparr>;
          s = s\<lparr>bs_hardware_validated := False\<rparr>;
          s = s\<lparr>bs_mode := runtime_state_name (ctx_state (w_amd W))\<rparr>
      in s\<lparr>bs_reason := Literal (ctx_last_error (w_amd W))\<rparr>)"

definition amd_init :: "os \<Rightarrow> world \<Rightarrow> int \<times> world" where
  "amd_init Os W =
     (let features = detect_cpu_features (os_cpuid Os);
          (r, context) = prepare_runtime_context (w_amd W) features;
          W = W\<lparr>w_amd := context\<rparr>
      in if r \<noteq> 0 then (r, W) else (0, W))"

definition amd_setup_guest :: "world \<Rightarrow> int \<times> world" where
  "amd_setup_guest W = (if ctx_state (w_amd W) \<noteq> Prepared then (- 1, W) else (0, W))"

definition amd_launch :: "world \<Rightarrow> int \<times> world" where
  "amd_launch W = (let (r, context) = attempt_vmrun (w_amd W) in (r, W\<lparr>w_amd := context\<rparr>))"

definition amd_shutdown :: "world \<Rightarrow> world" where
  "amd_shutdown W = W\<lparr>w_amd := blank_context\<rparr>"

section \<open>Virtual calls and selection\<close>

fun backend_status_of :: "backend_kind \<Rightarrow> os \<Rightarrow> world \<Rightarrow> (backend_status \<times> world) option" where
  "backend_status_of UserspacePoC Os W = Some (userspace_status Os, W)"
| "backend_status_of KernelDriver Os W = kd_status Os W"
| "backend_status_of IntelVMX Os W = Some (intel_status Os W, W)"
| "backend_status_of AmdSVM Os W = Some (amd_status Os W, W)"

fun backend_init :: "backend_kind \<Rightarrow> os \<Rightarrow> vmx_api \<Rightarrow> world \<Rightarrow> (int \<times> world) option" where
  "backend_init UserspacePoC Os A W = Some (0, W)"
| "backend_init KernelDriver Os A W = kd_init Os W"
| "backend_init IntelVMX Os A W = Some (intel_init Os A W)"
| "backend_init AmdSVM Os A W = Some (amd_init Os W)"

fun backend_setup_guest :: "backend_kind \<Rightarrow> os \<Rightarrow> vmx_api \<Rightarrow> world \<Rightarrow> (int \<times> world) option" where
  "backend_setup_guest UserspacePoC Os A W = Some (0, W)"
| "backend_setup_guest KernelDriver Os A W = kd_setup_guest Os W"
| "backend_setup_guest IntelVMX Os A W = Some (intel_setup_guest A W)"
| "backend_setup_guest AmdSVM Os A W = Some (amd_setup_guest W)"

fun backend_launch :: "backend_kind \<Rightarrow> os \<Rightarrow> vmx_api \<Rightarrow> world \<Rightarrow> (int \<times> world) option" where
  "backend_launch UserspacePoC Os A W = Some (0, W)"
| "backend_launch KernelDriver Os A W = kd_launch Os W"
| "backend_launch IntelVMX Os A W = Some (intel_launch A W)"
| "backend_launch AmdSVM Os A W = Some (amd_launch W)"

fun backend_shutdown :: "backend_kind \<Rightarrow> os \<Rightarrow> world \<Rightarrow> world option" where
  "backend_shutdown UserspacePoC Os W = Some W"
| "backend_shutdown KernelDriver Os W = kd_shutdown Os W"
| "backend_shutdown IntelVMX Os W = Some (intel_shutdown W)"
| "backend_shutdown AmdSVM Os W = Some (amd_shutdown W)"

definition select_backend :: "os \<Rightarrow> world \<Rightarrow> backend_kind \<times> world" where
  "select_backend Os W =
     (let features = detect_cpu_features (os_cpuid Os);
          (there, W) = kd_available Os W
      in if there then (KernelDriver, W)
         else if vendor features = Intel \<and> vmx features then (IntelVMX, W)
         else if vendor features = AMD \<and> svm features then (AmdSVM, W)
         else (UserspacePoC, W))"

text \<open>The virtual \<^verbatim>\<open>name()\<close>.\<close>

fun backend_name :: "backend_kind \<Rightarrow> string" where
  "backend_name UserspacePoC = ''Userspace PoC''"
| "backend_name KernelDriver = ''Kernel Driver''"
| "backend_name IntelVMX = ''Intel VMX''"
| "backend_name AmdSVM = ''AMD SVM''"

fun backend_kind_name :: "backend_kind \<Rightarrow> string" where
  "backend_kind_name KernelDriver = ''Kernel Driver''"
| "backend_kind_name IntelVMX = ''Intel VMX''"
| "backend_kind_name AmdSVM = ''AMD SVM''"
| "backend_kind_name UserspacePoC = ''Userspace PoC''"

section \<open>The device as its client sees it\<close>

text \<open>What the kernel driver backend relies on: in good states every request returns, stays in good
  states and moves the phase as the life cycle says; an idle device holds nothing.\<close>

locale kernova_device =
  fixes request :: "u32 \<Rightarrow> u8 list \<Rightarrow> 'w \<Rightarrow> (int \<times> u8 list \<times> 'w) option"
    and phase :: "'w \<Rightarrow> lifecycle"
    and good :: "'w \<Rightarrow> bool"
    and clean :: "'w \<Rightarrow> bool"
  assumes answers: "good w \<Longrightarrow> \<exists>r bs' w'. request cmd bs w = Some (r, bs', w') \<and> good w'"
    and moves: "good w \<Longrightarrow> IOC_TYPE cmd = KERNOVA_IOCTL_MAGIC \<Longrightarrow> request cmd bs w = Some (r, bs', w') \<Longrightarrow>
      (r = 0 \<longrightarrow> lifecycle_step cmd 0 (phase w) (phase w')) \<and> (r \<noteq> 0 \<longrightarrow> lifecycle_step cmd (- 1) (phase w) (phase w'))"
    and idle_clean: "good w \<Longrightarrow> phase w = Idle \<Longrightarrow> clean w"
begin

lemma stays_good: "good w \<Longrightarrow> request cmd bs w = Some (r, bs', w') \<Longrightarrow> good w'"
  using answers [of w cmd bs] by auto

lemma init_ready:
  "good w \<Longrightarrow> request KERNOVA_IOCTL_INIT_BACKEND bs w = Some (0, bs', w') \<Longrightarrow> phase w' \<noteq> Idle"
  using moves [of w KERNOVA_IOCTL_INIT_BACKEND bs 0 bs' w']
  by (auto simp: lifecycle_step_def ioctl_values IOC_TYPE_def split: if_splits)

lemma create_ready:
  "good w \<Longrightarrow> request KERNOVA_IOCTL_CREATE_VM bs w = Some (0, bs', w') \<Longrightarrow> phase w' = VmReady"
  using moves [of w KERNOVA_IOCTL_CREATE_VM bs 0 bs' w']
  by (auto simp: lifecycle_step_def ioctl_values IOC_TYPE_def)

lemma run_ready:
  "good w \<Longrightarrow> request KERNOVA_IOCTL_RUN_VM bs w = Some (0, bs', w') \<Longrightarrow> phase w = VmReady \<and> phase w' = VmReady"
  using moves [of w KERNOVA_IOCTL_RUN_VM bs 0 bs' w']
  by (auto simp: lifecycle_step_def ioctl_values IOC_TYPE_def)

lemma destroy_clean:
  "good w \<Longrightarrow> \<exists>bs' w'. request KERNOVA_IOCTL_DESTROY_VM bs w = Some (0, bs', w') \<and> good w' \<and> phase w' = Idle \<and> clean w'"
proof -
  assume g: "good w"
  obtain r bs' w' where q: "request KERNOVA_IOCTL_DESTROY_VM bs w = Some (r, bs', w')" "good w'"
    using answers [OF g] by blast
  have "r = 0 \<and> phase w' = Idle"
    using moves [OF g _ q(1)] by (auto simp: lifecycle_step_def ioctl_values IOC_TYPE_def split: if_splits)
  then show ?thesis using q idle_clean [OF q(2)] by auto
qed

end

definition device_good :: "os \<Rightarrow> (nat \<Rightarrow> u32 \<Rightarrow> u64) \<Rightarrow> world \<Rightarrow> bool" where
  "device_good Os m W \<longleftrightarrow> kenv_ok (os_kenv Os) \<and> driver_reach (os_kenv Os) {os_cpu Os} m (w_kernel W)"

definition device_clean :: "(nat \<Rightarrow> u32 \<Rightarrow> u64) \<Rightarrow> world \<Rightarrow> bool" where
  "device_clean m W \<longleftrightarrow> k_pages (w_kernel W) = Map.empty \<and> k_msr (w_kernel W) = m"

lemma device_good_inv:
  "device_good Os m W \<Longrightarrow> svm_inv (os_kenv Os) (w_kernel W) \<and> msr_inv (os_cpu Os) m (w_kernel W)"
  using driver_reach_inv by (auto simp: device_good_def)

lemma device_good_kernel [simp]:
  "device_good Os m (W\<lparr>w_kd := d\<rparr>) = device_good Os m W" "device_good Os m (W\<lparr>w_amd := a\<rparr>) = device_good Os m W"
  "device_good Os m (W\<lparr>w_intel := i\<rparr>) = device_good Os m W"
  by (simp_all add: device_good_def)

lemma sys_ioctl_call:
  assumes "device_good Os m W"
  obtains r U k' where "kernova_ioctl (os_kenv Os) (os_cpu Os) (os_allow_vmrun Os) cmd (os_stack Os)
      (caller (os_stack Os) bs) (w_kernel W) = Some (r, U, k')"
    "sys_ioctl Os cmd bs W = Some (if r < 0 then - 1 else r, read_bytes (u_mem U) (os_stack Os) (length bs), W\<lparr>w_kernel := k'\<rparr>)"
    "device_good Os m (W\<lparr>w_kernel := k'\<rparr>)"
proof -
  have e: "kenv_ok (os_kenv Os)" and d: "driver_reach (os_kenv Os) {os_cpu Os} m (w_kernel W)"
    using assms by (simp_all add: device_good_def)
  have i: "svm_inv (os_kenv Os) (w_kernel W)" "msr_inv (os_cpu Os) m (w_kernel W)" using device_good_inv [OF assms] by simp_all
  obtain r U k' where q: "kernova_ioctl (os_kenv Os) (os_cpu Os) (os_allow_vmrun Os) cmd (os_stack Os)
      (caller (os_stack Os) bs) (w_kernel W) = Some (r, U, k')"
    by (rule ioctl_step [OF e i])
  have "driver_reach (os_kenv Os) {os_cpu Os} m k'" by (rule driver_reach.request [OF d _ q]) simp
  then show ?thesis using that [OF q] q e by (simp add: sys_ioctl_def device_good_def)
qed

interpretation device: kernova_device "sys_ioctl Os" "\<lambda>W. lifecycle (w_kernel W)" "device_good Os m" "device_clean m" for Os m
proof
  show "\<exists>r bs' w'. sys_ioctl Os cmd bs W = Some (r, bs', w') \<and> device_good Os m w'"
    if "device_good Os m W" for cmd bs W
    by (rule sys_ioctl_call [OF that, of cmd bs]) blast
  show "(r = 0 \<longrightarrow> lifecycle_step cmd 0 (lifecycle (w_kernel W)) (lifecycle (w_kernel W')))
      \<and> (r \<noteq> 0 \<longrightarrow> lifecycle_step cmd (- 1) (lifecycle (w_kernel W)) (lifecycle (w_kernel W')))"
    if g: "device_good Os m W" and t: "IOC_TYPE cmd = KERNOVA_IOCTL_MAGIC" and q: "sys_ioctl Os cmd bs W = Some (r, bs', W')"
    for cmd bs W r bs' W'
  proof -
    have e: "kenv_ok (os_kenv Os)" "svm_inv (os_kenv Os) (w_kernel W)"
      using g device_good_inv [OF g] by (simp_all add: device_good_def)
    obtain r' U k' where c: "kernova_ioctl (os_kenv Os) (os_cpu Os) (os_allow_vmrun Os) cmd (os_stack Os)
        (caller (os_stack Os) bs) (w_kernel W) = Some (r', U, k')"
      "r = (if r' < 0 then - 1 else r')" "W' = W\<lparr>w_kernel := k'\<rparr>"
      using q by (auto simp: sys_ioctl_def split: option.splits)
    have l: "lifecycle_step cmd r' (lifecycle (w_kernel W)) (lifecycle (w_kernel W'))"
      using ioctl_lifecycle [OF e c(1) t] c(3) by simp
    have "lifecycle_step cmd (- 1) p p'" if "lifecycle_step cmd r' p p'" "r' \<noteq> 0" for p p'
      using that by (auto simp: lifecycle_step_def split: if_splits)
    then show ?thesis using l c(2) by (auto split: if_splits)
  qed
  show "device_clean m W" if "device_good Os m W" "lifecycle (w_kernel W) = Idle" for W
  proof -
    have i: "svm_inv (os_kenv Os) (w_kernel W)" "msr_inv (os_cpu Os) m (w_kernel W)" using device_good_inv [OF that(1)] by simp_all
    have n: "\<not> sv_initialized (k_svm (w_kernel W))" using that(2) by (auto simp: lifecycle_def split: if_splits)
    then have "phase_uninit (w_kernel W)" using initialized_phase(2) [OF i(1)] by blast
    then show ?thesis using i(2) n phase_uninit_pages by (simp add: device_clean_def msr_inv_def)
  qed
qed

section \<open>Queries and the driver backend\<close>

lemma caps_wf_zero: "caps_wf zero_caps"
  by (simp add: caps_wf_def zero_caps_def)

lemma query_call:
  "kernova_ioctl E c allow KERNOVA_IOCTL_QUERY_CAPS arg (caller arg bs) k = Some (0,
     (caller arg bs)\<lparr>u_mem := write_bytes arg (encode_caps (k_caps (kernova_refresh_caps_locked E allow k))) (u_mem (caller arg bs))\<rparr>,
     kernova_refresh_caps_locked E allow k)"
  by (simp add: ioctl_dispatch ioctl_query_def copy_to_user_def caller_def)

lemma query_caps_result:
  "query_caps Os W = Some (0, k_caps (kernova_refresh_caps_locked (os_kenv Os) (os_allow_vmrun Os) (w_kernel W)),
     W\<lparr>w_kernel := kernova_refresh_caps_locked (os_kenv Os) (os_allow_vmrun Os) (w_kernel W)\<rparr>)"
proof -
  let ?c = "k_caps (kernova_refresh_caps_locked (os_kenv Os) (os_allow_vmrun Os) (w_kernel W))"
  have wf: "caps_wf ?c" by (simp add: refreshed_caps)
  have l: "length (encode_caps zero_caps) = sizeof_caps" using length_encode(1) [OF caps_wf_zero] .
  show ?thesis
    unfolding query_caps_def sys_ioctl_def query_call using caps_struct.store_load [OF wf] by (simp add: l)
qed

lemma device_good_refresh:
  "device_good Os m W \<Longrightarrow> device_good Os m (W\<lparr>w_kernel := kernova_refresh_caps_locked (os_kenv Os) (os_allow_vmrun Os) (w_kernel W)\<rparr>)"
proof -
  assume g: "device_good Os m W"
  show ?thesis
    by (rule sys_ioctl_call [OF g, of KERNOVA_IOCTL_QUERY_CAPS "[]"]) (simp add: query_call)
qed

text \<open>The status of the driver backend: what was queried, with a pointer to the local structure.\<close>

lemma kd_status_open:
  assumes "0 \<le> kd_fd (w_kd W)"
  obtains s W' where "kd_status Os W = Some (s, W')" "bs_kernel_driver_available s"
    "bs_hardware_validated s = (sv_last_exit_code (k_svm (w_kernel W)) \<noteq> 0)"
    "bs_reason s = Local (caps_driver_name (k_caps (kernova_refresh_caps_locked (os_kenv Os) (os_allow_vmrun Os) (w_kernel W))))"
    "W' = W\<lparr>w_kernel := kernova_refresh_caps_locked (os_kenv Os) (os_allow_vmrun Os) (w_kernel W)\<rparr>"
  using assms that by (simp add: kd_status_def query_caps_result refreshed_caps Let_def)

lemma kd_init_cases:
  assumes "device_good Os m W"
  obtains r W' where "kd_init Os W = Some (r, W')" "device_good Os m W'"
    "r = 0 \<Longrightarrow> lifecycle (w_kernel W') \<noteq> Idle \<and> env_has_svm (os_kenv Os) \<and> kd_initialized (w_kd W') \<and> 0 \<le> kd_fd (w_kd W')"
    "env_has_svm (os_kenv Os) \<or> r \<noteq> 0"
proof -
  obtain there W1 where a: "kd_available Os W = (there, W1)" by fastforce
  have g1: "device_good Os m W1" and k1: "w_kernel W1 = w_kernel W" and fd: "there \<longrightarrow> 0 \<le> kd_fd (w_kd W1)"
    using a assms by (auto simp: kd_available_def Let_def split: if_splits)
  let ?W2 = "W1\<lparr>w_kernel := kernova_refresh_caps_locked (os_kenv Os) (os_allow_vmrun Os) (w_kernel W1)\<rparr>"
  have g2: "device_good Os m ?W2" by (rule device_good_refresh [OF g1])
  let ?req = "encode_init \<lparr>init_backend_flags = if env_has_svm (os_kenv Os) then KERNOVA_BACKEND_AMD_SVM
      else KERNOVA_BACKEND_INTEL_VMX, init_reserved = 0\<rparr>"
  obtain r bs' W3 where q: "sys_ioctl Os KERNOVA_IOCTL_INIT_BACKEND ?req ?W2 = Some (r, bs', W3)" "device_good Os m W3"
    using device.answers [OF g2] by blast
  have kd3: "w_kd W3 = w_kd W1" using q(1) by (auto simp: sys_ioctl_def split: option.splits)
  consider "\<not> there" | "there" "\<not> env_has_svm (os_kenv Os)" "\<not> env_has_vmx (os_kenv Os)"
    | "there" "env_has_svm (os_kenv Os) \<or> env_has_vmx (os_kenv Os)" by blast
  then show ?thesis
  proof cases
    case 1
    then show ?thesis using that [of "- 1" W1] a g1 by (simp add: kd_init_def)
  next
    case 2
    then show ?thesis using that [of "- 3" ?W2] a g2 by (simp add: kd_init_def query_caps_result refreshed_caps)
  next
    case 3
    have run: "kd_init Os W = (if r \<noteq> 0 then Some (- 4, W3) else Some (0, W3\<lparr>w_kd := (w_kd W3)\<lparr>kd_initialized := True\<rparr>\<rparr>))"
      using 3 a q(1) by (auto simp: kd_init_def query_caps_result refreshed_caps)
    have intel: "r \<noteq> 0" if "\<not> env_has_svm (os_kenv Os)"
    proof -
      have "kernova_ioctl (os_kenv Os) (os_cpu Os) (os_allow_vmrun Os) KERNOVA_IOCTL_INIT_BACKEND (os_stack Os)
          (caller (os_stack Os) ?req) (w_kernel ?W2)
        = Some (- ENODEV, caller (os_stack Os) ?req, kernova_refresh_caps_locked (os_kenv Os) (os_allow_vmrun Os)
            (kernova_refresh_caps_locked (os_kenv Os) (os_allow_vmrun Os) (w_kernel ?W2)))"
        using that caller_read [of ?req sizeof_init "os_stack Os"]
        by (simp add: ioctl_dispatch ioctl_init_def length_encode sizeof_init_def KERNOVA_BACKEND_INTEL_VMX_def
            KERNOVA_BACKEND_AMD_SVM_def)
      then show ?thesis using q(1) by (auto simp: sys_ioctl_def errno_defs)
    qed
    show ?thesis
    proof (cases "r = 0")
      case True
      have "lifecycle (w_kernel W3) \<noteq> Idle" using device.init_ready [OF g2 q(1) [unfolded True]] .
      then show ?thesis
        using that [of 0 "W3\<lparr>w_kd := (w_kd W3)\<lparr>kd_initialized := True\<rparr>\<rparr>"] run True intel q(2) kd3 fd 3(1) by auto
    next
      case False
      then show ?thesis using that [of "- 4" W3] run q(2) by simp
    qed
  qed
qed

lemma sint_eq_0: "sint (w::u32) = 0 \<longleftrightarrow> w = 0"
  by (simp add: signed_eq_0_iff)

lemma sys_ioctl_kd: "sys_ioctl Os cmd bs W = Some (r, bs', W') \<Longrightarrow> w_kd W' = w_kd W \<and> w_amd W' = w_amd W \<and> w_intel W' = w_intel W"
  by (auto simp: sys_ioctl_def split: option.splits)

lemma kd_setup_cases:
  assumes "device_good Os m W"
  obtains r W' where "kd_setup_guest Os W = Some (r, W')" "device_good Os m W'" "w_kd W' = (if r = 0 then (w_kd W)\<lparr>kd_configured := True\<rparr> else w_kd W)"
    "r = 0 \<Longrightarrow> lifecycle (w_kernel W') = VmReady \<and> kd_initialized (w_kd W) \<and> 0 \<le> kd_fd (w_kd W)"
proof (cases "kd_fd (w_kd W) < 0 \<or> \<not> kd_initialized (w_kd W)")
  case True
  then show ?thesis using that [of "- 1" W] assms by (simp add: kd_setup_guest_def)
next
  case False
  let ?W2 = "W\<lparr>w_kernel := kernova_refresh_caps_locked (os_kenv Os) (os_allow_vmrun Os) (w_kernel W)\<rparr>"
  have g2: "device_good Os m ?W2" by (rule device_good_refresh [OF assms])
  let ?req = "encode_create \<lparr>create_backend_flags = if env_has_svm (os_kenv Os) then KERNOVA_BACKEND_AMD_SVM
      else KERNOVA_BACKEND_INTEL_VMX, create_guest_size = 4096\<rparr>"
  obtain r bs' W3 where q: "sys_ioctl Os KERNOVA_IOCTL_CREATE_VM ?req ?W2 = Some (r, bs', W3)" "device_good Os m W3"
    using device.answers [OF g2] by blast
  have kd3: "w_kd W3 = w_kd W" using sys_ioctl_kd [OF q(1)] by simp
  have run: "kd_setup_guest Os W = (if r \<noteq> 0 then Some (- 3, W3) else Some (0, W3\<lparr>w_kd := (w_kd W3)\<lparr>kd_configured := True\<rparr>\<rparr>))"
    using False q(1) by (auto simp: kd_setup_guest_def query_caps_result refreshed_caps)
  show ?thesis
  proof (cases "r = 0")
    case True
    have "lifecycle (w_kernel W3) = VmReady" using device.create_ready [OF g2 q(1) [unfolded True]] .
    then show ?thesis
      using that [of 0 "W3\<lparr>w_kd := (w_kd W3)\<lparr>kd_configured := True\<rparr>\<rparr>"] run True q(2) kd3 False by simp
  next
    case f: False
    then show ?thesis using that [of "- 3" W3] run q(2) kd3 by simp
  qed
qed

lemma length_launch_request [simp]: "length (encode_run (launch_request Os)) = sizeof_run"
  by (simp add: length_encode)

lemma kd_launch_cases:
  assumes "device_good Os m W"
  obtains r W' where "kd_launch Os W = Some (r, W')" "device_good Os m W'" "w_kd W' = w_kd W"
    "r = 0 \<Longrightarrow> hardware_backend_enabled Os \<and> os_allow_vmrun Os \<and> lifecycle (w_kernel W) = VmReady
      \<and> k_vmruns (w_kernel W') = (os_cpu Os, env_virt_to_phys (os_kenv Os) (sv_vmcb (k_svm (w_kernel W)))) # k_vmruns (w_kernel W)"
    "\<not> hardware_backend_enabled Os \<Longrightarrow> r \<noteq> 0 \<and> k_vmruns (w_kernel W') = k_vmruns (w_kernel W)"
proof (cases "kd_fd (w_kd W) < 0 \<or> \<not> kd_configured (w_kd W)")
  case True
  then show ?thesis using that [of "- 1" W] assms by (simp add: kd_launch_def)
next
  case False
  let ?bs = "encode_run (launch_request Os)" and ?E = "os_kenv Os" and ?c = "os_cpu Os" and ?a = "os_allow_vmrun Os" and ?k = "w_kernel W"
  have e: "kenv_ok ?E" and i: "svm_inv ?E ?k" "msr_inv ?c m ?k" using assms device_good_inv [OF assms] by (simp_all add: device_good_def)
  obtain r U k' where q: "kernova_ioctl ?E ?c ?a KERNOVA_IOCTL_RUN_VM (os_stack Os) (caller (os_stack Os) ?bs) ?k = Some (r, U, k')"
    and s: "sys_ioctl Os KERNOVA_IOCTL_RUN_VM ?bs W
      = Some (if r < 0 then - 1 else r, read_bytes (u_mem U) (os_stack Os) (length ?bs), W\<lparr>w_kernel := k'\<rparr>)"
    and g: "device_good Os m (W\<lparr>w_kernel := k'\<rparr>)"
    by (rule sys_ioctl_call [OF assms])
  have rd: "copy_from_user (caller (os_stack Os) ?bs) (os_stack Os) sizeof_run = Some ?bs"
    by (rule caller_read) (simp_all add: sizeof_run_def)
  let ?kr = "kernova_refresh_caps_locked ?E ?a ?k"
  have j: "svm_inv ?E ?kr" "msr_inv ?c m ?kr" using i by simp_all
  obtain r2 rq k2 where x: "kernova_amd_svm_run ?E ?c ?a (launch_request Os) ?kr = Some (r2, rq, k2)"
    and v: "k_vmruns k2 = (if run_allowed ?a (run_flags (launch_request Os)) ?kr
       then (?c, env_virt_to_phys ?E (sv_vmcb (k_svm ?kr))) # k_vmruns ?kr else k_vmruns ?kr)"
    by (rule run_step [OF e j, of ?a "launch_request Os"])
  have "copy_to_user (caller (os_stack Os) ?bs) (os_stack Os) (encode_run rq)
      = Some ((caller (os_stack Os) ?bs)\<lparr>u_mem := write_bytes (os_stack Os) (encode_run rq) (u_mem (caller (os_stack Os) ?bs))\<rparr>)"
    by (simp add: copy_to_user_def caller_def)
  then have r: "r2 = r" "k' = kernova_refresh_caps_locked ?E ?a k2" "read_bytes (u_mem U) (os_stack Os) sizeof_run = encode_run rq"
    using q x rd by (auto simp: ioctl_dispatch ioctl_run_def mem_simps length_encode sizeof_run_def)
  have fl: "run_flags (launch_request Os) AND KERNOVA_RUN_ALLOW_PRIVILEGED \<noteq> 0 \<longleftrightarrow> hardware_backend_enabled Os"
    by (simp add: launch_request_def KERNOVA_RUN_ALLOW_PRIVILEGED_def)
  have z: "r = 0 \<longleftrightarrow> run_allowed ?a (run_flags (launch_request Os)) ?kr"
    using x r(1) by (auto simp: kernova_amd_svm_run_def run_allowed_def Let_def split: if_splits option.splits)
  define res where "res = (if r \<noteq> 0 then (if run_status rq \<noteq> 0 then sint (run_status rq) else - 2) else 0)"
  have run: "kd_launch Os W = Some (res, W\<lparr>w_kernel := k'\<rparr>)"
    using False s r(3) by (auto simp: kd_launch_def res_def sizeof_run_def)
  have res0: "res = 0 \<longleftrightarrow> r = 0" by (auto simp: res_def sint_eq_0)
  show ?thesis
  proof (rule that [OF run g])
    show "res = 0 \<Longrightarrow> hardware_backend_enabled Os \<and> os_allow_vmrun Os \<and> lifecycle (w_kernel W) = VmReady
      \<and> k_vmruns (w_kernel (W\<lparr>w_kernel := k'\<rparr>)) = (?c, env_virt_to_phys ?E (sv_vmcb (k_svm ?k))) # k_vmruns ?k"
      using res0 z v r(2) fl by (simp add: run_allowed_def lifecycle_def)
    show "\<not> hardware_backend_enabled Os \<Longrightarrow> res \<noteq> 0 \<and> k_vmruns (w_kernel (W\<lparr>w_kernel := k'\<rparr>)) = k_vmruns ?k"
      using res0 z v r(2) fl by (simp add: run_allowed_def)
  qed simp
qed

lemma kd_shutdown_cases:
  assumes "device_good Os m W"
  obtains W' where "kd_shutdown Os W = Some W'" "device_good Os m W'" "kd_fd (w_kd W') = (if 0 \<le> kd_fd (w_kd W) then - 1 else kd_fd (w_kd W))"
    "\<not> kd_initialized (w_kd W')" "\<not> kd_configured (w_kd W')" "0 \<le> kd_fd (w_kd W) \<Longrightarrow> device_clean m W'"
proof (cases "0 \<le> kd_fd (w_kd W)")
  case True
  obtain bs' W2 where q: "sys_ioctl Os KERNOVA_IOCTL_DESTROY_VM [] W = Some (0, bs', W2)" "device_good Os m W2" "device_clean m W2"
    using device.destroy_clean [OF assms] by blast
  then show ?thesis
    using that [of "W2\<lparr>w_kd := (w_kd W2)\<lparr>kd_fd := - 1, kd_initialized := False, kd_configured := False\<rparr>\<rparr>"] True
    by (simp add: kd_shutdown_def device_clean_def)
next
  case False
  then show ?thesis
    using that [of "W\<lparr>w_kd := (w_kd W)\<lparr>kd_initialized := False, kd_configured := False\<rparr>\<rparr>"] assms
    by (simp add: kd_shutdown_def)
qed

section \<open>The guards every hardware backend keeps\<close>

text \<open>\<open>HypervisorBackend\<close> promises its caller an order of calls: \<open>setup_guest\<close> only after \<open>init\<close>,
  \<open>launch\<close> only after \<open>setup_guest\<close>, nothing after \<open>shutdown\<close>.\<close>

locale guarded_backend =
  fixes init :: "'w \<Rightarrow> (int \<times> 'w) option"
    and config :: "'w \<Rightarrow> (int \<times> 'w) option"
    and launch :: "'w \<Rightarrow> (int \<times> 'w) option"
    and shutdown :: "'w \<Rightarrow> 'w option"
    and good :: "'w \<Rightarrow> bool"
    and ready :: "'w \<Rightarrow> bool"
    and armed :: "'w \<Rightarrow> bool"
  assumes init_returns: "good w \<Longrightarrow> \<exists>r w'. init w = Some (r, w') \<and> good w' \<and> (r = 0 \<longrightarrow> ready w')"
    and setup_returns: "good w \<Longrightarrow> \<exists>r w'. config w = Some (r, w') \<and> good w' \<and> (r = 0 \<longrightarrow> ready w \<and> armed w')"
    and launch_returns: "good w \<Longrightarrow> \<exists>r w'. launch w = Some (r, w') \<and> good w' \<and> (r = 0 \<longrightarrow> armed w)"
    and shutdown_returns: "good w \<Longrightarrow> \<exists>w'. shutdown w = Some w' \<and> good w' \<and> \<not> ready w' \<and> \<not> armed w'"
begin

lemma bring_up:
  assumes "good w" "init w = Some (0, w1)" "config w1 = Some (0, w2)"
  shows "good w2" "ready w1" "armed w2"
  using init_returns [OF assms(1)] setup_returns [of w1] assms(2,3) by auto

lemma down_refuses:
  assumes "good w"
  shows "\<exists>w' r1 w1 r2 w2. shutdown w = Some w' \<and> good w'
    \<and> config w' = Some (r1, w1) \<and> r1 \<noteq> 0 \<and> launch w' = Some (r2, w2) \<and> r2 \<noteq> 0"
proof -
  obtain w' where s: "shutdown w = Some w'" "good w'" "\<not> ready w'" "\<not> armed w'"
    using shutdown_returns [OF assms] by blast
  then show ?thesis using setup_returns [OF s(2)] launch_returns [OF s(2)] by metis
qed

end

lemma kd_launch_armed:
  assumes "kd_launch Os W = Some (0, W')"
  shows "kd_configured (w_kd W)"
  using assms by (auto simp: kd_launch_def split: if_splits option.splits prod.splits)

interpretation kd_guarded: guarded_backend "backend_init KernelDriver Os A" "backend_setup_guest KernelDriver Os A"
  "backend_launch KernelDriver Os A" "backend_shutdown KernelDriver Os" "device_good Os m"
  "\<lambda>W. kd_initialized (w_kd W)" "\<lambda>W. kd_configured (w_kd W)" for Os A m
proof
  fix W assume g: "device_good Os m W"
  show "\<exists>r W'. backend_init KernelDriver Os A W = Some (r, W') \<and> device_good Os m W' \<and> (r = 0 \<longrightarrow> kd_initialized (w_kd W'))"
    by (rule kd_init_cases [OF g]) auto
  show "\<exists>r W'. backend_setup_guest KernelDriver Os A W = Some (r, W') \<and> device_good Os m W'
      \<and> (r = 0 \<longrightarrow> kd_initialized (w_kd W) \<and> kd_configured (w_kd W'))"
    by (rule kd_setup_cases [OF g]) auto
  show "\<exists>r W'. backend_launch KernelDriver Os A W = Some (r, W') \<and> device_good Os m W' \<and> (r = 0 \<longrightarrow> kd_configured (w_kd W))"
    by (rule kd_launch_cases [OF g]) (use kd_launch_armed in auto)
  show "\<exists>W'. backend_shutdown KernelDriver Os W = Some W' \<and> device_good Os m W'
      \<and> \<not> kd_initialized (w_kd W') \<and> \<not> kd_configured (w_kd W')"
    by (rule kd_shutdown_cases [OF g]) auto
qed

definition intel_good :: "world \<Rightarrow> bool" where
  "intel_good W \<longleftrightarrow> (iv_configured (w_intel W) \<longrightarrow> iv_initialized (w_intel W))"

interpretation intel_guarded: guarded_backend "backend_init IntelVMX Os A" "backend_setup_guest IntelVMX Os A"
  "backend_launch IntelVMX Os A" "backend_shutdown IntelVMX Os" intel_good
  "\<lambda>W. iv_initialized (w_intel W)" "\<lambda>W. iv_configured (w_intel W)" for Os A
  by unfold_locales (auto simp: intel_good_def intel_init_def intel_setup_guest_def intel_launch_def intel_shutdown_def Let_def)

lemma amd_init_cases:
  obtains "svm_usable (detect_cpu_features (os_cpuid Os))" "fst (amd_init Os W) = 0" "ctx_state (w_amd (snd (amd_init Os W))) = Prepared"
  | "\<not> svm_usable (detect_cpu_features (os_cpuid Os))" "fst (amd_init Os W) = - 1" "ctx_state (w_amd (snd (amd_init Os W))) \<noteq> Prepared"
  by (cases "svm_usable (detect_cpu_features (os_cpuid Os))")
    (use that in \<open>simp_all add: amd_init_def Let_def prepare_success prepare_failure blank_context_def\<close>)

interpretation amd_guarded: guarded_backend "backend_init AmdSVM Os A" "backend_setup_guest AmdSVM Os A"
  "backend_launch AmdSVM Os A" "backend_shutdown AmdSVM Os" "\<lambda>_. True"
  "\<lambda>W. ctx_state (w_amd W) = Prepared" "\<lambda>W. ctx_state (w_amd W) = Prepared" for Os A
proof
  show "\<exists>r W'. backend_init AmdSVM Os A W = Some (r, W') \<and> True \<and> (r = 0 \<longrightarrow> ctx_state (w_amd W') = Prepared)" for W
    by (rule amd_init_cases [of Os W]; cases "amd_init Os W") auto
qed (auto simp: amd_setup_guest_def amd_launch_def amd_shutdown_def blank_context_def attempt_vmrun_def Let_def)

section \<open>Sessions\<close>

text \<open>What a client can do with a backend, in any order.\<close>

datatype backend_op = OpStatus | OpInit | OpSetup | OpLaunch | OpShutdown

fun backend_do :: "backend_kind \<Rightarrow> os \<Rightarrow> vmx_api \<Rightarrow> backend_op \<Rightarrow> world \<Rightarrow> world option" where
  "backend_do b Os A OpStatus W = map_option snd (backend_status_of b Os W)"
| "backend_do b Os A OpInit W = map_option snd (backend_init b Os A W)"
| "backend_do b Os A OpSetup W = map_option snd (backend_setup_guest b Os A W)"
| "backend_do b Os A OpLaunch W = map_option snd (backend_launch b Os A W)"
| "backend_do b Os A OpShutdown W = backend_shutdown b Os W"

fun backend_session :: "backend_kind \<Rightarrow> os \<Rightarrow> vmx_api \<Rightarrow> backend_op list \<Rightarrow> world \<Rightarrow> world option" where
  "backend_session b Os A [] W = Some W"
| "backend_session b Os A (q # qs) W =
     (case backend_do b Os A q W of None \<Rightarrow> None | Some W \<Rightarrow> backend_session b Os A qs W)"

text \<open>VMRUNs only grow, and only when both switches are on.\<close>

definition vmruns_allowed :: "os \<Rightarrow> world \<Rightarrow> world \<Rightarrow> bool" where
  "vmruns_allowed Os W W' \<longleftrightarrow> (\<exists>new. k_vmruns (w_kernel W') = new @ k_vmruns (w_kernel W)
     \<and> (new \<noteq> [] \<longrightarrow> hardware_backend_enabled Os \<and> os_allow_vmrun Os))"

lemma vmruns_same: "k_vmruns (w_kernel W') = k_vmruns (w_kernel W) \<Longrightarrow> vmruns_allowed Os W W'"
  by (auto simp: vmruns_allowed_def intro: exI [of _ "[]"])

lemma vmruns_trans: "vmruns_allowed Os W W' \<Longrightarrow> vmruns_allowed Os W' W'' \<Longrightarrow> vmruns_allowed Os W W''"
  unfolding vmruns_allowed_def by (metis append.assoc append_is_Nil_conv)

lemma sys_ioctl_vmruns:
  assumes "device_good Os m W" "sys_ioctl Os cmd bs W = Some (r, bs', W')"
  shows "k_vmruns (w_kernel W') = k_vmruns (w_kernel W)
    \<or> cmd = KERNOVA_IOCTL_RUN_VM \<and> os_allow_vmrun Os \<and> (\<exists>x. k_vmruns (w_kernel W') = x # k_vmruns (w_kernel W))"
proof -
  have e: "kenv_ok (os_kenv Os)" using assms(1) by (simp add: device_good_def)
  have i: "svm_inv (os_kenv Os) (w_kernel W)" "msr_inv (os_cpu Os) m (w_kernel W)" using device_good_inv [OF assms(1)] by simp_all
  show ?thesis
    by (rule ioctl_step [OF e i, of "os_allow_vmrun Os" cmd "os_stack Os" "caller (os_stack Os) bs"])
      (use assms(2) in \<open>auto simp: sys_ioctl_def run_allowed_def\<close>)
qed

lemma kd_status_step:
  assumes "device_good Os m W"
  obtains s W' where "kd_status Os W = Some (s, W')" "device_good Os m W'" "vmruns_allowed Os W W'"
proof (cases "0 \<le> kd_fd (w_kd W)")
  case True
  show ?thesis
    by (rule kd_status_open [OF True, of Os]) (use that device_good_refresh [OF assms] in \<open>simp add: vmruns_same\<close>)
next
  case False
  then show ?thesis using that [of _ W] assms by (simp add: kd_status_def Let_def vmruns_same)
qed

lemma kd_init_vmruns:
  assumes "device_good Os m W" "kd_init Os W = Some (r, W')"
  shows "k_vmruns (w_kernel W') = k_vmruns (w_kernel W)"
proof -
  have "device_good Os m (W1\<lparr>w_kernel := kernova_refresh_caps_locked (os_kenv Os) (os_allow_vmrun Os) (w_kernel W1)\<rparr>)"
    if "kd_available Os W = (there, W1)" for there W1
    by (rule device_good_refresh) (use that assms(1) in \<open>auto simp: kd_available_def Let_def split: if_splits\<close>)
  moreover have "w_kernel W1 = w_kernel W" if "kd_available Os W = (there, W1)" for there W1
    using that by (auto simp: kd_available_def Let_def split: if_splits)
  ultimately show ?thesis
    using assms(2)
    by (fastforce simp: kd_init_def query_caps_result ioctl_values split: prod.splits if_splits option.splits
        dest: sys_ioctl_vmruns)
qed

lemma kd_setup_vmruns:
  assumes "device_good Os m W" "kd_setup_guest Os W = Some (r, W')"
  shows "k_vmruns (w_kernel W') = k_vmruns (w_kernel W)"
  using assms(2) sys_ioctl_vmruns [OF device_good_refresh [OF assms(1)]]
  by (fastforce simp: kd_setup_guest_def query_caps_result ioctl_values split: prod.splits if_splits option.splits)

lemma kd_shutdown_vmruns:
  assumes "device_good Os m W" "kd_shutdown Os W = Some W'"
  shows "k_vmruns (w_kernel W') = k_vmruns (w_kernel W)"
  using assms(2) sys_ioctl_vmruns [OF assms(1)]
  by (fastforce simp: kd_shutdown_def ioctl_values split: prod.splits if_splits option.splits)

lemma kd_launch_vmruns:
  assumes "device_good Os m W" "kd_launch Os W = Some (r, W')"
  shows "vmruns_allowed Os W W'"
proof (cases "hardware_backend_enabled Os")
  case True
  have "k_vmruns (w_kernel W') = k_vmruns (w_kernel W)
      \<or> os_allow_vmrun Os \<and> (\<exists>x. k_vmruns (w_kernel W') = [x] @ k_vmruns (w_kernel W))"
    using assms(2) sys_ioctl_vmruns [OF assms(1)]
    by (fastforce simp: kd_launch_def split: prod.splits if_splits option.splits)
  then show ?thesis using True vmruns_same unfolding vmruns_allowed_def by blast
next
  case False
  then show ?thesis
    by (rule_tac kd_launch_cases [OF assms(1)]) (use assms(2) vmruns_same in auto)
qed

lemma backend_do_driver:
  assumes "device_good Os m W"
  obtains W' where "backend_do KernelDriver Os A q W = Some W'" "device_good Os m W'" "vmruns_allowed Os W W'"
proof (cases q)
  case OpStatus
  then show ?thesis by (rule_tac kd_status_step [OF assms]) (use that in simp)
next
  case OpInit
  obtain r W' where "kd_init Os W = Some (r, W')" "device_good Os m W'" by (rule kd_init_cases [OF assms])
  then show ?thesis using OpInit that vmruns_same [OF kd_init_vmruns [OF assms]] by simp
next
  case OpSetup
  obtain r W' where "kd_setup_guest Os W = Some (r, W')" "device_good Os m W'" by (rule kd_setup_cases [OF assms])
  then show ?thesis using OpSetup that vmruns_same [OF kd_setup_vmruns [OF assms]] by simp
next
  case OpLaunch
  obtain r W' where "kd_launch Os W = Some (r, W')" "device_good Os m W'" by (rule kd_launch_cases [OF assms])
  then show ?thesis using OpLaunch that kd_launch_vmruns [OF assms] by simp
next
  case OpShutdown
  obtain W' where "kd_shutdown Os W = Some W'" "device_good Os m W'" by (rule kd_shutdown_cases [OF assms])
  then show ?thesis using OpShutdown that vmruns_same [OF kd_shutdown_vmruns [OF assms]] by simp
qed

lemma session_driver:
  assumes "device_good Os m W"
  shows "\<exists>W'. backend_session KernelDriver Os A qs W = Some W' \<and> device_good Os m W' \<and> vmruns_allowed Os W W'"
  using assms
proof (induction qs arbitrary: W)
  case Nil
  then show ?case by (simp add: vmruns_same)
next
  case (Cons q qs)
  obtain W1 where 1: "backend_do KernelDriver Os A q W = Some W1" "device_good Os m W1" "vmruns_allowed Os W W1"
    by (rule backend_do_driver [OF Cons.prems])
  show ?case using Cons.IH [OF 1(2)] 1 vmruns_trans by fastforce
qed

text \<open>Why the kernel refuses to initialise: no SVM, SVM locked off on this CPU, or no page.\<close>

definition init_refused :: "os \<Rightarrow> kernel \<Rightarrow> bool" where
  "init_refused Os k \<longleftrightarrow> \<not> env_has_svm (os_kenv Os) \<or> k_msr k (os_cpu Os) MSR_VM_CR AND VM_CR_SVMDIS \<noteq> 0
     \<or> \<not> sv_initialized (k_svm k) \<and> env_alloc (os_kenv Os) (k_requests k) (k_pages k) = 0"

lemma svm_init_result:
  assumes "caps_svm_supported (k_caps k) = (if env_has_svm (os_kenv Os) then 1 else 0)"
  shows "fst (kernova_amd_svm_init (os_kenv Os) (os_cpu Os) k) = 0 \<longleftrightarrow> \<not> init_refused Os k"
    "fst (kernova_amd_svm_init (os_kenv Os) (os_cpu Os) k) \<le> 0"
  using assms
  by (auto simp: kernova_amd_svm_init_def init_refused_def kernova_alloc_page_def rdmsrl_def errno_defs Let_def)

lemma kd_init_open_result:
  assumes "0 \<le> kd_fd (w_kd W)" "kd_init Os W = Some (r, W')"
  shows "r = (if \<not> env_has_svm (os_kenv Os) \<and> \<not> env_has_vmx (os_kenv Os) then - 3
      else if init_refused Os (w_kernel W) then - 4 else 0)"
proof (cases "\<not> env_has_svm (os_kenv Os) \<and> \<not> env_has_vmx (os_kenv Os)")
  case True
  then show ?thesis using assms by (simp add: kd_init_def kd_available_def query_caps_result refreshed_caps)
next
  case False
  let ?E = "os_kenv Os" and ?a = "os_allow_vmrun Os" and ?c = "os_cpu Os"
  let ?k = "kernova_refresh_caps_locked ?E ?a (kernova_refresh_caps_locked ?E ?a (w_kernel W))"
  let ?req = "encode_init \<lparr>init_backend_flags = if env_has_svm ?E then KERNOVA_BACKEND_AMD_SVM
      else KERNOVA_BACKEND_INTEL_VMX, init_reserved = 0\<rparr>"
  have rf: "init_refused Os ?k = init_refused Os (w_kernel W)" by (simp add: init_refused_def)
  note s = svm_init_result [of ?k Os, OF refreshed_caps(1)]
  have rd: "copy_from_user (caller (os_stack Os) ?req) (os_stack Os) sizeof_init = Some ?req"
    by (rule caller_read) (simp_all add: sizeof_init_def length_encode)
  obtain r1 k1 where q: "kernova_amd_svm_init ?E ?c ?k = (r1, k1)" by fastforce
  then have r1: "r1 = 0 \<longleftrightarrow> \<not> init_refused Os (w_kernel W)" "r1 \<le> 0" using s rf by simp_all
  show ?thesis
  proof (cases "env_has_svm ?E")
    case True
    then show ?thesis
      using assms r1 q rd
      by (auto simp: kd_init_def kd_available_def query_caps_result refreshed_caps sys_ioctl_def ioctl_dispatch ioctl_init_def
          KERNOVA_BACKEND_AMD_SVM_def split: if_splits)
  next
    case n: False
    then have "init_refused Os (w_kernel W)" by (simp add: init_refused_def)
    then show ?thesis
      using assms n False rd
      by (auto simp: kd_init_def kd_available_def query_caps_result refreshed_caps sys_ioctl_def ioctl_dispatch ioctl_init_def
          KERNOVA_BACKEND_AMD_SVM_def KERNOVA_BACKEND_INTEL_VMX_def errno_defs split: if_splits)
  qed
qed

text \<open>A client that alone uses the device: while it does not hold it open, the device is clean.\<close>

definition sole_user :: "(nat \<Rightarrow> u32 \<Rightarrow> u64) \<Rightarrow> world \<Rightarrow> bool" where
  "sole_user m W \<longleftrightarrow> (kd_fd (w_kd W) < 0 \<longrightarrow> device_clean m W)"

lemma kd_available_fd: "kd_available Os W = (there, W') \<Longrightarrow> w_kernel W' = w_kernel W \<and> (kd_fd (w_kd W') < 0 \<longrightarrow> kd_fd (w_kd W) < 0) \<and> (there \<longleftrightarrow> 0 \<le> kd_fd (w_kd W'))"
  by (auto simp: kd_available_def Let_def split: if_splits)

lemma sole_user_step:
  assumes "device_good Os m W" "sole_user m W" "backend_do KernelDriver Os A q W = Some W'"
  shows "sole_user m W'"
proof -
  have cl: "sole_user m W'" if "w_kernel W' = w_kernel W" "kd_fd (w_kd W') < 0 \<longrightarrow> kd_fd (w_kd W) < 0" for W'
    using that assms(2) by (auto simp: sole_user_def device_clean_def)
  have op: "sole_user m W'" if "0 \<le> kd_fd (w_kd W')" for W'
    using that by (simp add: sole_user_def)
  show ?thesis
  proof (cases q)
    case OpStatus
    then show ?thesis
      using assms(3) op cl [of W'] by (cases "kd_fd (w_kd W) < 0") (auto simp: kd_status_def query_caps_result Let_def)
  next
    case OpInit
    obtain there W1 where a: "kd_available Os W = (there, W1)" by fastforce
    note f = kd_available_fd [OF a]
    show ?thesis
    proof (cases there)
      case False
      then show ?thesis using OpInit assms(3) a f cl [of W1] by (auto simp: kd_init_def)
    next
      case True
      then have "0 \<le> kd_fd (w_kd W')"
        using OpInit assms(3) a f
        by (auto simp: kd_init_def query_caps_result split: if_splits option.splits prod.splits dest!: sys_ioctl_kd)
      then show ?thesis by (rule op)
    qed
  next
    case OpSetup
    obtain r W1 where s: "kd_setup_guest Os W = Some (r, W1)" "w_kd W1 = (if r = 0 then (w_kd W)\<lparr>kd_configured := True\<rparr> else w_kd W)"
      by (rule kd_setup_cases [OF assms(1)])
    show ?thesis
    proof (cases "0 \<le> kd_fd (w_kd W)")
      case True
      then show ?thesis using OpSetup assms(3) s op by auto
    next
      case False
      then show ?thesis using OpSetup assms(2,3) by (simp add: kd_setup_guest_def)
    qed
  next
    case OpLaunch
    obtain r W1 where s: "kd_launch Os W = Some (r, W1)" "w_kd W1 = w_kd W"
      by (rule kd_launch_cases [OF assms(1)])
    show ?thesis
    proof (cases "0 \<le> kd_fd (w_kd W)")
      case True
      then show ?thesis using OpLaunch assms(3) s op by auto
    next
      case False
      then show ?thesis using OpLaunch assms(2,3) by (simp add: kd_launch_def)
    qed
  next
    case OpShutdown
    show ?thesis
    proof (cases "0 \<le> kd_fd (w_kd W)")
      case True
      show ?thesis
        by (rule kd_shutdown_cases [OF assms(1)]) (use OpShutdown assms(3) True in \<open>auto simp: sole_user_def\<close>)
    next
      case False
      then show ?thesis using OpShutdown assms(3) cl [of W'] by (auto simp: kd_shutdown_def)
    qed
  qed
qed

lemma session_sole_user:
  assumes "device_good Os m W" "sole_user m W" "backend_session KernelDriver Os A qs W = Some W'"
  shows "sole_user m W'"
  using assms
proof (induction qs arbitrary: W)
  case (Cons q qs)
  obtain W1 where 1: "backend_do KernelDriver Os A q W = Some W1" "device_good Os m W1"
    by (rule backend_do_driver [OF Cons.prems(1)])
  show ?case using Cons.IH [OF 1(2) sole_user_step [OF Cons.prems(1,2) 1(1)]] Cons.prems(3) 1(1) by simp
qed simp

section \<open>A host for the witnesses\<close>

definition demo_os :: os where
  "demo_os = \<lparr>os_cpuid = (\<lambda>l _. \<lparr>eax = 0, ebx = 0, ecx = 0, edx = 0\<rparr>), os_getenv = (\<lambda>v. if v = ''KERNOVA_ENABLE_HARDWARE_BACKEND'' then Some ''1'' else None),
     os_open = 3, os_kenv = demo_env, os_cpu = 0, os_allow_vmrun = True, os_stack = 0x7FFE0000\<rparr>"

definition demo_world :: world where
  "demo_world = \<lparr>w_kd = fresh_kd, w_intel = fresh_intel, w_amd = blank_context, w_kernel = demo_loaded\<rparr>"

lemma demo_os_simps [simp]:
  "os_open demo_os = 3" "os_kenv demo_os = demo_env" "os_cpu demo_os = 0" "os_allow_vmrun demo_os" "hardware_backend_enabled demo_os"
  by (simp_all add: demo_os_def hardware_backend_enabled_def)

lemma demo_world_simps [simp]:
  "w_kd demo_world = fresh_kd" "w_intel demo_world = fresh_intel" "w_amd demo_world = blank_context" "w_kernel demo_world = demo_loaded"
  by (simp_all add: demo_world_def)

lemma demo_env_flags: "env_has_svm demo_env"
  by (simp add: demo_env_def)

lemma demo_good: "device_good demo_os (\<lambda>_ _. 0) demo_world"
  by (simp add: device_good_def demo_ok demo_loaded_reach)

definition intel_cpuid :: cpuid_fn where
  "intel_cpuid = (\<lambda>l _. if l = 0 then \<lparr>eax = 1, ebx = 0x756E6547, ecx = 0x6C65746E, edx = 0x49656E69\<rparr>
     else \<lparr>eax = 0, ebx = 0, ecx = 0x20, edx = 0\<rparr>)"

lemma intel_cpuid_features:
  "vendor (detect_cpu_features intel_cpuid) = Intel" "vmx (detect_cpu_features intel_cpuid)"
  by (simp_all add: detected_vendor detect_basic_fields intel_cpuid_def)

section \<open>Properties\<close>

text \<open>C10: The kernel driver backend in any order of calls, for a process the scheduler keeps on one CPU and
  on a machine that behaves (\<open>device_good\<close>). Whatever sequence of its operations the client runs,
  no call crashes the kernel, and every VMRUN that happens needs the environment variable and the
  module parameter. A shutdown at any point afterwards leaves the kernel without pages of the
  driver and all MSRs as they were if the client then has the device open, and also if
  it has not but was the only user of the device (a shutdown with the device closed does nothing). What
  happens when the process migrates is \<open>migrated_launch_crashes\<close>.\<close>

theorem driver_backend_session:
  assumes "device_good Os m W"
  shows "\<exists>W'. backend_session KernelDriver Os A qs W = Some W' \<and> device_good Os m W' \<and> vmruns_allowed Os W W'
    \<and> (\<exists>W''. backend_shutdown KernelDriver Os W' = Some W''
        \<and> (0 \<le> kd_fd (w_kd W') \<or> sole_user m W \<longrightarrow> device_clean m W''))"
proof -
  obtain W' where s: "backend_session KernelDriver Os A qs W = Some W'" "device_good Os m W'" "vmruns_allowed Os W W'"
    using session_driver [OF assms] by blast
  obtain W'' where d: "kd_shutdown Os W' = Some W''" "0 \<le> kd_fd (w_kd W') \<Longrightarrow> device_clean m W''"
    by (rule kd_shutdown_cases [OF s(2)]) blast
  have "device_clean m W''" if "sole_user m W" "kd_fd (w_kd W') < 0"
  proof -
    have "device_clean m W'" using session_sole_user [OF assms that(1) s(1)] that(2) by (simp add: sole_user_def)
    then show ?thesis using d(1) that(2) by (auto simp: kd_shutdown_def device_clean_def)
  qed
  then show ?thesis using s d by (cases "0 \<le> kd_fd (w_kd W')") auto
qed

theorem driver_backend_session_witness:
  "backend_session KernelDriver demo_os vmx_stubs [OpInit, OpSetup, OpLaunch] demo_world \<noteq> None"
  using driver_backend_session [OF demo_good, of vmx_stubs "[OpInit, OpSetup, OpLaunch]"] by auto



text \<open>C34: Which backend is selected, and how its initialisation ends. The driver if its device is open
  or opens; otherwise Intel VMX if the vendor is Intel and CPUID shows VMX, AMD SVM if the vendor is
  AMD and CPUID shows SVM, and userspace in every other case. The driver's result is -3 exactly when
  the kernel found neither SVM nor VMX and -4 exactly when the kernel refuses: no SVM (so always
  on Intel), SVM disabled in VM_CR, or no page for the host save area. Intel's is -3 when
  the hardware backend is disabled and -2 when \<open>vmx_init\<close> fails, AMD's is -1 without revision or
  ASIDs; userspace never fails.\<close>

theorem selected_backend_init:
  assumes "select_backend Os W = (b, W1)" "backend_init b Os A W1 = Some (r, W2)" "f = detect_cpu_features (os_cpuid Os)"
  shows "b = (if 0 \<le> kd_fd (w_kd W) \<or> 0 \<le> os_open Os then KernelDriver
      else if vendor f = Intel \<and> vmx f then IntelVMX else if vendor f = AMD \<and> svm f then AmdSVM else UserspacePoC)
    \<and> r = (case b of
        KernelDriver \<Rightarrow> if \<not> env_has_svm (os_kenv Os) \<and> \<not> env_has_vmx (os_kenv Os) then - 3
          else if init_refused Os (w_kernel W) then - 4 else 0
      | IntelVMX \<Rightarrow> if \<not> hardware_backend_enabled Os then - 3 else if api_vmx_init A \<noteq> 0 then - 2 else 0
      | AmdSVM \<Rightarrow> if svm_revision f = 0 \<or> svm_asid_count f = 0 then - 1 else 0
      | UserspacePoC \<Rightarrow> 0)"
proof -
  obtain there W0 where a: "kd_available Os W = (there, W0)" by fastforce
  have th: "there \<longleftrightarrow> 0 \<le> kd_fd (w_kd W) \<or> 0 \<le> os_open Os" "there \<Longrightarrow> 0 \<le> kd_fd (w_kd W0)" "w_kernel W0 = w_kernel W"
    using a by (auto simp: kd_available_def Let_def split: if_splits)
  have b: "b = (if there then KernelDriver else if vendor f = Intel \<and> vmx f then IntelVMX
      else if vendor f = AMD \<and> svm f then AmdSVM else UserspacePoC)" "W1 = W0"
    using assms(1,3) a by (auto simp: select_backend_def Let_def split: if_splits)
  have r: "r = (case b of
        KernelDriver \<Rightarrow> if \<not> env_has_svm (os_kenv Os) \<and> \<not> env_has_vmx (os_kenv Os) then - 3
          else if init_refused Os (w_kernel W) then - 4 else 0
      | IntelVMX \<Rightarrow> if \<not> hardware_backend_enabled Os then - 3 else if api_vmx_init A \<noteq> 0 then - 2 else 0
      | AmdSVM \<Rightarrow> if svm_revision f = 0 \<or> svm_asid_count f = 0 then - 1 else 0
      | UserspacePoC \<Rightarrow> 0)"
  proof (cases b)
    case KernelDriver
    then have "there" using b by (auto split: if_splits)
    then show ?thesis using kd_init_open_result [of W0 Os r W2] th assms(2) b KernelDriver by simp
  next
    case IntelVMX
    then have "vendor f = Intel \<and> vmx f" using b by (auto split: if_splits)
    then show ?thesis using assms(2,3) IntelVMX by (auto simp: intel_init_def intel_status_def Let_def split: if_splits)
  next
    case AmdSVM
    then have "vendor f = AMD \<and> svm f" using b by (auto split: if_splits)
    then show ?thesis
      using assms(2,3) AmdSVM by (cases rule: amd_init_cases [of Os W1]) (auto simp: svm_usable_def)
  qed (use assms(2) in simp)
  show ?thesis using b(1) r unfolding th(1) by blast
qed

theorem selected_backend_init_witness:
  "\<exists>W2. backend_init KernelDriver demo_os vmx_stubs (snd (select_backend demo_os demo_world)) = Some (0, W2)"
proof -
  have g: "device_good demo_os (\<lambda>_ _. 0) (snd (select_backend demo_os demo_world))"
    and s: "select_backend demo_os demo_world = (KernelDriver, snd (select_backend demo_os demo_world))"
    using demo_good by (simp_all add: select_backend_def kd_available_def fresh_kd_def Let_def)
  obtain r W2 where i: "kd_init demo_os (snd (select_backend demo_os demo_world)) = Some (r, W2)" by (rule kd_init_cases [OF g])
  have "\<not> init_refused demo_os (w_kernel demo_world)"
    by (simp add: init_refused_def demo_loaded_state demo_env_flags) (simp add: demo_env_def Let_def)
  then show ?thesis
    using selected_backend_init [OF s _ refl, of vmx_stubs r W2] i by (auto simp: demo_env_flags split: if_splits)
qed

text \<open>With the stubs the userspace build links, the Intel backend of an Intel host on which the
  hardware backend is enabled reports validated hardware after \<open>init\<close> and \<open>setup_guest\<close>, and its
  launch succeeds, although no VMX instruction was executed.\<close>

theorem stubs_report_validated:
  assumes "vendor (detect_cpu_features (os_cpuid Os)) = Intel" "vmx (detect_cpu_features (os_cpuid Os))" "hardware_backend_enabled Os"
  shows "\<exists>W1 W2. backend_init IntelVMX Os vmx_stubs W = Some (0, W1) \<and> backend_setup_guest IntelVMX Os vmx_stubs W1 = Some (0, W2)
    \<and> backend_launch IntelVMX Os vmx_stubs W2 = Some (0, W2)
    \<and> (\<exists>s. backend_status_of IntelVMX Os W2 = Some (s, W2) \<and> bs_hardware_validated s \<and> bs_mode s = ''hardware-vmx'')
    \<and> w_kernel W2 = w_kernel W"
  using assms by (simp add: intel_init_def intel_setup_guest_def intel_launch_def intel_status_def vmx_stubs_def
      vmx_init_stub_def vmcs_setup_stub_def vmx_launch_stub_def Let_def)

theorem stubs_report_validated_witness:
  "\<exists>W1. backend_init IntelVMX (demo_os\<lparr>os_cpuid := intel_cpuid\<rparr>) vmx_stubs demo_world = Some (0, W1)"
proof -
  have "hardware_backend_enabled (demo_os\<lparr>os_cpuid := intel_cpuid\<rparr>)" by (simp add: hardware_backend_enabled_def demo_os_def)
  then show ?thesis
    using stubs_report_validated [of "demo_os\<lparr>os_cpuid := intel_cpuid\<rparr>" demo_world] by (auto simp: intel_cpuid_features)
qed

text \<open>The status of the driver backend over an open device. It reflects the kernel: hardware is
  supported when the kernel found SVM or VMX, validated when the last exit code is not 0, and the
  mode follows. Its \<open>reason\<close> is a pointer into the frame of \<open>status\<close>, dead once it returns.\<close>

theorem driver_status_reports:
  assumes "0 \<le> kd_fd (w_kd W)"
  shows "\<exists>s W'. backend_status_of KernelDriver Os W = Some (s, W') \<and> bs_kernel_driver_available s
    \<and> bs_hardware_supported s = (env_has_svm (os_kenv Os) \<or> env_has_vmx (os_kenv Os))
    \<and> bs_hardware_validated s = (sv_last_exit_code (k_svm (w_kernel W)) \<noteq> 0)
    \<and> bs_mode s = (if sv_last_exit_code (k_svm (w_kernel W)) \<noteq> 0 then ''kernel-driver-vmexit''
        else if sv_vm_created (k_svm (w_kernel W)) then ''kernel-driver-vm-created'' else ''kernel-driver-ready'')
    \<and> (\<exists>name. bs_reason s = Local name)"
  using assms by (simp add: kd_status_def query_caps_result refreshed_caps Let_def)

theorem driver_status_reports_witness:
  "\<exists>s W'. backend_status_of KernelDriver demo_os (demo_world\<lparr>w_kd := fresh_kd\<lparr>kd_fd := 3\<rparr>\<rparr>) = Some (s, W')
    \<and> bs_hardware_supported s"
  using driver_status_reports [of "demo_world\<lparr>w_kd := fresh_kd\<lparr>kd_fd := 3\<rparr>\<rparr>" demo_os] by (auto simp: demo_env_def)

lemma kernova_ioctl_created:
  assumes "kenv_ok E" "svm_inv E k" "kernova_ioctl E c a KERNOVA_IOCTL_CREATE_VM arg U k = Some (0, U', k')"
  shows "phase_created E k' \<and> created_with k'"
proof -
  obtain g k2 where r: "kernova_amd_svm_create_vm E g (kernova_refresh_caps_locked E a k) = Some (0, k2)" "k' = kernova_refresh_caps_locked E a k2"
    using assms(3) by (auto simp: ioctl_dispatch ioctl_create_def Let_def split: option.splits if_splits prod.splits)
  have "svm_inv E (kernova_refresh_caps_locked E a k)" using assms(2) by simp
  from create_contents [OF assms(1) this r(1)] show ?thesis by (simp add: r(2) created_with_def)
qed

lemma kd_setup_created:
  assumes "device_good Os m W" "kd_setup_guest Os W = Some (0, W')"
  shows "device_good Os m W'" "phase_created (os_kenv Os) (w_kernel W')" "created_with (w_kernel W')"
    "0 \<le> kd_fd (w_kd W')" "kd_configured (w_kd W')"
proof -
  let ?E = "os_kenv Os" and ?kr = "kernova_refresh_caps_locked (os_kenv Os) (os_allow_vmrun Os) (w_kernel W)"
  let ?req = "encode_create \<lparr>create_backend_flags = if env_has_svm ?E then KERNOVA_BACKEND_AMD_SVM
      else KERNOVA_BACKEND_INTEL_VMX, create_guest_size = 4096\<rparr>"
  have c: "0 \<le> kd_fd (w_kd W)" "\<exists>r' bs' W3. sys_ioctl Os KERNOVA_IOCTL_CREATE_VM ?req (W\<lparr>w_kernel := ?kr\<rparr>) = Some (r', bs', W3)
      \<and> r' = 0 \<and> W' = W3\<lparr>w_kd := (w_kd W3)\<lparr>kd_configured := True\<rparr>\<rparr>"
    using assms(2) by (auto simp: kd_setup_guest_def query_caps_result refreshed_caps split: if_splits option.splits prod.splits)
  then obtain bs' W3 where q: "sys_ioctl Os KERNOVA_IOCTL_CREATE_VM ?req (W\<lparr>w_kernel := ?kr\<rparr>) = Some (0, bs', W3)"
    "W' = W3\<lparr>w_kd := (w_kd W3)\<lparr>kd_configured := True\<rparr>\<rparr>" by blast
  then have "\<exists>U'. kernova_ioctl ?E (os_cpu Os) (os_allow_vmrun Os) KERNOVA_IOCTL_CREATE_VM (os_stack Os)
      (caller (os_stack Os) ?req) ?kr = Some (0, U', w_kernel W3)"
    by (auto simp: sys_ioctl_def split: option.splits if_splits)
  moreover have "kenv_ok ?E" "svm_inv ?E ?kr" using assms(1) device_good_inv [OF assms(1)] by (simp_all add: device_good_def)
  ultimately have "phase_created ?E (w_kernel W3) \<and> created_with (w_kernel W3)" using kernova_ioctl_created by blast
  then show "phase_created ?E (w_kernel W')" "created_with (w_kernel W')" using q(2) by simp_all
  have "w_kd W3 = w_kd W" using sys_ioctl_kd [OF q(1)] by simp
  then show "0 \<le> kd_fd (w_kd W')" "kd_configured (w_kd W')" using q(2) c(1) by simp_all
  show "device_good Os m W'" by (rule kd_setup_cases [OF assms(1)]) (use assms(2) in auto)
qed

text \<open>A launch of a machine that was just set up, on hardware that refuses an illegal VMCB.\<close>

lemma kd_launch_prepared:
  assumes "device_good Os m W" "svm_consistency (os_kenv Os)" "phase_created (os_kenv Os) (w_kernel W)" "created_with (w_kernel W)"
    and "0 \<le> kd_fd (w_kd W)" "kd_configured (w_kd W)" "hardware_backend_enabled Os" "os_allow_vmrun Os"
  shows "\<exists>W'. kd_launch Os W = Some (0, W') \<and> sv_last_exit_code (k_svm (w_kernel W')) = - 1 \<and> w_kd W' = w_kd W"
proof -
  let ?E = "os_kenv Os" and ?k = "kernova_refresh_caps_locked (os_kenv Os) True (w_kernel W)" and ?bs = "encode_run (launch_request Os)"
  have e: "kenv_ok ?E" and i: "msr_inv (os_cpu Os) m (w_kernel W)"
    using assms(1) device_good_inv [OF assms(1)] by (simp_all add: device_good_def)
  have ph: "phase_created ?E ?k" and cw: "created_with ?k" using assms(3,4) by (simp_all add: created_with_def)
  have sv: "svme_on (os_cpu Os) ?k"
    using msr_inv_svme [of "os_cpu Os" m ?k] i phase_initialized(3) [OF assms(3)] by simp
  have fl: "run_flags (launch_request Os) AND KERNOVA_RUN_ALLOW_PRIVILEGED \<noteq> 0"
    using assms(7) by (simp add: launch_request_def KERNOVA_RUN_ALLOW_PRIVILEGED_def)
  have rd: "copy_from_user (caller (os_stack Os) ?bs) (os_stack Os) sizeof_run = Some ?bs"
    by (rule caller_read) (simp_all add: sizeof_run_def)
  show ?thesis
  proof (rule run_prepared_invalid [OF e assms(2) ph cw sv TrueI fl])
    fix q k2 assume r: "kernova_amd_svm_run ?E (os_cpu Os) True (launch_request Os) ?k = Some (0, q, k2)"
      "sv_last_exit_code (k_svm k2) = - 1"
    have "copy_to_user (caller (os_stack Os) ?bs) (os_stack Os) (encode_run q)
        = Some ((caller (os_stack Os) ?bs)\<lparr>u_mem := write_bytes (os_stack Os) (encode_run q) (u_mem (caller (os_stack Os) ?bs))\<rparr>)"
      by (simp add: copy_to_user_def caller_def)
    then show ?thesis
      using assms(5,6,8) r rd by (simp add: kd_launch_def sys_ioctl_def ioctl_dispatch ioctl_run_def)
  qed
qed

text \<open>Setting up again on a machine that exists always succeeds.\<close>

lemma kd_setup_again:
  assumes "phase_created (os_kenv Os) (w_kernel W)" "0 \<le> kd_fd (w_kd W)" "kd_initialized (w_kd W)" "env_has_svm (os_kenv Os)"
  shows "\<exists>W'. kd_setup_guest Os W = Some (0, W')"
proof -
  let ?E = "os_kenv Os" and ?k = "kernova_refresh_caps_locked (os_kenv Os) (os_allow_vmrun Os)
    (kernova_refresh_caps_locked (os_kenv Os) (os_allow_vmrun Os) (w_kernel W))"
  let ?bs = "encode_create \<lparr>create_backend_flags = KERNOVA_BACKEND_AMD_SVM, create_guest_size = 4096\<rparr>"
  have "phase_created ?E ?k" using assms(1) by simp
  then obtain k' where k: "kernova_amd_svm_create_vm ?E 4096 ?k = Some (0, k')"
    by (rule create_created [OF _ order_refl])
  have "copy_from_user (caller (os_stack Os) ?bs) (os_stack Os) sizeof_create = Some ?bs"
    by (rule caller_read) (simp_all add: sizeof_create_def length_encode)
  then show ?thesis
    using assms(2-4) k by (simp add: kd_setup_guest_def query_caps_result refreshed_caps sys_ioctl_def ioctl_dispatch
        ioctl_create_def KERNOVA_BACKEND_AMD_SVM_def)
qed

text \<open>C12: A refused guest counts as a validation: with both switches on, on hardware that rejects an
  illegal VMCB as the AMD manual says, the sequence of the orchestrator (set up the guest, then
  launch it) through the driver backend succeeds with exit code -1 (\<open>VMEXIT_INVALID\<close>: the
  guest never ran an instruction), and the status it then reports is hardware-validated in the mode
  \<open>kernel-driver-vmexit\<close>.\<close>

theorem invalid_exit_validates:
  assumes "device_good Os m W" "svm_consistency (os_kenv Os)" "kd_setup_guest Os W = Some (0, W1)"
    and "hardware_backend_enabled Os" "os_allow_vmrun Os"
  shows "\<exists>W2 s W3. kd_launch Os W1 = Some (0, W2) \<and> sv_last_exit_code (k_svm (w_kernel W2)) = - 1
    \<and> kd_status Os W2 = Some (s, W3) \<and> bs_hardware_validated s \<and> bs_mode s = ''kernel-driver-vmexit''"
proof -
  note c = kd_setup_created [OF assms(1,3)]
  obtain W2 where l: "kd_launch Os W1 = Some (0, W2)" "sv_last_exit_code (k_svm (w_kernel W2)) = - 1" "w_kd W2 = w_kd W1"
    using kd_launch_prepared [OF c(1) assms(2) c(2-5) assms(4,5)] by blast
  then show ?thesis
    using c(4) by (simp add: kd_status_def query_caps_result refreshed_caps Let_def)
qed

definition demo_prepared :: world where
  "demo_prepared = demo_world\<lparr>w_kd := \<lparr>kd_fd = 3, kd_initialized = True, kd_configured = True\<rparr>, w_kernel := demo_created\<rparr>"

theorem invalid_exit_validates_witness:
  "\<exists>W1 W2 s W3. kd_setup_guest demo_os demo_prepared = Some (0, W1) \<and> kd_launch demo_os W1 = Some (0, W2)
    \<and> kd_status demo_os W2 = Some (s, W3) \<and> bs_hardware_validated s"
proof -
  have g: "device_good demo_os (\<lambda>_ _. 0) demo_prepared"
    by (simp add: demo_prepared_def device_good_def demo_ok demo_created_reach)
  obtain W1 where s: "kd_setup_guest demo_os demo_prepared = Some (0, W1)"
    using kd_setup_again [of demo_os demo_prepared] by (auto simp: demo_prepared_def demo_created_phase demo_env_flags)
  show ?thesis using invalid_exit_validates [OF g _ s] s demo_consistency by auto
qed

text \<open>C11: The limit of the last property. If the process sets up the guest on one CPU and the scheduler then
  moves it to another, whose SVME is clear, the launch executes VMRUN there and crashes
  the kernel, with both switches on: nothing in the service or the driver pins the process.\<close>

theorem migrated_launch_crashes:
  assumes "device_good Os m W" "kd_setup_guest Os W = Some (0, W1)" "hardware_backend_enabled Os" "os_allow_vmrun Os"
    and "b \<noteq> os_cpu Os" "m b MSR_EFER AND EFER_SVME = 0"
  shows "backend_launch KernelDriver (Os\<lparr>os_cpu := b\<rparr>) A W1 = None"
proof -
  note c = kd_setup_created [OF assms(1,2)]
  let ?E = "os_kenv Os" and ?k = "kernova_refresh_caps_locked (os_kenv Os) True (w_kernel W1)" and ?Os = "Os\<lparr>os_cpu := b\<rparr>"
  let ?bs = "encode_run (launch_request ?Os)"
  have i: "msr_inv (os_cpu Os) m (w_kernel W1)" using device_good_inv [OF c(1)] by simp
  then have "k_msr ?k b = m b" using assms(5) by (simp add: msr_inv_def split: if_splits)
  then have b: "k_msr ?k b MSR_EFER AND EFER_SVME = 0" using assms(6) by simp
  have en: "hardware_backend_enabled ?Os" using assms(3) by (simp add: hardware_backend_enabled_def)
  have fl: "run_flags (launch_request ?Os) AND KERNOVA_RUN_ALLOW_PRIVILEGED \<noteq> 0"
    using en by (simp add: launch_request_def KERNOVA_RUN_ALLOW_PRIVILEGED_def)
  have rd: "copy_from_user (caller (os_stack Os) ?bs) (os_stack Os) sizeof_run = Some ?bs"
    by (rule caller_read) (simp_all add: sizeof_run_def)
  have "kernova_amd_svm_run ?E b True (launch_request ?Os) ?k = None"
    by (rule run_other_cpu [OF _ b TrueI fl]) (use c(2) in simp)
  then show ?thesis
    using c(4,5) assms(4) rd by (simp add: kd_launch_def sys_ioctl_def ioctl_dispatch ioctl_run_def)
qed

theorem migrated_launch_crashes_witness:
  "\<exists>W1. kd_setup_guest demo_os demo_prepared = Some (0, W1)
    \<and> backend_launch KernelDriver (demo_os\<lparr>os_cpu := 1\<rparr>) vmx_stubs W1 = None"
proof -
  have g: "device_good demo_os (\<lambda>_ _. 0) demo_prepared"
    by (simp add: demo_prepared_def device_good_def demo_ok demo_created_reach)
  obtain W1 where s: "kd_setup_guest demo_os demo_prepared = Some (0, W1)"
    using kd_setup_again [of demo_os demo_prepared] by (auto simp: demo_prepared_def demo_created_phase demo_env_flags)
  show ?thesis using migrated_launch_crashes [OF g s, of 1] s by simp
qed

end
