(* ===== verification/Orchestrator.thy ===== *)
theory Orchestrator
  imports Trace_Engine Backend
begin

text \<open>
  \<^verbatim>\<open>src/main.cpp\<close>: configuration, the enclave buffer, monitoring, the self tests, the public
  API and \<^verbatim>\<open>main\<close>. One record \<open>process\<close> holds the globals of the program (its own, those of
  the backends and of the trace engine), its memory and what \<^verbatim>\<open>main.cpp\<close> printed; \<open>penv\<close> holds
  what the program finds around it: the CPU, the operating system, the allocator, the addresses
  the linker and the stack give to its buffers. \<open>None\<close> is a call that does not come back: a
  fault, or a return to a wrong address. What the backends print is not modelled.
\<close>

section \<open>Configuration\<close>

definition ENCLAVE_SIZE :: u64 where "ENCLAVE_SIZE = 0x100000"
definition DATA_BUFFER_SIZE :: u64 where "DATA_BUFFER_SIZE = 0x10000"
definition NUM_TRACES :: u64 where "NUM_TRACES = 1024"
definition HEARTBEAT_INTERVAL_MS :: u64 where "HEARTBEAT_INTERVAL_MS = 1000"

definition strict_vmx_required :: "os \<Rightarrow> bool" where
  "strict_vmx_required Os \<longleftrightarrow>
     (case os_getenv Os ''KERNOVA_STRICT_VMX'' of None \<Rightarrow> False | Some v \<Rightarrow> v = ''1'')"

definition config_hardware_backend_enabled :: "os \<Rightarrow> bool" where
  "config_hardware_backend_enabled Os \<longleftrightarrow>
     (case os_getenv Os ''KERNOVA_ENABLE_HARDWARE_BACKEND'' of None \<Rightarrow> False | Some v \<Rightarrow> v = ''1'')"

section \<open>State\<close>

record hypervisor_state =
  hardware_virtualization_validated :: bool
  trace_enabled :: bool
  enclave_active :: bool
  enclave_base :: u64
  vmexits_total :: u64
  vmexits_per_second :: u64
  data_transferred_bytes :: u64
  suspicious_events :: u64
  integrity_violations :: u64

definition initial_hv_state :: hypervisor_state where
  "initial_hv_state = \<lparr>hardware_virtualization_validated = False, trace_enabled = False, enclave_active = False,
     enclave_base = 0, vmexits_total = 0, vmexits_per_second = 0, data_transferred_bytes = 0,
     suspicious_events = 0, integrity_violations = 0\<rparr>"

record enclave_buffer =
  eb_data :: u64
  eb_size :: u64

definition empty_buffer :: enclave_buffer where
  "empty_buffer = \<lparr>eb_data = 0, eb_size = 0\<rparr>"

text \<open>A \<^verbatim>\<open>printf\<close>: the format without its line breaks, and the arguments.\<close>

datatype arg = Num int | Str string | Chars "u8 list" | Text c_text

type_synonym line = "string \<times> arg list"

record process =
  g_hv_state :: hypervisor_state
  g_enclave :: enclave_buffer
  g_backend :: "backend_kind option"
  backends :: world
  trace_bss :: bss
  p_mem :: memory
  p_allocs :: nat
  p_freed :: "u64 list"
  p_out :: "line list"

text \<open>\<open>pe_alloc n align size\<close> is what the \<open>n\<close>-th \<^verbatim>\<open>aligned_alloc\<close> returns; \<open>pe_hash_buffer\<close> is the
  \<^verbatim>\<open>hash_buffer\<close> of the trace engine; then the locals of the self tests and the text they send.\<close>

record penv =
  pe_os :: os
  pe_host :: host
  pe_api :: vmx_api
  pe_alloc :: "nat \<Rightarrow> u64 \<Rightarrow> u64 \<Rightarrow> u64"
  pe_tsc :: u64
  pe_hash_buffer :: u64
  pe_src :: u64
  pe_dest :: u64
  pe_hash :: u64
  pe_message :: u64
  pe_recv_buffer :: u64

definition printf :: "string \<Rightarrow> arg list \<Rightarrow> process \<Rightarrow> process" where
  "printf f args P = P\<lparr>p_out := p_out P @ [(f, args)]\<rparr>"

section \<open>The enclave buffer\<close>

definition buffer_allocate :: "penv \<Rightarrow> u64 \<Rightarrow> process \<Rightarrow> bool \<times> process" where
  "buffer_allocate E sz P =
     (let a = pe_alloc E (p_allocs P) 4096 sz;
          P = P\<lparr>p_allocs := p_allocs P + 1\<rparr>;
          P = P\<lparr>g_enclave := (g_enclave P)\<lparr>eb_data := a\<rparr>\<rparr>
      in if a = 0 then (False, P)
         else
           let P = P\<lparr>g_enclave := (g_enclave P)\<lparr>eb_size := sz\<rparr>\<rparr>;
               P = P\<lparr>p_mem := write_bytes a (replicate (unat sz) 0) (p_mem P)\<rparr>
           in (True, P))"

definition buffer_deallocate :: "process \<Rightarrow> process" where
  "buffer_deallocate P =
     (if eb_data (g_enclave P) \<noteq> 0 then
        P\<lparr>p_freed := eb_data (g_enclave P) # p_freed P, g_enclave := \<lparr>eb_data = 0, eb_size = 0\<rparr>\<rparr>
      else P)"

definition buffer_zero :: "penv \<Rightarrow> process \<Rightarrow> (bool \<times> process) option" where
  "buffer_zero E P =
     (if eb_data (g_enclave P) = 0 then Some (False, P)
      else case c_simd_zero_memory (pe_host E) (eb_data (g_enclave P)) (eb_size (g_enclave P)) (p_mem P) of
        None \<Rightarrow> None
      | Some (r, m) \<Rightarrow> Some (r = eb_size (g_enclave P), P\<lparr>p_mem := m\<rparr>))"

section \<open>The enclave\<close>

definition enclave_init :: "penv \<Rightarrow> process \<Rightarrow> (int \<times> process) option" where
  "enclave_init E P =
     (let (allocated, P) = buffer_allocate E ENCLAVE_SIZE P in
      if \<not> allocated then Some (- 1, P)
      else case buffer_zero E P of
        None \<Rightarrow> None
      | Some (zeroed, P) \<Rightarrow>
          if \<not> zeroed then Some (- 2, buffer_deallocate P)
          else
            let P = P\<lparr>g_hv_state := (g_hv_state P)\<lparr>enclave_base := eb_data (g_enclave P)\<rparr>\<rparr>;
                P = P\<lparr>g_hv_state := (g_hv_state P)\<lparr>enclave_active := True\<rparr>\<rparr>
            in Some (0, P))"

definition enclave_cleanup :: "penv \<Rightarrow> process \<Rightarrow> process option" where
  "enclave_cleanup E P =
     (case buffer_zero E P of
        None \<Rightarrow> None
      | Some (_, P) \<Rightarrow>
          let P = buffer_deallocate P
          in Some (P\<lparr>g_hv_state := (g_hv_state P)\<lparr>enclave_active := False\<rparr>\<rparr>))"

text \<open>The loop of \<open>send_data\<close> that reverses the data: \<^verbatim>\<open>std::swap(data[i], data[size - 1 - i])\<close>.\<close>

definition swap_bytes :: "u64 \<Rightarrow> u64 \<Rightarrow> memory \<Rightarrow> memory" where
  "swap_bytes a b m = m(a := m b, b := m a)"

fun reverse_loop :: "u64 \<Rightarrow> u64 \<Rightarrow> nat \<Rightarrow> memory \<Rightarrow> memory" where
  "reverse_loop d sz 0 m = m"
| "reverse_loop d sz (Suc i) m = swap_bytes (d + of_nat i) (d + (sz - 1 - of_nat i)) (reverse_loop d sz i m)"

definition send_data :: "penv \<Rightarrow> u64 \<Rightarrow> u64 \<Rightarrow> process \<Rightarrow> (int \<times> process) option" where
  "send_data E src sz P =
     (if \<not> enclave_active (g_hv_state P) \<or> src = 0 \<or> sz = 0 then Some (- 1, P)
      else if DATA_BUFFER_SIZE < sz then Some (- 2, P)
      else case c_simd_pack_data (pe_host E) (eb_data (g_enclave P)) src sz 1 (p_mem P) of
        None \<Rightarrow> None
      | Some (r, m) \<Rightarrow>
          let P = P\<lparr>p_mem := m\<rparr> in
          if r <s 0 then Some (- 3, P)
          else
            let P = P\<lparr>g_hv_state := (g_hv_state P)\<lparr>data_transferred_bytes := data_transferred_bytes (g_hv_state P) + sz\<rparr>\<rparr>;
                P = P\<lparr>p_mem := reverse_loop (eb_data (g_enclave P)) sz (unat (sz div 2)) (p_mem P)\<rparr>
            in Some (0, P))"

definition receive_data :: "penv \<Rightarrow> u64 \<Rightarrow> u64 \<Rightarrow> process \<Rightarrow> (int \<times> process) option" where
  "receive_data E dest sz P =
     (if \<not> enclave_active (g_hv_state P) \<or> dest = 0 \<or> sz = 0 then Some (- 1, P)
      else if DATA_BUFFER_SIZE < sz then Some (- 2, P)
      else case c_simd_unpack_data (pe_host E) dest (eb_data (g_enclave P)) sz 1 (p_mem P) of
        None \<Rightarrow> None
      | Some (r, m) \<Rightarrow>
          let P = P\<lparr>p_mem := m\<rparr> in
          if r <s 0 then Some (- 3, P) else Some (0, P))"

section \<open>Monitoring\<close>

definition monitor_init :: "process \<Rightarrow> int \<times> process" where
  "monitor_init P =
     (let P = printf ''[*] Initializing trace engine...'' [] P;
          (r, t) = trace_init (trace_bss P);
          P = P\<lparr>trace_bss := t\<rparr>
      in if r \<noteq> 0 then (- 1, printf ''[-] Trace engine initialization failed: %ld'' [Num (sint r)] P)
         else
           let P = printf ''[+] Trace engine initialized'' [] P;
               P = P\<lparr>g_hv_state := (g_hv_state P)\<lparr>trace_enabled := True\<rparr>\<rparr>
           in (0, P))"

definition monitor_check_integrity :: "penv \<Rightarrow> process \<Rightarrow> (int \<times> process) option" where
  "monitor_check_integrity E P =
     (if \<not> trace_enabled (g_hv_state P) then Some (- 1, P)
      else case trace_check_integrity (pe_host E) (pe_hash_buffer E) (pe_tsc E) (trace_bss P) (p_mem P) of
        None \<Rightarrow> None
      | Some (r, t, m) \<Rightarrow>
          let P = P\<lparr>trace_bss := t, p_mem := m\<rparr> in
          if r \<noteq> 0 then
            let P = printf ''[!] Integrity check FAILED - possible rootkit detected!'' [] P
            in Some (- 2, P\<lparr>g_hv_state := (g_hv_state P)\<lparr>integrity_violations := integrity_violations (g_hv_state P) + 1\<rparr>\<rparr>)
          else Some (0, P))"

definition monitor_log_event :: "penv \<Rightarrow> u64 \<Rightarrow> u64 \<Rightarrow> process \<Rightarrow> process" where
  "monitor_log_event E event_type data P =
     (if trace_enabled (g_hv_state P)
      then P\<lparr>trace_bss := snd (trace_log_event (pe_tsc E) event_type data (trace_bss P))\<rparr>
      else P)"

section \<open>The self tests\<close>

definition TEST_SIZE :: u64 where "TEST_SIZE = 256"

definition test_pattern :: "u8 list" where
  "test_pattern = map (\<lambda>i. ucast ((of_nat i :: u64) AND 0xFF)) [0..<unat TEST_SIZE]"

definition test_simd_operations :: "penv \<Rightarrow> process \<Rightarrow> process option" where
  "test_simd_operations E P =
     (let H = pe_host E;
          P = printf ''[*] Testing SIMD operations...'' [] P;
          P = P\<lparr>p_mem := write_bytes (pe_src E) test_pattern (p_mem P)\<rparr>
      in case c_simd_secure_memcpy H (pe_dest E) (pe_src E) TEST_SIZE (p_mem P) of
        None \<Rightarrow> None
      | Some (r, m) \<Rightarrow>
          let P = printf (if r = TEST_SIZE then ''[+] SIMD memcpy successful'' else ''[-] SIMD memcpy failed'') [] (P\<lparr>p_mem := m\<rparr>)
          in case c_simd_hash_blocks H (pe_src E) TEST_SIZE (pe_hash E) (p_mem P) of
            None \<Rightarrow> None
          | Some (r, m) \<Rightarrow>
              let P = printf (if r = 0 then ''[+] SIMD hash successful'' else ''[-] SIMD hash failed'') [] (P\<lparr>p_mem := m\<rparr>)
              in case c_simd_zero_memory H (pe_dest E) TEST_SIZE (p_mem P) of
                None \<Rightarrow> None
              | Some (r, m) \<Rightarrow>
                  let P = printf (if r = TEST_SIZE then ''[+] SIMD zero memory successful'' else ''[-] SIMD zero memory failed'')
                            [] (P\<lparr>p_mem := m\<rparr>);
                      all_zero = (\<forall>b\<in>set (read_bytes (p_mem P) (pe_dest E) (unat TEST_SIZE)). b = 0)
                  in Some (if all_zero then printf ''[+] Memory zero verified'' [] P else P))"

definition test_message :: string where "test_message = ''Hello, Secure Enclave!''"
definition msg_len :: u64 where "msg_len = of_nat (length test_message)"

definition test_enclave_operations :: "penv \<Rightarrow> process \<Rightarrow> process option" where
  "test_enclave_operations E P =
     (let P = printf ''[*] Testing enclave operations...'' [] P in
      case send_data E (pe_message E) msg_len P of
        None \<Rightarrow> None
      | Some (r, P) \<Rightarrow>
          if r \<noteq> 0 then Some (printf ''[-] Failed to send data to enclave: %d'' [Num r] P)
          else
            let P = printf ''[+] Data sent to enclave'' [] P in
            case receive_data E (pe_recv_buffer E) msg_len P of
              None \<Rightarrow> None
            | Some (r, P) \<Rightarrow>
                if r = 0 then
                  let P = printf ''[+] Data received from enclave'' [] P;
                      P = printf ''    Original: %s'' [Chars (read_bytes (p_mem P) (pe_message E) (unat msg_len))] P
                  in Some (printf ''    Processed: %s'' [Chars (read_bytes (p_mem P) (pe_recv_buffer E) (unat msg_len))] P)
                else Some (printf ''[-] Failed to receive data from enclave: %d'' [Num r] P))"

section \<open>The public API\<close>

text \<open>The end of \<open>hypervisor_init\<close>: the launch (-5 is the early return), then the status.\<close>

definition init_launch :: "penv \<Rightarrow> backend_kind \<Rightarrow> backend_status \<Rightarrow> process \<Rightarrow> (int \<times> process) option" where
  "init_launch E b status P =
     (let Os = pe_os E in
      if config_hardware_backend_enabled Os \<and> bs_kernel_driver_available status then
        let P = printf ''[*] Attempting privileged kernel driver launch...'' [] P in
        case backend_launch b Os (pe_api E) (backends P) of
          None \<Rightarrow> None
        | Some (r, W) \<Rightarrow>
            let P = P\<lparr>backends := W\<rparr> in
            if r \<noteq> 0 then
              if strict_vmx_required Os then Some (- 5, printf ''[-] Kernel driver launch failed'' [] P)
              else Some (0, printf ''[!] Kernel driver launch did not complete; continuing in PoC mode'' [] P)
            else Some (0, P)
      else Some (0, P))"

definition init_validated :: "penv \<Rightarrow> backend_kind \<Rightarrow> process \<Rightarrow> process option" where
  "init_validated E b P =
     (case backend_status_of b (pe_os E) (backends P) of
        None \<Rightarrow> None
      | Some (s, W) \<Rightarrow>
          let P = P\<lparr>backends := W\<rparr>
          in Some (P\<lparr>g_hv_state := (g_hv_state P)\<lparr>hardware_virtualization_validated := bs_hardware_validated s\<rparr>\<rparr>))"

text \<open>The hardware part of \<open>hypervisor_init\<close>, with the backend selected and its status read.\<close>

definition init_backend :: "penv \<Rightarrow> backend_kind \<Rightarrow> backend_status \<Rightarrow> process \<Rightarrow> (int \<times> process) option" where
  "init_backend E b status P =
     (let Os = pe_os E in
      case backend_init b Os (pe_api E) (backends P) of
        None \<Rightarrow> None
      | Some (r, W) \<Rightarrow>
          let P = P\<lparr>backends := W\<rparr> in
          if r \<noteq> 0 then
            if strict_vmx_required Os
            then Some (- 3, printf ''[-] Failed to initialize hardware virtualization backend'' [] P)
            else Some (0, printf ''[!] %s; continuing in userspace PoC mode'' [Text (bs_reason status)] P)
          else
            case backend_setup_guest b Os (pe_api E) (backends P) of
              None \<Rightarrow> None
            | Some (r, W) \<Rightarrow>
                let P = P\<lparr>backends := W\<rparr> in
                if r \<noteq> 0 then
                  if strict_vmx_required Os
                  then Some (- 4, printf ''[-] Failed to setup hardware virtualization guest state'' [] P)
                  else Some (0, printf ''[!] Guest setup unavailable; continuing in userspace PoC mode'' [] P)
                else
                  case init_launch E b status P of
                    None \<Rightarrow> None
                  | Some (r, P) \<Rightarrow> if r \<noteq> 0 then Some (r, P) else map_option (\<lambda>P. (0, P)) (init_validated E b P))"

definition hypervisor_init :: "penv \<Rightarrow> process \<Rightarrow> (int \<times> process) option" where
  "hypervisor_init E P =
     (let P = printf ''========================================'' [] P;
          P = printf ''  Kernova-TEE v2.0.0'' [] P;
          P = printf ''  Trusted Execution Environment'' [] P;
          P = printf ''========================================'' [] P;
          (r, P) = monitor_init P
      in if r \<noteq> 0 then Some (- 1, printf ''[-] Failed to initialize monitoring'' [] P)
         else case enclave_init E P of
           None \<Rightarrow> None
         | Some (r, P) \<Rightarrow>
             if r \<noteq> 0 then Some (- 2, printf ''[-] Failed to initialize enclave'' [] P)
             else
               let (b, W) = select_backend (pe_os E) (backends P);
                   P = P\<lparr>g_backend := Some b, backends := W\<rparr>
               in case backend_status_of b (pe_os E) (backends P) of
                 None \<Rightarrow> None
               | Some (status, W) \<Rightarrow>
                   let P = P\<lparr>backends := W\<rparr>;
                       P = printf ''[*] CPU Vendor: %s (%s)''
                             [Str (cpu_vendor_name (vendor (bs_cpu status))), Chars (vendor_id (bs_cpu status))] P;
                       P = printf ''[*] Selected virtualization backend: %s'' [Str (backend_name b)] P
                   in (case init_backend E b status P of
                         None \<Rightarrow> None
                       | Some (r, P) \<Rightarrow>
                           if r \<noteq> 0 then Some (r, P)
                           else Some (0, printf ''[+] Hypervisor initialization complete'' [] P)))"

text \<open>\<open>hypervisor_main\<close> returns, or stays in its loop of \<^verbatim>\<open>hlt\<close> instructions for ever (user mode
  answers the first one with a general protection fault). \<open>main_report\<close> is what it prints after the
  integrity check.\<close>

datatype 'a outcome = Returns 'a | Halts process

definition main_report :: "int \<Rightarrow> process \<Rightarrow> line list" where
  "main_report r P =
     (if r = 0 then [(''[+] System integrity verified'', [])] else []) @
     [(''[*] Hypervisor ready - halting (PoC mode)'', []),
      (''    In production, guest OS would resume here'', []),
      (''========================================'', []),
      (''  Statistics:'', []),
      (''  - Backend: %s'', [Str (case g_backend P of None \<Rightarrow> ''Unknown'' | Some b \<Rightarrow> backend_name b)]),
      (''  - Hardware Virtualization: %s'',
         [Str (if hardware_virtualization_validated (g_hv_state P) then ''Validated'' else ''PoC/Fallback'')]),
      (''  - Enclave Active: %s'', [Str (if enclave_active (g_hv_state P) then ''Yes'' else ''No'')]),
      (''  - Data Transferred: %lu bytes'', [Num (uint (data_transferred_bytes (g_hv_state P)))]),
      (''========================================'', [])]"

definition hypervisor_main :: "penv \<Rightarrow> process \<Rightarrow> process outcome option" where
  "hypervisor_main E P =
     (let P = printf ''[*] Entering hypervisor main loop...'' [] P in
      case test_simd_operations E P of
        None \<Rightarrow> None
      | Some P \<Rightarrow>
          (case test_enclave_operations E P of
             None \<Rightarrow> None
           | Some P \<Rightarrow>
               let P = printf ''[*] Running integrity check...'' [] P in
               case monitor_check_integrity E P of
                 None \<Rightarrow> None
               | Some (r, P) \<Rightarrow>
                   let P = P\<lparr>p_out := p_out P @ main_report r P\<rparr>
                   in if \<not> hardware_virtualization_validated (g_hv_state P)
                      then Some (Returns (printf ''[*] Userspace PoC run complete'' [] P))
                      else Some (Halts P)))"

definition hypervisor_shutdown :: "penv \<Rightarrow> process \<Rightarrow> process option" where
  "hypervisor_shutdown E P =
     (let P = printf ''[*] Shutting down hypervisor...'' [] P in
      case (case g_backend P of
              None \<Rightarrow> Some P
            | Some b \<Rightarrow> map_option (\<lambda>W. P\<lparr>backends := W\<rparr>) (backend_shutdown b (pe_os E) (backends P))) of
        None \<Rightarrow> None
      | Some P \<Rightarrow>
          (case enclave_cleanup E P of
             None \<Rightarrow> None
           | Some P \<Rightarrow> Some (printf ''[+] Hypervisor shutdown complete'' [] P)))"

text \<open>The results of type \<^verbatim>\<open>int\<close> become \<^verbatim>\<open>uint64_t\<close>.\<close>

definition vmcall_handler :: "penv \<Rightarrow> u64 \<Rightarrow> u64 \<Rightarrow> u64 \<Rightarrow> process \<Rightarrow> (u64 \<times> process) option" where
  "vmcall_handler E func param1 param2 P =
     (if func = 0 then
        Some (param1 + param2, printf ''[VMCALL] Echo: %lu, %lu'' [Num (uint param1), Num (uint param2)] P)
      else if func = 1 then map_option (\<lambda>(r, P). (word_of_int r, P)) (send_data E param1 param2 P)
      else if func = 2 then map_option (\<lambda>(r, P). (word_of_int r, P)) (monitor_check_integrity E P)
      else Some (0xFFFFFFFFFFFFFFFF, printf ''[VMCALL] Unknown function: %lu'' [Num (uint func)] P))"

definition kernova_main :: "penv \<Rightarrow> process \<Rightarrow> (int \<times> process) outcome option" where
  "kernova_main E P =
     (case hypervisor_init E P of
        None \<Rightarrow> None
      | Some (r, P) \<Rightarrow>
          if r \<noteq> 0 then
            Some (Returns (r, printf ''Fatal: Hypervisor initialization failed with code %d'' [Num r] P))
          else
            (case hypervisor_main E P of
               None \<Rightarrow> None
             | Some (Halts P) \<Rightarrow> Some (Halts P)
             | Some (Returns P) \<Rightarrow> map_option (\<lambda>P. Returns (0, P)) (hypervisor_shutdown E P)))"

section \<open>The reversal\<close>

lemma addr_inj: "i < 2 ^ 64 \<Longrightarrow> j < 2 ^ 64 \<Longrightarrow> (d :: u64) + of_nat i = d + of_nat j \<longleftrightarrow> i = j"
  by (simp add: word_of_nat_eq_iff take_bit_nat_eq_self)

lemma last_addr:
  assumes "unat (sz :: u64) = n" "k < n"
  shows "sz - 1 - of_nat k = of_nat (n - 1 - k)"
proof -
  have sz: "sz = of_nat n" by (simp flip: assms(1))
  have "of_nat (n - 1 - k) = (of_nat n - 1 - of_nat k :: u64)" using assms(2) by (simp add: of_nat_diff)
  then show ?thesis unfolding sz by simp
qed

lemma reverse_loop_in:
  assumes "unat sz = n" "k \<le> n div 2" "i < n"
  shows "reverse_loop d sz k m (d + of_nat i)
    = m (d + of_nat (if i < k \<or> n - 1 - i < k then n - 1 - i else i))"
  using assms(2,3)
proof (induction k arbitrary: i)
  case (Suc k)
  have b: "n < 2 ^ 64" using assms(1) unsigned_less [of sz, where 'a = nat] by simp
  have last: "sz - 1 - of_nat k = of_nat (n - 1 - k)"
    by (rule last_addr [OF assms(1)]) (use Suc.prems in linarith)
  have eq: "d + of_nat i = d + of_nat j \<longleftrightarrow> i = j" if "j < n" for j
    using addr_inj [of i j d] that Suc.prems(2) b by simp
  have IH: "reverse_loop d sz k m (d + of_nat j)
      = m (d + of_nat (if j < k \<or> n - 1 - j < k then n - 1 - j else j))" if "j < n" for j
    using Suc.IH [of j] Suc.prems(1) that by simp
  have kn: "k < n" "n - 1 - k < n" "k < n - 1 - k" "n - 1 - (n - 1 - k) = k" using Suc.prems(1) by linarith+
  have step: "reverse_loop d sz (Suc k) m (d + of_nat i)
    = (if i = n - 1 - k then reverse_loop d sz k m (d + of_nat k)
       else if i = k then reverse_loop d sz k m (d + of_nat (n - 1 - k))
       else reverse_loop d sz k m (d + of_nat i))"
    using eq [OF kn(1)] eq [OF kn(2)] unfolding reverse_loop.simps swap_bytes_def last fun_upd_apply by simp
  consider "i = k" | "i = n - 1 - k" | "i \<noteq> k" "i \<noteq> n - 1 - k" by blast
  then show ?case
  proof cases
    case 1
    then show ?thesis using step IH [OF kn(2)] kn by simp
  next
    case 2
    then show ?thesis using step IH [OF kn(1)] kn by simp
  next
    case 3
    have "i < Suc k \<or> n - 1 - i < Suc k \<longleftrightarrow> i < k \<or> n - 1 - i < k" using 3 Suc.prems(2) by linarith
    then show ?thesis using step IH [OF Suc.prems(2)] 3 by simp
  qed
qed simp

lemma reverse_loop_out:
  assumes "unat sz = n" "k \<le> n div 2" "\<And>i. i < n \<Longrightarrow> x \<noteq> d + of_nat i"
  shows "reverse_loop d sz k m x = m x"
  using assms(2)
proof (induction k)
  case (Suc k)
  have k: "k < n" "n - 1 - k < n" using Suc.prems by linarith+
  have "x \<noteq> d + of_nat k" "x \<noteq> d + (sz - 1 - of_nat k)"
    using assms(3) [OF k(1)] assms(3) [OF k(2)] unfolding last_addr [OF assms(1) k(1)] .
  then show ?case using Suc by (simp add: swap_bytes_def)
qed simp

lemma reverse_loop_write:
  assumes "length bs = unat sz"
  shows "reverse_loop d sz (unat (sz div 2)) (write_bytes d bs m) = write_bytes d (rev bs) m"
proof
  fix x
  define n where "n = unat sz"
  have n: "unat sz = n" "n < 2 ^ 64" "length bs = n" using unsigned_less [of sz, where 'a = nat] assms by (simp_all add: n_def)
  have half: "unat (sz div 2) = n div 2" by (simp add: n_def unat_div)
  show "reverse_loop d sz (unat (sz div 2)) (write_bytes d bs m) x = write_bytes d (rev bs) m x"
  proof (cases "\<exists>i<n. x = d + of_nat i")
    case True
    then obtain i where i: "i < n" "x = d + of_nat i" by blast
    have mid: "(if i < n div 2 \<or> n - 1 - i < n div 2 then n - 1 - i else i) = n - 1 - i"
    proof (cases "i < n div 2 \<or> n - 1 - i < n div 2")
      case False
      then have "n - 1 - i = i" using i(1) by linarith
      then show ?thesis using False by (simp only: if_False)
    qed simp
    have "reverse_loop d sz (unat (sz div 2)) (write_bytes d bs m) x = write_bytes d bs m (d + of_nat (n - 1 - i))"
      unfolding half i(2) reverse_loop_in [OF n(1) order_refl i(1)] mid by (rule refl)
    also have "\<dots> = bs ! (n - 1 - i)" by (rule write_bytes_same) (use i(1) n in simp_all)
    also have "\<dots> = rev bs ! i" using i(1) n by (simp add: rev_nth)
    also have "\<dots> = write_bytes d (rev bs) m x" using i n by (simp add: write_bytes_same)
    finally show ?thesis .
  next
    case False
    then have o: "\<And>i. i < n \<Longrightarrow> x \<noteq> d + of_nat i" by blast
    then have "reverse_loop d sz (unat (sz div 2)) (write_bytes d bs m) x = write_bytes d bs m x"
      using reverse_loop_out [OF n(1) order_refl o] half by simp
    also have "\<dots> = m x" using o n(3) by (intro write_bytes_other) simp
    also have "\<dots> = write_bytes d (rev bs) m x" using o n(3) by (intro write_bytes_other [symmetric]) simp
    finally show ?thesis .
  qed
qed

section \<open>What the enclave calls do\<close>

definition enclave_open :: "process \<Rightarrow> bool" where
  "enclave_open P \<longleftrightarrow> (enclave_active (g_hv_state P) \<longleftrightarrow> eb_data (g_enclave P) \<noteq> 0)"

definition sent :: "u64 \<Rightarrow> u64 \<Rightarrow> process \<Rightarrow> process" where
  "sent src sz P = P\<lparr>p_mem := write_bytes (eb_data (g_enclave P)) (rev (read_bytes (p_mem P) src (unat sz))) (p_mem P),
     g_hv_state := (g_hv_state P)\<lparr>data_transferred_bytes := data_transferred_bytes (g_hv_state P) + sz\<rparr>\<rparr>"

lemma small_size: "\<not> DATA_BUFFER_SIZE < sz \<Longrightarrow> unat sz \<le> 65536 \<and> unat sz < 2 ^ 63"
  by (simp add: DATA_BUFFER_SIZE_def word_less_nat_alt)

lemma send_data_cases:
  assumes "enclave_open P" "separate (eb_data (g_enclave P)) (unat sz) src (unat sz)"
    and "host_ra (pe_host E) 73 \<noteq> rsp (host_ctx (pe_host E)) - 8"
  shows "send_data E src sz P =
    (if \<not> enclave_active (g_hv_state P) \<or> src = 0 \<or> sz = 0 then Some (- 1, P)
     else if DATA_BUFFER_SIZE < sz then Some (- 2, P)
     else if has_avx512 (host_cpuid (pe_host E)) \<and> \<not> 64 dvd unat sz then None
     else Some (0, sent src sz P))"
proof (cases "\<not> enclave_active (g_hv_state P) \<or> src = 0 \<or> sz = 0 \<or> DATA_BUFFER_SIZE < sz")
  case True
  then show ?thesis by (auto simp: send_data_def)
next
  case False
  let ?d = "eb_data (g_enclave P)" and ?H = "pe_host E" and ?m = "p_mem P"
  have n: "unat sz \<le> 65536" "unat sz < 2 ^ 63" using False small_size by blast+
  have nz: "?d \<noteq> 0" "src \<noteq> 0" "sz \<noteq> 0" using False assms(1) by (simp_all add: enclave_open_def)
  have fin: "send_data E src sz P = Some (0, sent src sz P)"
    if c: "c_simd_pack_data ?H ?d src sz 1 ?m = Some (r, copy_mem ?d src (unat sz) ?m)" and r: "\<not> r <s 0" for r
  proof -
    have "reverse_loop ?d sz (unat (sz div 2)) (copy_mem ?d src (unat sz) ?m) = write_bytes ?d (rev (read_bytes ?m src (unat sz))) ?m"
      by (simp add: copy_mem_def reverse_loop_write)
    then show ?thesis using False c r by (simp add: send_data_def sent_def Let_def)
  qed
  show ?thesis
  proof (cases "has_avx512 (host_cpuid ?H)")
    case True
    show ?thesis
    proof (cases "64 dvd unat sz")
      case t: True
      have "\<not> (0 :: u64) <s 0" by simp
      from fin [OF c_pack_512_multiple [OF nz n(2) assms(2) _ True t] this] show ?thesis using False t by simp
    next
      case f: False
      obtain t where "simd_pack_data (host_cpuid ?H) (host_ra ?H) (call_regs ?H ?d src sz 1 ?m) = Diverted t"
        using pack_512_diverted [OF nz n(2) assms(2) _ True f assms(3), of 1 ?m] by auto
      then have "c_simd_pack_data ?H ?d src sz 1 ?m = None" by (simp add: c_simd_pack_data_def)
      then show ?thesis using False True f by (simp add: send_data_def)
    qed
  next
    case no: False
    have "pack_usable ?H 1 ?d src sz" using nz no by (simp add: pack_usable_def)
    moreover have "\<not> sz <s 0" using n(1) by (simp add: sless_small bit63_iff)
    ultimately show ?thesis using fin [OF packer.copies [OF _ n(2) assms(2)]] False no by simp
  qed
qed

lemma receive_data_cases:
  assumes "enclave_open P" "separate dest (unat sz) (eb_data (g_enclave P)) (unat sz)"
  shows "receive_data E dest sz P =
    (if \<not> enclave_active (g_hv_state P) \<or> dest = 0 \<or> sz = 0 then Some (- 1, P)
     else if DATA_BUFFER_SIZE < sz then Some (- 2, P)
     else Some (0, P\<lparr>p_mem := copy_mem dest (eb_data (g_enclave P)) (unat sz) (p_mem P)\<rparr>))"
proof (cases "\<not> enclave_active (g_hv_state P) \<or> dest = 0 \<or> sz = 0 \<or> DATA_BUFFER_SIZE < sz")
  case True
  then show ?thesis by (auto simp: receive_data_def)
next
  case False
  have n: "unat sz \<le> 65536" "unat sz < 2 ^ 63" using False small_size by blast+
  have "non_null dest (eb_data (g_enclave P)) sz" using False assms(1) by (simp add: non_null_def enclave_open_def)
  moreover have "\<not> sz <s 0" using n(1) by (simp add: sless_small bit63_iff)
  ultimately show ?thesis using unpacker.copies [OF _ n(2) assms(2)] False by (simp add: receive_data_def)
qed

section \<open>The enclave\<close>

lemma separate_mono: "separate a n b k \<Longrightarrow> n' \<le> n \<Longrightarrow> k' \<le> k \<Longrightarrow> separate a n' b k'"
  unfolding separate_def by (meson order_less_le_trans)

lemma enclave_size [simp]: "ENCLAVE_SIZE \<noteq> 0" "unat ENCLAVE_SIZE = 1048576"
  by (simp_all add: ENCLAVE_SIZE_def)

lemma buffer_zero_open:
  assumes "eb_data (g_enclave P) \<noteq> 0" "eb_size (g_enclave P) = ENCLAVE_SIZE"
  shows "buffer_zero E P
    = Some (True, P\<lparr>p_mem := write_bytes (eb_data (g_enclave P)) (replicate 1048576 0) (p_mem P)\<rparr>)"
  using c_zero_memory [OF assms(1) enclave_size(1), of "pe_host E" "p_mem P"] assms
  by (simp add: buffer_zero_def)

definition enclave_opened :: "u64 \<Rightarrow> process \<Rightarrow> process" where
  "enclave_opened a P = P\<lparr>p_allocs := p_allocs P + 1, g_enclave := \<lparr>eb_data = a, eb_size = ENCLAVE_SIZE\<rparr>,
     p_mem := write_bytes a (replicate 1048576 0) (p_mem P),
     g_hv_state := (g_hv_state P)\<lparr>enclave_base := a, enclave_active := True\<rparr>\<rparr>"

lemma write_twice: "length bs = length cs \<Longrightarrow> write_bytes a bs (write_bytes a cs m) = write_bytes a bs m"
  by (rule ext) (simp add: write_bytes_def)

lemma enclave_init_cases:
  defines "a E P \<equiv> pe_alloc E (p_allocs P) 4096 ENCLAVE_SIZE"
  shows "enclave_init E P = (if a E P = 0
      then Some (- 1, P\<lparr>p_allocs := p_allocs P + 1, g_enclave := (g_enclave P)\<lparr>eb_data := 0\<rparr>\<rparr>)
      else Some (0, enclave_opened (a E P) P))"
proof (cases "a E P = 0")
  case True
  then show ?thesis by (simp add: enclave_init_def buffer_allocate_def a_def Let_def)
next
  case False
  let ?P = "P\<lparr>p_allocs := p_allocs P + 1, g_enclave := \<lparr>eb_data = a E P, eb_size = ENCLAVE_SIZE\<rparr>,
      p_mem := write_bytes (a E P) (replicate 1048576 0) (p_mem P)\<rparr>"
  have "buffer_allocate E ENCLAVE_SIZE P = (True, ?P)"
    using False by (simp add: buffer_allocate_def a_def Let_def)
  moreover have "buffer_zero E ?P = Some (True, ?P)"
    using buffer_zero_open [of ?P E] False by (simp add: write_twice)
  ultimately show ?thesis using False by (simp add: enclave_init_def enclave_opened_def)
qed

definition enclave_ok :: "process \<Rightarrow> bool" where
  "enclave_ok P \<longleftrightarrow> enclave_active (g_hv_state P) = (eb_data (g_enclave P) \<noteq> 0)
     \<and> (eb_data (g_enclave P) \<noteq> 0 \<longrightarrow> eb_size (g_enclave P) = ENCLAVE_SIZE \<and> enclave_base (g_hv_state P) = eb_data (g_enclave P))"

lemma enclave_ok_open: "enclave_ok P \<Longrightarrow> enclave_open P"
  by (simp add: enclave_ok_def enclave_open_def)

definition enclave_closed :: "process \<Rightarrow> process" where
  "enclave_closed P = P\<lparr>p_mem := write_bytes (eb_data (g_enclave P)) (replicate 1048576 0) (p_mem P),
     p_freed := eb_data (g_enclave P) # p_freed P, g_enclave := empty_buffer,
     g_hv_state := (g_hv_state P)\<lparr>enclave_active := False\<rparr>\<rparr>"

lemma enclave_cleanup_cases:
  assumes "enclave_ok P"
  shows "enclave_cleanup E P = Some (if enclave_active (g_hv_state P) then enclave_closed P else P)"
proof (cases "enclave_active (g_hv_state P)")
  case True
  then have "eb_data (g_enclave P) \<noteq> 0" "eb_size (g_enclave P) = ENCLAVE_SIZE" using assms by (simp_all add: enclave_ok_def)
  then show ?thesis
    using True buffer_zero_open [of P E]
    by (simp add: enclave_cleanup_def buffer_deallocate_def enclave_closed_def empty_buffer_def)
next
  case False
  then have "eb_data (g_enclave P) = 0" using assms by (simp add: enclave_ok_def)
  then show ?thesis using False by (simp add: enclave_cleanup_def buffer_zero_def buffer_deallocate_def)
qed

section \<open>Frames\<close>

text \<open>Everything but the output, the backends and the verdict on the hardware.\<close>

definition core :: "process \<Rightarrow> process" where
  "core P = P\<lparr>p_out := [], backends := undefined, g_hv_state := (g_hv_state P)\<lparr>hardware_virtualization_validated := False\<rparr>\<rparr>"

lemma printf_simps [simp]:
  "g_hv_state (printf f as P) = g_hv_state P" "g_enclave (printf f as P) = g_enclave P"
  "g_backend (printf f as P) = g_backend P" "backends (printf f as P) = backends P"
  "trace_bss (printf f as P) = trace_bss P" "p_mem (printf f as P) = p_mem P"
  "p_allocs (printf f as P) = p_allocs P" "p_freed (printf f as P) = p_freed P"
  "p_out (printf f as P) = p_out P @ [(f, as)]" "core (printf f as P) = core P"
  by (simp_all add: printf_def core_def)

lemma core_simps [simp]: "core (P\<lparr>backends := W\<rparr>) = core P"
  "core (P\<lparr>g_hv_state := (g_hv_state P)\<lparr>hardware_virtualization_validated := v\<rparr>\<rparr>) = core P"
  by (simp_all add: core_def)

lemma core_fields:
  assumes "core P = core Q"
  shows "g_enclave P = g_enclave Q" "p_mem P = p_mem Q" "trace_bss P = trace_bss Q" "p_freed P = p_freed Q"
    "g_backend P = g_backend Q" "enclave_active (g_hv_state P) = enclave_active (g_hv_state Q)"
    "trace_enabled (g_hv_state P) = trace_enabled (g_hv_state Q)" "enclave_base (g_hv_state P) = enclave_base (g_hv_state Q)"
    "data_transferred_bytes (g_hv_state P) = data_transferred_bytes (g_hv_state Q)"
  using assms by (auto simp: core_def dest: arg_cong [where f = g_enclave] arg_cong [where f = p_mem]
      arg_cong [where f = trace_bss] arg_cong [where f = p_freed] arg_cong [where f = g_backend]
      arg_cong [where f = "\<lambda>P. enclave_active (g_hv_state P)"] arg_cong [where f = "\<lambda>P. trace_enabled (g_hv_state P)"]
      arg_cong [where f = "\<lambda>P. enclave_base (g_hv_state P)"] arg_cong [where f = "\<lambda>P. data_transferred_bytes (g_hv_state P)"])

section \<open>Initialisation\<close>

text \<open>Only the driver backend needs a good device.\<close>

definition usable :: "backend_kind \<Rightarrow> os \<Rightarrow> (nat \<Rightarrow> u32 \<Rightarrow> u64) \<Rightarrow> world \<Rightarrow> bool" where
  "usable b Os m W \<longleftrightarrow> (b = KernelDriver \<longrightarrow> device_good Os m W)"

lemma backend_calls_return:
  assumes "usable b Os m W"
  shows "\<exists>s W'. backend_status_of b Os W = Some (s, W') \<and> usable b Os m W'"
    "\<exists>r W'. backend_init b Os A W = Some (r, W') \<and> usable b Os m W'"
    "\<exists>r W'. backend_setup_guest b Os A W = Some (r, W') \<and> usable b Os m W'"
    "\<exists>r W'. backend_launch b Os A W = Some (r, W') \<and> usable b Os m W'"
proof -
  have none: "\<exists>s W'. backend_status_of b Os W = Some (s, W') \<and> usable b Os m W'"
    "\<exists>r W'. backend_init b Os A W = Some (r, W') \<and> usable b Os m W'"
    "\<exists>r W'. backend_setup_guest b Os A W = Some (r, W') \<and> usable b Os m W'"
    "\<exists>r W'. backend_launch b Os A W = Some (r, W') \<and> usable b Os m W'" if "b \<noteq> KernelDriver"
    using that by (cases b; auto simp: usable_def)+
  have driver: "\<exists>s W'. backend_status_of b Os W = Some (s, W') \<and> usable b Os m W'"
    "\<exists>r W'. backend_init b Os A W = Some (r, W') \<and> usable b Os m W'"
    "\<exists>r W'. backend_setup_guest b Os A W = Some (r, W') \<and> usable b Os m W'"
    "\<exists>r W'. backend_launch b Os A W = Some (r, W') \<and> usable b Os m W'" if b: "b = KernelDriver"
  proof -
    have g: "device_good Os m W" using assms b by (simp add: usable_def)
    show "\<exists>s W'. backend_status_of b Os W = Some (s, W') \<and> usable b Os m W'"
      using kd_status_step [OF g] unfolding b usable_def by (metis backend_status_of.simps(2))
    show "\<exists>r W'. backend_init b Os A W = Some (r, W') \<and> usable b Os m W'"
      using kd_guarded.init_returns [OF g, of A] unfolding b usable_def by blast
    show "\<exists>r W'. backend_setup_guest b Os A W = Some (r, W') \<and> usable b Os m W'"
      using kd_guarded.setup_returns [OF g, of A] unfolding b usable_def by blast
    show "\<exists>r W'. backend_launch b Os A W = Some (r, W') \<and> usable b Os m W'"
      using kd_guarded.launch_returns [OF g, of A] unfolding b usable_def by blast
  qed
  show "\<exists>s W'. backend_status_of b Os W = Some (s, W') \<and> usable b Os m W'"
    "\<exists>r W'. backend_init b Os A W = Some (r, W') \<and> usable b Os m W'"
    "\<exists>r W'. backend_setup_guest b Os A W = Some (r, W') \<and> usable b Os m W'"
    "\<exists>r W'. backend_launch b Os A W = Some (r, W') \<and> usable b Os m W'"
    using none driver by blast+
qed

lemma init_launch_outcome:
  assumes "usable b (pe_os E) m (backends P)"
  shows "\<exists>r P'. init_launch E b s P = Some (r, P') \<and> usable b (pe_os E) m (backends P') \<and> core P' = core P
    \<and> (r = 0 \<or> r = - 5 \<and> strict_vmx_required (pe_os E))"
  using assms backend_calls_return(4) [OF assms, of "pe_api E"]
  by (auto simp: init_launch_def Let_def)

lemma init_validated_outcome:
  assumes "usable b (pe_os E) m (backends P)"
  shows "\<exists>P'. init_validated E b P = Some P' \<and> usable b (pe_os E) m (backends P') \<and> core P' = core P"
  using assms backend_calls_return(1) [OF assms] by (auto simp: init_validated_def core_def Let_def)

lemma init_backend_outcome:
  assumes "usable b (pe_os E) m (backends P)"
  shows "\<exists>r P'. init_backend E b s P = Some (r, P') \<and> usable b (pe_os E) m (backends P') \<and> core P' = core P
    \<and> (r = 0 \<or> r \<in> {- 3, - 4, - 5} \<and> strict_vmx_required (pe_os E))"
proof -
  obtain r1 W1 where 1: "backend_init b (pe_os E) (pe_api E) (backends P) = Some (r1, W1)" "usable b (pe_os E) m W1"
    using backend_calls_return(2) [OF assms] by blast
  obtain r2 W2 where 2: "backend_setup_guest b (pe_os E) (pe_api E) W1 = Some (r2, W2)" "usable b (pe_os E) m W2"
    using backend_calls_return(3) [OF 1(2)] by blast
  let ?P2 = "P\<lparr>backends := W2\<rparr>"
  obtain r3 P3 where 3: "init_launch E b s ?P2 = Some (r3, P3)" "usable b (pe_os E) m (backends P3)" "core P3 = core P"
      "r3 = 0 \<or> r3 = - 5 \<and> strict_vmx_required (pe_os E)"
    using init_launch_outcome [of b E m ?P2 s] 2(2) by auto
  obtain P4 where 4: "init_validated E b P3 = Some P4" "usable b (pe_os E) m (backends P4)" "core P4 = core P"
    using init_validated_outcome [OF 3(2)] 3(3) by auto
  show ?thesis
    using 1 2 3 4 by (auto simp: init_backend_def Let_def)
qed

definition monitored :: "process \<Rightarrow> process" where
  "monitored P = P\<lparr>trace_bss := snd (trace_init (trace_bss P)), g_hv_state := (g_hv_state P)\<lparr>trace_enabled := True\<rparr>\<rparr>"

lemma trace_init_ok [simp]: "fst (trace_init t) = 0"
  by (simp add: trace_init_def Let_def ok_def)

lemma monitor_init_succeeds: "\<exists>P'. monitor_init P = (0, P') \<and> core P' = core (monitored P) \<and> backends P' = backends P \<and> p_allocs P' = p_allocs P
    \<and> hardware_virtualization_validated (g_hv_state P') = hardware_virtualization_validated (g_hv_state P)"
  by (cases "trace_init (trace_bss P)") (use trace_init_ok [of "trace_bss P"] in \<open>auto simp: monitor_init_def monitored_def core_def printf_def\<close>)

text \<open>The part of \<open>hypervisor_init\<close> after the enclave.\<close>

definition init_select :: "penv \<Rightarrow> process \<Rightarrow> (int \<times> process) option" where
  "init_select E P =
     (let (b, W) = select_backend (pe_os E) (backends P);
          P = P\<lparr>g_backend := Some b, backends := W\<rparr>
      in case backend_status_of b (pe_os E) (backends P) of
        None \<Rightarrow> None
      | Some (status, W) \<Rightarrow>
          let P = P\<lparr>backends := W\<rparr>;
              P = printf ''[*] CPU Vendor: %s (%s)''
                    [Str (cpu_vendor_name (vendor (bs_cpu status))), Chars (vendor_id (bs_cpu status))] P;
              P = printf ''[*] Selected virtualization backend: %s'' [Str (backend_name b)] P
          in (case init_backend E b status P of
                None \<Rightarrow> None
              | Some (r, P) \<Rightarrow>
                  if r \<noteq> 0 then Some (r, P)
                  else Some (0, printf ''[+] Hypervisor initialization complete'' [] P)))"

definition banner :: "process \<Rightarrow> process" where
  "banner P = printf ''========================================'' [] (printf ''  Trusted Execution Environment'' []
     (printf ''  Kernova-TEE v2.0.0'' [] (printf ''========================================'' [] P)))"

lemma hypervisor_init_unfold:
  "hypervisor_init E P = (case monitor_init (banner P) of (r, P) \<Rightarrow>
     if r \<noteq> 0 then Some (- 1, printf ''[-] Failed to initialize monitoring'' [] P)
     else case enclave_init E P of
       None \<Rightarrow> None
     | Some (r, P) \<Rightarrow> if r \<noteq> 0 then Some (- 2, printf ''[-] Failed to initialize enclave'' [] P) else init_select E P)"
  by (simp only: hypervisor_init_def init_select_def banner_def Let_def)

lemma select_good:
  "device_good Os m W \<Longrightarrow> device_good Os m (snd (select_backend Os W))"
proof -
  assume g: "device_good Os m W"
  obtain there W' where k: "kd_available Os W = (there, W')" by fastforce
  then have "device_good Os m W'" using g by (auto simp: kd_available_def Let_def split: if_splits)
  moreover have "snd (select_backend Os W) = W'" using k by (simp add: select_backend_def Let_def)
  ultimately show ?thesis by simp
qed

lemma core_backend: "core (P\<lparr>g_backend := b\<rparr>) = (core P)\<lparr>g_backend := b\<rparr>"
  by (simp add: core_def)

lemma core_opened: "core (enclave_opened a P) = core (enclave_opened a (core P))"
  by (simp add: core_def enclave_opened_def)

lemma core_monitored: "core (monitored P) = core (monitored (core P))"
  by (simp add: core_def monitored_def)

lemma init_select_outcome:
  assumes "0 \<le> kd_fd (w_kd (backends P)) \<or> 0 \<le> os_open (pe_os E) \<Longrightarrow> device_good (pe_os E) m (backends P)"
  shows "\<exists>r P'. init_select E P = Some (r, P')
    \<and> core P' = core (P\<lparr>g_backend := Some (fst (select_backend (pe_os E) (backends P)))\<rparr>)
    \<and> (r = 0 \<or> r \<in> {- 3, - 4, - 5} \<and> strict_vmx_required (pe_os E))"
proof -
  obtain b W where s: "select_backend (pe_os E) (backends P) = (b, W)" by fastforce
  have g: "usable b (pe_os E) m W"
    unfolding usable_def
  proof
    assume "b = KernelDriver"
    then have "0 \<le> kd_fd (w_kd (backends P)) \<or> 0 \<le> os_open (pe_os E)"
      using s by (auto simp: select_backend_def kd_available_def Let_def split: if_splits)
    then show "device_good (pe_os E) m W" using select_good [OF assms] s by simp
  qed
  obtain st W2 where 2: "backend_status_of b (pe_os E) W = Some (st, W2)" "usable b (pe_os E) m W2"
    using backend_calls_return(1) [OF g] by blast
  define Q where "Q = printf ''[*] Selected virtualization backend: %s'' [Str (backend_name b)]
    (printf ''[*] CPU Vendor: %s (%s)'' [Str (cpu_vendor_name (vendor (bs_cpu st))), Chars (vendor_id (bs_cpu st))]
      (P\<lparr>g_backend := Some b, backends := W2\<rparr>))"
  have gq: "usable b (pe_os E) m (backends Q)" and cq: "core Q = core (P\<lparr>g_backend := Some b\<rparr>)"
    using 2(2) by (simp_all add: Q_def core_backend)
  have run: "init_select E P = (case init_backend E b st Q of None \<Rightarrow> None
      | Some (r, P) \<Rightarrow> if r \<noteq> 0 then Some (r, P) else Some (0, printf ''[+] Hypervisor initialization complete'' [] P))"
    using s 2 by (simp add: init_select_def Q_def)
  show ?thesis unfolding run
    using init_backend_outcome [OF gq, of st] cq s by auto
qed

lemma hypervisor_init_select:
  defines "a E P \<equiv> pe_alloc E (p_allocs P) 4096 ENCLAVE_SIZE"
  shows "(a E P = 0 \<and> (\<exists>P'. hypervisor_init E P = Some (- 2, P') \<and> backends P' = backends P
        \<and> enclave_active (g_hv_state P') = enclave_active (g_hv_state P) \<and> p_freed P' = p_freed P))
    \<or> (a E P \<noteq> 0 \<and> (\<exists>P2. hypervisor_init E P = init_select E P2 \<and> backends P2 = backends P
        \<and> core P2 = core (enclave_opened (a E P) (monitored P))
        \<and> hardware_virtualization_validated (g_hv_state P2) = hardware_virtualization_validated (g_hv_state P)))"
proof -
  obtain P1 where 1: "monitor_init (banner P) = (0, P1)" "core P1 = core (monitored (banner P))"
      "backends P1 = backends P" "p_allocs P1 = p_allocs P"
      "hardware_virtualization_validated (g_hv_state P1) = hardware_virtualization_validated (g_hv_state P)"
    using monitor_init_succeeds [of "banner P"] by (auto simp: banner_def)
  note c1 = enclave_init_cases [of E P1, unfolded 1(4)]
  show ?thesis
  proof (cases "a E P = 0")
    case True
    have "enclave_active (g_hv_state P1) = enclave_active (g_hv_state P)" "p_freed P1 = p_freed P"
      using core_fields(4,6) [OF 1(2)] by (simp_all add: monitored_def banner_def)
    then show ?thesis using True 1 c1 by (simp add: hypervisor_init_unfold a_def)
  next
    case False
    let ?P2 = "enclave_opened (a E P) P1"
    have e: "enclave_init E P1 = Some (0, ?P2)" using c1 False by (simp add: a_def)
    have c2: "core ?P2 = core (enclave_opened (a E P) (monitored P))"
      using core_opened [of "a E P" P1] core_opened [of "a E P" "monitored P"] core_monitored [of P] core_monitored [of "banner P"] 1(2)
      by (simp add: banner_def)
    have "backends ?P2 = backends P"
      "hardware_virtualization_validated (g_hv_state ?P2) = hardware_virtualization_validated (g_hv_state P)"
      using 1(3,5) by (simp_all add: enclave_opened_def)
    moreover have "hypervisor_init E P = init_select E ?P2" using 1(1) e by (simp add: hypervisor_init_unfold)
    ultimately show ?thesis using False c2 by blast
  qed
qed

lemma hypervisor_init_outcome:
  assumes "0 \<le> kd_fd (w_kd (backends P)) \<or> 0 \<le> os_open (pe_os E) \<Longrightarrow> device_good (pe_os E) m (backends P)"
  defines "a \<equiv> pe_alloc E (p_allocs P) 4096 ENCLAVE_SIZE"
  shows "\<exists>r P'. hypervisor_init E P = Some (r, P')
    \<and> (a = 0 \<longrightarrow> r = - 2 \<and> enclave_active (g_hv_state P') = enclave_active (g_hv_state P) \<and> p_freed P' = p_freed P)
    \<and> (a \<noteq> 0 \<longrightarrow> (r = 0 \<or> r \<in> {- 3, - 4, - 5} \<and> strict_vmx_required (pe_os E))
        \<and> core P' = core ((enclave_opened a (monitored P))\<lparr>g_backend := Some (fst (select_backend (pe_os E) (backends P)))\<rparr>))"
  using hypervisor_init_select [of E P]
proof (elim disjE conjE exE)
  fix P' assume "hypervisor_init E P = Some (- 2, P')" "backends P' = backends P"
    "enclave_active (g_hv_state P') = enclave_active (g_hv_state P)" "p_freed P' = p_freed P"
    "pe_alloc E (p_allocs P) 4096 ENCLAVE_SIZE = 0"
  then show ?thesis by (simp add: a_def)
next
  fix P2 assume 2: "pe_alloc E (p_allocs P) 4096 ENCLAVE_SIZE \<noteq> 0" "hypervisor_init E P = init_select E P2"
    "backends P2 = backends P" "core P2 = core (enclave_opened (pe_alloc E (p_allocs P) 4096 ENCLAVE_SIZE) (monitored P))"
  have "0 \<le> kd_fd (w_kd (backends P2)) \<or> 0 \<le> os_open (pe_os E) \<Longrightarrow> device_good (pe_os E) m (backends P2)"
    using assms(1) 2(3) by simp
  from init_select_outcome [OF this] show ?thesis using 2 by (auto simp: a_def core_backend)
qed

section \<open>The main loop\<close>

lemma check_integrity_reach:
  assumes "trace_enabled (g_hv_state P)" "trace_reach (pe_host E) (pe_hash_buffer E) (trace_bss P) (p_mem P)"
  obtains t where "monitor_check_integrity E P = Some (0, P\<lparr>trace_bss := t\<rparr>)"
    "trace_reach (pe_host E) (pe_hash_buffer E) t (p_mem P)"
proof -
  note b = trace_reach_blank [OF assms(2)]
  obtain t where t: "trace_check_integrity (pe_host E) (pe_hash_buffer E) (pe_tsc E) (trace_bss P) (p_mem P) = Some (ok, t, p_mem P)"
    using check_integrity_blank [of "trace_bss P" "p_mem P" "pe_hash_buffer E"] b by blast
  have "monitor_check_integrity E P = Some (0, P\<lparr>trace_bss := t\<rparr>)"
    using assms(1) t by (simp add: monitor_check_integrity_def ok_def)
  then show ?thesis using that trace_reach.check [OF assms(2) t] by blast
qed

text \<open>Where the buffers of the program are: the locals and the text of the self tests, the hash buffer
  of the trace engine and the enclave.\<close>

fun laid_out :: "(u64 \<times> nat) list \<Rightarrow> bool" where
  "laid_out [] \<longleftrightarrow> True"
| "laid_out ((a, n) # rs) \<longleftrightarrow> a \<noteq> 0 \<and> (\<forall>r\<in>set rs. separate a n (fst r) (snd r)) \<and> laid_out rs"

definition regions :: "penv \<Rightarrow> u64 \<Rightarrow> (u64 \<times> nat) list" where
  "regions E a = [(pe_src E, 256), (pe_dest E, 256), (pe_hash E, 32), (pe_message E, 22), (pe_recv_buffer E, 22),
     (pe_hash_buffer E, 32), (a, 1048576)]"

lemma test_size [simp]: "unat TEST_SIZE = 256" "TEST_SIZE \<noteq> 0" "length test_pattern = 256"
  by (simp_all add: TEST_SIZE_def test_pattern_def)

lemma message_length [simp]: "unat msg_len = 22" "msg_len \<noteq> 0" "msg_len \<le> DATA_BUFFER_SIZE"
  by (simp_all add: msg_len_def test_message_def DATA_BUFFER_SIZE_def)

definition simd_lines :: "line list" where
  "simd_lines = map (\<lambda>s. (s, [])) [''[*] Testing SIMD operations...'', ''[+] SIMD memcpy successful'',
     ''[+] SIMD hash successful'', ''[+] SIMD zero memory successful'', ''[+] Memory zero verified'']"

lemma test_simd_succeeds:
  assumes "laid_out (regions E a)"
  obtains m where "test_simd_operations E P = Some (P\<lparr>p_mem := m, p_out := p_out P @ simd_lines\<rparr>)"
    "\<And>x n. separate x n (pe_src E) 256 \<Longrightarrow> separate x n (pe_dest E) 256 \<Longrightarrow> separate x n (pe_hash E) 32
       \<Longrightarrow> read_bytes m x n = read_bytes (p_mem P) x n"
proof -
  let ?H = "pe_host E" and ?s = "pe_src E" and ?d = "pe_dest E" and ?h = "pe_hash E"
  have nz: "?s \<noteq> 0" "?d \<noteq> 0" "?h \<noteq> 0" and sep: "separate ?d 256 ?s 256"
    using assms separate_sym by (auto simp: regions_def)
  define m1 where "m1 = write_bytes ?s test_pattern (p_mem P)"
  define m2 where "m2 = copy_mem ?d ?s 256 m1"
  define m3 where "m3 = write_bytes ?h (hash_spec (read_bytes m2 ?s 256)) m2"
  define m4 where "m4 = write_bytes ?d (replicate 256 0) m3"
  have c1: "c_simd_secure_memcpy ?H ?d ?s TEST_SIZE m1 = Some (TEST_SIZE, m2)"
    using c_memcpy_copies [of TEST_SIZE ?d ?s ?H m1] sep by (simp add: m2_def)
  have c2: "c_simd_hash_blocks ?H ?s TEST_SIZE ?h m2 = Some (0, m3)"
    using c_hash_blocks [OF nz(1,3), of ?H TEST_SIZE m2] by (simp add: m3_def)
  have c3: "c_simd_zero_memory ?H ?d TEST_SIZE m3 = Some (TEST_SIZE, m4)"
    using c_zero_memory [OF nz(2) test_size(2), of ?H m3] by (simp add: m4_def)
  have z: "read_bytes m4 ?d 256 = replicate 256 0" by (simp add: m4_def mem_simps)
  have run: "test_simd_operations E P = Some (P\<lparr>p_mem := m4, p_out := p_out P @ simd_lines\<rparr>)"
    using c1 c2 c3 z unfolding m1_def
    by (simp add: test_simd_operations_def simd_lines_def printf_def Let_def del: set_replicate_conv_if)
  have fr: "read_bytes m4 x n = read_bytes (p_mem P) x n"
    if "separate x n ?s 256" "separate x n ?d 256" "separate x n ?h 32" for x n
  proof -
    have "read_bytes m4 x n = read_bytes m3 x n" using that(2) by (simp add: m4_def mem_simps)
    also have "\<dots> = read_bytes m2 x n" using that(3) by (simp add: m3_def mem_simps)
    also have "\<dots> = read_bytes m1 x n" using that(2) by (simp add: m2_def copy_mem_def mem_simps)
    also have "\<dots> = read_bytes (p_mem P) x n" using that(1) by (simp add: m1_def mem_simps)
    finally show ?thesis .
  qed
  show ?thesis by (rule that [OF run fr])
qed

definition enclave_lines :: "u8 list \<Rightarrow> line list" where
  "enclave_lines bs = [(''[*] Testing enclave operations...'', []), (''[+] Data sent to enclave'', []),
     (''[+] Data received from enclave'', []), (''    Original: %s'', [Chars bs]), (''    Processed: %s'', [Chars (rev bs)])]"

lemma test_enclave_succeeds:
  assumes "laid_out (regions E (eb_data (g_enclave P)))" "enclave_open P" "enclave_active (g_hv_state P)"
    and "\<not> has_avx512 (host_cpuid (pe_host E))" "host_ra (pe_host E) 73 \<noteq> rsp (host_ctx (pe_host E)) - 8"
  obtains m where "test_enclave_operations E P = Some (P\<lparr>p_mem := m,
      g_hv_state := (g_hv_state P)\<lparr>data_transferred_bytes := data_transferred_bytes (g_hv_state P) + msg_len\<rparr>,
      p_out := p_out P @ enclave_lines (read_bytes (p_mem P) (pe_message E) 22)\<rparr>)"
    "\<And>x n. separate x n (eb_data (g_enclave P)) 22 \<Longrightarrow> separate x n (pe_recv_buffer E) 22
       \<Longrightarrow> read_bytes m x n = read_bytes (p_mem P) x n"
proof -
  let ?a = "eb_data (g_enclave P)" and ?bs = "read_bytes (p_mem P) (pe_message E) 22"
  have nz: "pe_message E \<noteq> 0" "pe_recv_buffer E \<noteq> 0" and l: "separate (pe_message E) 22 (pe_recv_buffer E) 22"
    and s: "separate (pe_message E) 22 ?a 1048576" "separate (pe_recv_buffer E) 22 ?a 1048576"
    using assms(1) by (auto simp: regions_def)
  have ma: "separate ?a 22 (pe_message E) 22" and ra: "separate (pe_recv_buffer E) 22 ?a 22"
    using separate_mono [OF s(1), of 22 22] separate_mono [OF s(2), of 22 22] separate_sym by auto
  define m1 where "m1 = write_bytes ?a (rev ?bs) (p_mem P)"
  define m2 where "m2 = copy_mem (pe_recv_buffer E) ?a 22 m1"
  define Q where "Q = printf ''[*] Testing enclave operations...'' [] P"
  have Q: "enclave_open Q" "enclave_active (g_hv_state Q)" "g_enclave Q = g_enclave P" "p_mem Q = p_mem P" "g_hv_state Q = g_hv_state P"
    using assms(2,3) by (simp_all add: Q_def enclave_open_def)
  have send: "send_data E (pe_message E) msg_len Q = Some (0, sent (pe_message E) msg_len Q)"
    using send_data_cases [of Q msg_len "pe_message E" E] Q ma assms(4,5) nz(1) by (simp flip: not_le)
  define R where "R = printf ''[+] Data sent to enclave'' [] (sent (pe_message E) msg_len Q)"
  have R: "enclave_open R" "enclave_active (g_hv_state R)" "g_enclave R = g_enclave P" "p_mem R = m1"
    using Q by (simp_all add: R_def sent_def m1_def enclave_open_def)
  have recv: "receive_data E (pe_recv_buffer E) msg_len R = Some (0, R\<lparr>p_mem := m2\<rparr>)"
    using receive_data_cases [of R "pe_recv_buffer E" msg_len E] R ra nz(2) by (simp add: m2_def flip: not_le)
  have a1: "read_bytes m1 ?a 22 = rev ?bs" by (simp add: m1_def mem_simps)
  have r2: "read_bytes m2 (pe_recv_buffer E) 22 = rev ?bs" by (simp add: m2_def copy_mem_def mem_simps a1)
  have o2: "read_bytes m2 (pe_message E) 22 = ?bs"
    using l separate_mono [OF s(1), of 22 22] by (simp add: m2_def m1_def copy_mem_def mem_simps)
  have run: "test_enclave_operations E P = Some (P\<lparr>p_mem := m2,
      g_hv_state := (g_hv_state P)\<lparr>data_transferred_bytes := data_transferred_bytes (g_hv_state P) + msg_len\<rparr>,
      p_out := p_out P @ enclave_lines ?bs\<rparr>)"
    using send recv r2 o2 unfolding R_def Q_def
    by (simp add: test_enclave_operations_def enclave_lines_def printf_def sent_def)
  have fr: "read_bytes m2 x n = read_bytes (p_mem P) x n"
    if "separate x n ?a 22" "separate x n (pe_recv_buffer E) 22" for x n
    using that by (simp add: m2_def m1_def copy_mem_def mem_simps)
  show ?thesis by (rule that [OF run fr])
qed

lemma test_enclave_crashes:
  assumes "laid_out (regions E (eb_data (g_enclave P)))" "enclave_open P" "enclave_active (g_hv_state P)"
    and "has_avx512 (host_cpuid (pe_host E))" "host_ra (pe_host E) 73 \<noteq> rsp (host_ctx (pe_host E)) - 8"
  shows "test_enclave_operations E P = None"
proof -
  let ?a = "eb_data (g_enclave P)" and ?Q = "printf ''[*] Testing enclave operations...'' [] P"
  have nz: "pe_message E \<noteq> 0" and s: "separate (pe_message E) 22 ?a 1048576"
    using assms(1) by (auto simp: regions_def)
  have "separate ?a 22 (pe_message E) 22" using separate_mono [OF s, of 22 22] separate_sym by auto
  then have "send_data E (pe_message E) msg_len ?Q = None"
    using send_data_cases [of ?Q msg_len "pe_message E" E] assms nz by (simp add: enclave_open_def flip: not_le)
  then show ?thesis by (simp add: test_enclave_operations_def)
qed

text \<open>A process whose enclave is open and whose monitor runs, on a host that lays the buffers out.\<close>

definition running :: "penv \<Rightarrow> process \<Rightarrow> bool" where
  "running E P \<longleftrightarrow> enclave_ok P \<and> enclave_active (g_hv_state P) \<and> trace_enabled (g_hv_state P)
     \<and> laid_out (regions E (eb_data (g_enclave P)))
     \<and> trace_reach (pe_host E) (pe_hash_buffer E) (trace_bss P) (p_mem P)
     \<and> host_ra (pe_host E) 73 \<noteq> rsp (host_ctx (pe_host E)) - 8"

lemma hypervisor_main_crashes:
  assumes "running E P" "has_avx512 (host_cpuid (pe_host E))"
  shows "hypervisor_main E P = None"
proof -
  let ?P = "printf ''[*] Entering hypervisor main loop...'' [] P"
  have l: "laid_out (regions E (eb_data (g_enclave P)))" using assms(1) by (simp add: running_def)
  obtain m where t: "test_simd_operations E ?P = Some (?P\<lparr>p_mem := m, p_out := p_out ?P @ simd_lines\<rparr>)"
    by (rule test_simd_succeeds [OF l])
  have "test_enclave_operations E (?P\<lparr>p_mem := m, p_out := p_out ?P @ simd_lines\<rparr>) = None"
    by (rule test_enclave_crashes) (use assms in \<open>auto simp: running_def enclave_ok_def enclave_open_def\<close>)
  then show ?thesis using t by (simp add: hypervisor_main_def)
qed

lemma main_tail:
  assumes "test_simd_operations E (printf ''[*] Entering hypervisor main loop...'' [] P) = Some P1"
    and "test_enclave_operations E P1 = Some P2"
    and "monitor_check_integrity E (printf ''[*] Running integrity check...'' [] P2) = Some (0, P3)"
  obtains P4 ls where "hypervisor_main E P = Some (if hardware_virtualization_validated (g_hv_state P3) then Halts P4 else Returns P4)"
    "P4 = P3\<lparr>p_out := p_out P3 @ ls\<rparr>" "(''[+] System integrity verified'', []) \<in> set ls"
    "(''  - Data Transferred: %lu bytes'', [Num (uint (data_transferred_bytes (g_hv_state P3)))]) \<in> set ls"
proof -
  let ?P4 = "P3\<lparr>p_out := p_out P3 @ main_report 0 P3\<rparr>"
  have run: "hypervisor_main E P = Some (if hardware_virtualization_validated (g_hv_state P3) then Halts ?P4
      else Returns (printf ''[*] Userspace PoC run complete'' [] ?P4))"
    using assms by (simp add: hypervisor_main_def)
  have l: "(''[+] System integrity verified'', []) \<in> set (main_report 0 P3)"
    "(''  - Data Transferred: %lu bytes'', [Num (uint (data_transferred_bytes (g_hv_state P3)))]) \<in> set (main_report 0 P3)"
    by (simp_all add: main_report_def)
  show ?thesis
  proof (cases "hardware_virtualization_validated (g_hv_state P3)")
    case True
    then show ?thesis using that [OF _ refl l] run by simp
  next
    case False
    then show ?thesis
      using that [of _ "main_report 0 P3 @ [(''[*] Userspace PoC run complete'', [])]"] run l by (simp add: printf_def)
  qed
qed

lemma hypervisor_main_succeeds:
  assumes "running E P" "\<not> has_avx512 (host_cpuid (pe_host E))"
  obtains P' where "hypervisor_main E P = Some (if hardware_virtualization_validated (g_hv_state P) then Halts P' else Returns P')"
    "g_enclave P' = g_enclave P" "backends P' = backends P" "g_backend P' = g_backend P" "p_freed P' = p_freed P"
    "g_hv_state P' = (g_hv_state P)\<lparr>data_transferred_bytes := data_transferred_bytes (g_hv_state P) + msg_len\<rparr>"
    "set (p_out P) \<union> set simd_lines \<union> set (enclave_lines (read_bytes (p_mem P) (pe_message E) 22))
       \<union> {(''[+] System integrity verified'', [])} \<subseteq> set (p_out P')"
proof -
  let ?a = "eb_data (g_enclave P)"
  have l: "laid_out (regions E ?a)" using assms(1) by (simp add: running_def)
  have sep: "separate (pe_message E) 22 (pe_src E) 256" "separate (pe_message E) 22 (pe_dest E) 256"
    "separate (pe_message E) 22 (pe_hash E) 32" "separate (pe_hash_buffer E) 32 (pe_src E) 256"
    "separate (pe_hash_buffer E) 32 (pe_dest E) 256" "separate (pe_hash_buffer E) 32 (pe_hash E) 32"
    "separate (pe_hash_buffer E) 32 (pe_recv_buffer E) 22" "separate (pe_hash_buffer E) 32 ?a 1048576"
    using l by (auto simp: regions_def intro: separate_sym)
  have sep2: "separate (pe_hash_buffer E) 32 ?a 22" using separate_mono [OF sep(8), of 32 22] by simp
  define P0 where "P0 = printf ''[*] Entering hypervisor main loop...'' [] P"
  obtain m1 where t1: "test_simd_operations E P0 = Some (P0\<lparr>p_mem := m1, p_out := p_out P0 @ simd_lines\<rparr>)"
    and f1: "\<And>x n. separate x n (pe_src E) 256 \<Longrightarrow> separate x n (pe_dest E) 256 \<Longrightarrow> separate x n (pe_hash E) 32
       \<Longrightarrow> read_bytes m1 x n = read_bytes (p_mem P0) x n"
    by (rule test_simd_succeeds [OF l, of P0]) blast
  define P1 where "P1 = P0\<lparr>p_mem := m1, p_out := p_out P0 @ simd_lines\<rparr>"
  have e1: "laid_out (regions E (eb_data (g_enclave P1)))" "enclave_open P1" "enclave_active (g_hv_state P1)"
    using assms(1) by (auto simp: P1_def P0_def running_def enclave_ok_def enclave_open_def)
  have ra: "host_ra (pe_host E) 73 \<noteq> rsp (host_ctx (pe_host E)) - 8" using assms(1) by (simp add: running_def)
  obtain m2 where t2: "test_enclave_operations E P1 = Some (P1\<lparr>p_mem := m2,
      g_hv_state := (g_hv_state P1)\<lparr>data_transferred_bytes := data_transferred_bytes (g_hv_state P1) + msg_len\<rparr>,
      p_out := p_out P1 @ enclave_lines (read_bytes (p_mem P1) (pe_message E) 22)\<rparr>)"
    and f2: "\<And>x n. separate x n (eb_data (g_enclave P1)) 22 \<Longrightarrow> separate x n (pe_recv_buffer E) 22
       \<Longrightarrow> read_bytes m2 x n = read_bytes (p_mem P1) x n"
    by (rule test_enclave_succeeds [OF e1 assms(2) ra]) blast
  define P2 where "P2 = P1\<lparr>p_mem := m2,
      g_hv_state := (g_hv_state P1)\<lparr>data_transferred_bytes := data_transferred_bytes (g_hv_state P1) + msg_len\<rparr>,
      p_out := p_out P1 @ enclave_lines (read_bytes (p_mem P1) (pe_message E) 22)\<rparr>"
  define Q where "Q = printf ''[*] Running integrity check...'' [] P2"
  have g1: "p_mem P1 = m1" "g_enclave P1 = g_enclave P" by (simp_all add: P1_def P0_def)
  have "read_bytes m2 (pe_hash_buffer E) 32 = read_bytes m1 (pe_hash_buffer E) 32"
    using f2 [of "pe_hash_buffer E" 32] sep2 sep(7) by (simp add: g1)
  also have "\<dots> = read_bytes (p_mem P) (pe_hash_buffer E) 32" using f1 [of "pe_hash_buffer E" 32] sep by (simp add: P0_def)
  finally have hb: "read_bytes m2 (pe_hash_buffer E) 32 = read_bytes (p_mem P) (pe_hash_buffer E) 32" .
  have msg: "read_bytes (p_mem P1) (pe_message E) 22 = read_bytes (p_mem P) (pe_message E) 22"
    using f1 [of "pe_message E" 22] sep by (simp add: g1 P0_def)
  have Q: "trace_enabled (g_hv_state Q)" "trace_bss Q = trace_bss P" "p_mem Q = m2"
    using assms(1) by (simp_all add: Q_def P2_def P1_def P0_def running_def)
  have "trace_reach (pe_host E) (pe_hash_buffer E) (trace_bss Q) (p_mem Q)"
    unfolding Q(2,3) by (rule trace_reach.other [OF _ hb]) (use assms(1) in \<open>simp add: running_def\<close>)
  then obtain t where t3: "monitor_check_integrity E Q = Some (0, Q\<lparr>trace_bss := t\<rparr>)"
    by (rule check_integrity_reach [OF Q(1)])
  obtain P4 ls where r: "hypervisor_main E P = Some (if hardware_virtualization_validated (g_hv_state (Q\<lparr>trace_bss := t\<rparr>)) then Halts P4 else Returns P4)"
    "P4 = Q\<lparr>trace_bss := t\<rparr>\<lparr>p_out := p_out (Q\<lparr>trace_bss := t\<rparr>) @ ls\<rparr>" "(''[+] System integrity verified'', []) \<in> set ls"
    by (rule main_tail [OF t1 [folded P1_def, unfolded P0_def] t2 [folded P2_def] t3 [unfolded Q_def], folded Q_def]) blast
  show ?thesis
    by (rule that [of P4]) (use r msg in \<open>auto simp: Q_def P2_def P1_def P0_def\<close>)
qed

definition shutdown_backend :: "penv \<Rightarrow> process \<Rightarrow> world option" where
  "shutdown_backend E P = (case g_backend P of None \<Rightarrow> Some (backends P) | Some b \<Rightarrow> backend_shutdown b (pe_os E) (backends P))"

lemma shutdown_closes:
  assumes "shutdown_backend E P = Some W" "enclave_ok P"
  obtains P' where "hypervisor_shutdown E P = Some P'" "backends P' = W" "set (p_out P) \<subseteq> set (p_out P')"
    "\<not> enclave_active (g_hv_state P')" "enclave_ok P'"
    "enclave_active (g_hv_state P) \<Longrightarrow> p_freed P' = eb_data (g_enclave P) # p_freed P
       \<and> p_mem P' = write_bytes (eb_data (g_enclave P)) (replicate 1048576 0) (p_mem P)"
    "\<not> enclave_active (g_hv_state P) \<Longrightarrow> p_freed P' = p_freed P \<and> p_mem P' = p_mem P"
proof -
  define R where "R = (printf ''[*] Shutting down hypervisor...'' [] P)\<lparr>backends := W\<rparr>"
  have "enclave_ok R" using assms(2) by (simp add: R_def enclave_ok_def)
  then have c: "enclave_cleanup E R = Some (if enclave_active (g_hv_state P) then enclave_closed R else R)"
    using enclave_cleanup_cases [of R E] by (simp add: R_def)
  have w: "(case g_backend (printf ''[*] Shutting down hypervisor...'' [] P) of None \<Rightarrow> Some (printf ''[*] Shutting down hypervisor...'' [] P)
      | Some b \<Rightarrow> map_option (\<lambda>W. (printf ''[*] Shutting down hypervisor...'' [] P)\<lparr>backends := W\<rparr>)
          (backend_shutdown b (pe_os E) (backends (printf ''[*] Shutting down hypervisor...'' [] P)))) = Some R"
    using assms(1) by (auto simp: shutdown_backend_def R_def printf_def split: option.splits)
  have run: "hypervisor_shutdown E P = Some (printf ''[+] Hypervisor shutdown complete'' []
      (if enclave_active (g_hv_state P) then enclave_closed R else R))"
    using w c by (simp add: hypervisor_shutdown_def)
  show ?thesis
    by (rule that [OF run]) (use assms(2) in \<open>auto simp: enclave_closed_def R_def enclave_ok_def empty_buffer_def\<close>)
qed

section \<open>Runs without hardware\<close>

lemma flags_off: "\<not> hardware_backend_enabled Os \<Longrightarrow> \<not> config_hardware_backend_enabled Os \<and> \<not> strict_vmx_required Os"
  by (auto simp: hardware_backend_enabled_def config_hardware_backend_enabled_def strict_vmx_required_def split: option.splits)

lemma validated_simps [simp]:
  "hardware_virtualization_validated (g_hv_state (P\<lparr>backends := W\<rparr>)) = hardware_virtualization_validated (g_hv_state P)"
  by simp

lemma init_backend_poc:
  assumes "b \<noteq> KernelDriver" "\<not> hardware_backend_enabled (pe_os E)" "\<not> hardware_virtualization_validated (g_hv_state P)"
  shows "\<exists>P'. init_backend E b st P = Some (0, P') \<and> core P' = core P \<and> \<not> hardware_virtualization_validated (g_hv_state P')"
proof -
  note f = flags_off [OF assms(2)]
  show ?thesis
  proof (cases b)
    case UserspacePoC
    then show ?thesis
      using f by (simp add: init_backend_def init_launch_def init_validated_def userspace_status_def core_def)
  next
    case IntelVMX
    obtain r where "intel_init (pe_os E) (pe_api E) (backends P) = (r, backends P)" "r \<noteq> 0"
    proof (cases "bs_hardware_supported (intel_status (pe_os E) (backends P))")
      case True
      then show ?thesis using that [of "- 3"] assms(2) by (simp add: intel_init_def)
    next
      case False
      then show ?thesis using that [of "- 1"] by (simp add: intel_init_def)
    qed
    then show ?thesis using IntelVMX f assms(3) by (simp add: init_backend_def)
  next
    case AmdSVM
    obtain r W where i: "amd_init (pe_os E) (backends P) = (r, W)" by fastforce
    have v: "\<not> bs_hardware_validated (amd_status (pe_os E) W)" by (simp add: amd_status_def Let_def)
    show ?thesis
      using AmdSVM f assms(3) i v
      by (auto simp: init_backend_def init_launch_def init_validated_def amd_setup_guest_def core_def printf_def Let_def)
  qed (use assms(1) in simp)
qed

lemma select_userspace:
  assumes "kd_fd (w_kd W) < 0" "os_open Os < 0"
  shows "fst (select_backend Os W) \<noteq> KernelDriver"
  using assms by (simp add: select_backend_def kd_available_def Let_def)

lemma status_total: "b \<noteq> KernelDriver \<Longrightarrow> \<exists>s. backend_status_of b Os W = Some (s, W)"
  by (cases b) simp_all

lemma init_select_poc:
  assumes "kd_fd (w_kd (backends P)) < 0" "os_open (pe_os E) < 0"
    and "\<not> hardware_backend_enabled (pe_os E)" "\<not> hardware_virtualization_validated (g_hv_state P)"
  obtains b P' where "init_select E P = Some (0, P')" "core P' = core (P\<lparr>g_backend := Some b\<rparr>)" "b \<noteq> KernelDriver"
    "\<not> hardware_virtualization_validated (g_hv_state P')"
proof -
  obtain b W where s: "select_backend (pe_os E) (backends P) = (b, W)" by fastforce
  have b: "b \<noteq> KernelDriver" using select_userspace [OF assms(1,2)] s by simp
  obtain st where st: "backend_status_of b (pe_os E) W = Some (st, W)" using status_total [OF b] by blast
  define Q where "Q = printf ''[*] Selected virtualization backend: %s'' [Str (backend_name b)]
    (printf ''[*] CPU Vendor: %s (%s)'' [Str (cpu_vendor_name (vendor (bs_cpu st))), Chars (vendor_id (bs_cpu st))]
      (P\<lparr>g_backend := Some b, backends := W\<rparr>))"
  have q: "\<not> hardware_virtualization_validated (g_hv_state Q)" "core Q = core (P\<lparr>g_backend := Some b\<rparr>)"
    using assms(4) by (simp_all add: Q_def core_backend)
  obtain P' where p: "init_backend E b st Q = Some (0, P')" "core P' = core Q" "\<not> hardware_virtualization_validated (g_hv_state P')"
    using init_backend_poc [OF b assms(3) q(1)] by blast
  have "init_select E P = Some (0, printf ''[+] Hypervisor initialization complete'' [] P')"
    using s st p(1) by (simp add: init_select_def Q_def)
  then show ?thesis using that p q b by simp
qed

text \<open>What \<open>main\<close> finds when the program starts.\<close>

definition loaded :: "penv \<Rightarrow> process \<Rightarrow> bool" where
  "loaded E P \<longleftrightarrow> (let a = pe_alloc E (p_allocs P) 4096 ENCLAVE_SIZE in
     laid_out (regions E a)
     \<and> trace_reach (pe_host E) (pe_hash_buffer E) (trace_bss P) (p_mem P)
     \<and> host_ra (pe_host E) 73 \<noteq> rsp (host_ctx (pe_host E)) - 8
     \<and> read_bytes (p_mem P) (pe_message E) 22 = ascii test_message
     \<and> \<not> hardware_virtualization_validated (g_hv_state P))"

lemma enclave_region: "laid_out (regions E a) \<Longrightarrow> a \<noteq> 0 \<and> separate (pe_hash_buffer E) 32 a 1048576 \<and> separate (pe_message E) 22 a 1048576"
  by (simp add: regions_def)

lemma opened_running:
  assumes "loaded E P" "core P' = core ((enclave_opened a (monitored P))\<lparr>g_backend := b\<rparr>)"
    and "a = pe_alloc E (p_allocs P) 4096 ENCLAVE_SIZE"
  shows "running E P'" "eb_data (g_enclave P') = a" "p_freed P' = p_freed P" "g_backend P' = b"
    "read_bytes (p_mem P') (pe_message E) 22 = ascii test_message"
proof -
  have l: "laid_out (regions E a)" "trace_reach (pe_host E) (pe_hash_buffer E) (trace_bss P) (p_mem P)"
    "host_ra (pe_host E) 73 \<noteq> rsp (host_ctx (pe_host E)) - 8" "read_bytes (p_mem P) (pe_message E) 22 = ascii test_message"
    using assms(1) unfolding loaded_def Let_def assms(3) by blast+
  note c = core_fields [OF assms(2)]
  have f: "g_enclave P' = \<lparr>eb_data = a, eb_size = ENCLAVE_SIZE\<rparr>" "p_mem P' = write_bytes a (replicate 1048576 0) (p_mem P)"
    "trace_bss P' = snd (trace_init (trace_bss P))" "p_freed P' = p_freed P" "g_backend P' = b"
    "enclave_active (g_hv_state P')" "trace_enabled (g_hv_state P')" "enclave_base (g_hv_state P') = a"
    using c(1-8) by (simp_all add: enclave_opened_def monitored_def)
  have "trace_reach (pe_host E) (pe_hash_buffer E) (snd (trace_init (trace_bss P))) (p_mem P)"
    by (rule trace_reach.init [OF l(2)]) (rule prod.collapse [symmetric])
  then have "trace_reach (pe_host E) (pe_hash_buffer E) (trace_bss P') (p_mem P')"
    unfolding f(2,3) by (rule trace_reach.other) (use enclave_region [OF l(1)] in \<open>simp add: read_write_other\<close>)
  then show "running E P'"
    using f l(1,3) enclave_region [OF l(1)] by (simp add: running_def enclave_ok_def)
  show "eb_data (g_enclave P') = a" "p_freed P' = p_freed P" "g_backend P' = b" using f by simp_all
  show "read_bytes (p_mem P') (pe_message E) 22 = ascii test_message"
    unfolding f(2) using enclave_region [OF l(1)] l(4) by (simp add: read_write_other)
qed

lemma userspace_init:
  assumes "loaded E P" "kd_fd (w_kd (backends P)) < 0" "os_open (pe_os E) < 0" "\<not> hardware_backend_enabled (pe_os E)"
  obtains b P' where "hypervisor_init E P = Some (0, P')" "running E P'" "eb_data (g_enclave P') = pe_alloc E (p_allocs P) 4096 ENCLAVE_SIZE"
    "p_freed P' = p_freed P" "g_backend P' = Some b" "b \<noteq> KernelDriver" "\<not> hardware_virtualization_validated (g_hv_state P')"
    "read_bytes (p_mem P') (pe_message E) 22 = ascii test_message"
proof -
  let ?a = "pe_alloc E (p_allocs P) 4096 ENCLAVE_SIZE"
  have "?a \<noteq> 0" "\<not> hardware_virtualization_validated (g_hv_state P)"
    using assms(1) enclave_region [of E ?a] by (simp_all add: loaded_def Let_def)
  then obtain P2 where 2: "hypervisor_init E P = init_select E P2" "backends P2 = backends P"
      "core P2 = core (enclave_opened ?a (monitored P))" "\<not> hardware_virtualization_validated (g_hv_state P2)"
    using hypervisor_init_select [of E P] by blast
  obtain b P' where p: "init_select E P2 = Some (0, P')" "core P' = core (P2\<lparr>g_backend := Some b\<rparr>)" "b \<noteq> KernelDriver"
      "\<not> hardware_virtualization_validated (g_hv_state P')"
    by (rule init_select_poc [OF _ assms(3,4) 2(4), unfolded 2(2), OF assms(2)])
  have c: "core P' = core ((enclave_opened ?a (monitored P))\<lparr>g_backend := Some b\<rparr>)"
    using p(2) 2(3) by (simp add: core_backend)
  show ?thesis
    by (rule that [OF _ opened_running(1,2,3,4) [OF assms(1) c refl] p(3,4) opened_running(5) [OF assms(1) c refl]])
      (use 2(1) p(1) in simp)
qed

end
