(* ===== verification/Simd_Overlap.thy ===== *)
theory Simd_Overlap
  imports Simd_Abi
begin

text \<open>
  \<open>simd_pack_data\<close> on buffers that overlap. Nothing in the program checks that source and
  destination are disjoint, so this theory says what the routine does on any two buffers: it
  copies in pieces from low to high addresses, each piece read before it is written
  (\<open>chunk_copy\<close>). This is \<open>memcpy\<close> unless a byte is overwritten before it is read
  (\<open>forward_safe\<close>), which needs a source that begins below the destination and reaches into it.
\<close>

section \<open>Copying in pieces\<close>

fun chunk_copy :: "nat list \<Rightarrow> u64 \<Rightarrow> u64 \<Rightarrow> memory \<Rightarrow> memory" where
  "chunk_copy [] d s m = m"
| "chunk_copy (w # ws) d s m = chunk_copy ws (d + of_nat w) (s + of_nat w) (copy_mem d s w m)"

definition forward_safe :: "u64 \<Rightarrow> u64 \<Rightarrow> nat \<Rightarrow> bool" where
  "forward_safe d s n \<longleftrightarrow> (\<forall>i<n. \<forall>j<i. d + of_nat j \<noteq> s + of_nat i)"

lemma chunk_copy_append:
  "chunk_copy (xs @ ys) d s m = chunk_copy ys (d + of_nat (sum_list xs)) (s + of_nat (sum_list xs)) (chunk_copy xs d s m)"
  by (induction xs arbitrary: d s m) (simp_all add: add.assoc)

lemma separate_forward_safe: "separate d n s n \<Longrightarrow> forward_safe d s n"
  by (auto simp: separate_def forward_safe_def)

text \<open>The source begins at or above the destination, without wrapping around.\<close>

lemma above_forward_safe:
  assumes "unat d \<le> unat s" "unat s + n \<le> 2 ^ 64"
  shows "forward_safe d s n"
  unfolding forward_safe_def
proof (intro allI impI notI)
  fix i j assume ij: "i < n" "j < i" and e: "d + of_nat j = s + of_nat i"
  have "unat (d + of_nat j) = unat d + j" "unat (s + of_nat i) = unat s + i"
    using ij assms by (simp_all add: unat_word_ariths unat_of_nat)
  then show False using e ij assms(1) by simp
qed

lemma forward_safe_split:
  assumes "forward_safe d s (w + n)"
  shows "forward_safe (d + of_nat w) (s + of_nat w) n" "separate (s + of_nat w) n d w"
proof -
  show "forward_safe (d + of_nat w) (s + of_nat w) n"
    unfolding forward_safe_def
  proof (intro allI impI)
    fix i j assume "i < n" "j < i"
    then have "d + of_nat (w + j) \<noteq> s + of_nat (w + i)" using assms unfolding forward_safe_def by (metis add_less_cancel_left)
    then show "d + of_nat w + of_nat j \<noteq> s + of_nat w + of_nat i" by (simp add: add.assoc)
  qed
  show "separate (s + of_nat w) n d w"
    unfolding separate_def
  proof (intro allI impI)
    fix i j assume "i < n" "j < w"
    then have "d + of_nat j \<noteq> s + of_nat (w + i)" using assms unfolding forward_safe_def by (metis add_less_cancel_left trans_less_add1)
    then show "s + of_nat w + of_nat i \<noteq> d + of_nat j" by (simp add: add.assoc)
  qed
qed

lemma chunk_copy_forward:
  "forward_safe d s (sum_list ws) \<Longrightarrow> sum_list ws \<le> 2 ^ 64 \<Longrightarrow> chunk_copy ws d s m = copy_mem d s (sum_list ws) m"
proof (induction ws arbitrary: d s m)
  case Nil
  then show ?case by (simp add: copy_mem_def write_bytes_def)
next
  case (Cons w ws)
  let ?n = "sum_list ws"
  have f: "forward_safe (d + of_nat w) (s + of_nat w) ?n" "separate (s + of_nat w) ?n d w"
    using forward_safe_split [of d s w ?n] Cons.prems(1) by simp_all
  have "chunk_copy (w # ws) d s m = copy_mem (d + of_nat w) (s + of_nat w) ?n (copy_mem d s w m)"
    using Cons.IH [OF f(1)] Cons.prems(2) by simp
  also have "read_bytes (copy_mem d s w m) (s + of_nat w) ?n = read_bytes m (s + of_nat w) ?n"
    using f(2) by (simp add: copy_mem_def read_write_other)
  then have "copy_mem (d + of_nat w) (s + of_nat w) ?n (copy_mem d s w m) = copy_mem d s (w + ?n) m"
    using Cons.prems(2) by (simp add: copy_mem_def read_bytes_add write_bytes_append)
  finally show ?case by simp
qed

text \<open>However the buffers lie, nothing outside the destination changes.\<close>

lemma chunk_copy_other:
  "separate x k d (sum_list ws) \<Longrightarrow> read_bytes (chunk_copy ws d s m) x k = read_bytes m x k"
proof (induction ws arbitrary: d s m)
  case (Cons w ws)
  have "separate (x + of_nat 0) k (d + of_nat w) (sum_list ws)" "separate (x + of_nat 0) k (d + of_nat 0) w"
    by (rule separate_part [of x k d "sum_list (w # ws)"]; use Cons.prems in simp)+
  then show ?case using Cons.IH by (simp add: copy_mem_def read_write_other)
qed simp

section \<open>The loops\<close>

lemma copy_loop_chunks:
  assumes "n = unat (r14 s - rbx s)" "n < 2 ^ 63"
  shows "mem (copy_loop v s) = chunk_copy (replicate (n div vbytes v) (vbytes v)) (r12 s + rbx s) (r13 s + rbx s) (mem s)
    \<and> rbx (copy_loop v s) = rbx s + of_nat (n div vbytes v * vbytes v)"
  using assms
proof (induction v s arbitrary: n rule: copy_loop.induct)
  case (1 v s)
  let ?w = "vbytes v" and ?W = "of_nat (vbytes v) :: u64"
  let ?t = "vstore v (r12 s + rbx s) (vload v (r13 s + rbx s) (s\<lparr>rax := r14 s - rbx s\<rparr>))\<lparr>rbx := rbx s + ?W\<rparr>"
  have guard: "r14 s - rbx s <s ?W \<longleftrightarrow> n < ?w" using "1.prems" by (simp add: sless_width)
  show ?case
  proof (cases "n < ?w")
    case True
    then show ?thesis using guard by (simp add: copy_loop.simps [of v s] Let_def)
  next
    case False
    define k where "k = n - ?w"
    have q: "n div ?w = Suc (k div ?w)" "n div ?w * ?w = ?w + k div ?w * ?w"
      using False vbytes_bounds [of v] by (simp_all add: k_def le_div_geq)
    have step: "copy_loop v s = copy_loop v ?t"
      using False guard by (simp add: copy_loop.simps [of v s] Let_def vload_def vstore_def)
    have t: "r12 ?t = r12 s" "r13 ?t = r13 s" "r14 ?t = r14 s" "rbx ?t = rbx s + ?W"
      "mem ?t = copy_mem (r12 s + rbx s) (r13 s + rbx s) ?w (mem s)"
      by (simp_all add: vload_def vstore_def copy_mem_def)
    have k: "k = unat (r14 ?t - rbx ?t)"
    proof -
      have "unat (r14 s - rbx s - ?W) = n - ?w"
        using False "1.prems"(1) by (subst unat_sub) (simp_all add: word_le_nat_alt vbytes_word(3))
      then show ?thesis by (simp add: k_def t diff_diff_eq)
    qed
    have "k < 2 ^ 63" using "1.prems"(2) by (simp add: k_def)
    then have IH: "mem (copy_loop v ?t) = chunk_copy (replicate (k div ?w) ?w) (r12 ?t + rbx ?t) (r13 ?t + rbx ?t) (mem ?t)
        \<and> rbx (copy_loop v ?t) = rbx ?t + of_nat (k div ?w * ?w)"
      using "1.IH" [of "s\<lparr>rax := r14 s - rbx s\<rparr>" _ _ k] False guard k
      by (simp add: vload_def vstore_def)
    then show ?thesis unfolding q(2) unfolding q(1) by (simp add: step t ac_simps)
  qed
qed

lemma rest_of_loop:
  assumes "n = unat (r14 s)" "rbx s = 0" "n < 2 ^ 63"
  shows "unat (r14 s - rbx (copy_loop v s)) = n mod vbytes v"
proof -
  let ?w = "vbytes v"
  have L: "rbx (copy_loop v s) = of_nat (n div ?w * ?w)" using copy_loop_chunks [of n s v] assms by simp
  have "r14 s = of_nat (n div ?w * ?w + n mod ?w)" using assms(1) by simp
  then have "r14 s - rbx (copy_loop v s) = of_nat (n mod ?w)" unfolding L of_nat_add by simp
  moreover have "n mod ?w < 2 ^ 64" using assms(3) le_less_trans [OF mod_less_eq_dividend [of n ?w]] by simp
  ultimately show ?thesis by (simp add: unat_of_nat)
qed

lemma rep_movsb_chunks: "mem (rep_movsb_n n s) = chunk_copy (replicate n 1) (rdi s) (rsi s) (mem s)"
proof (induction n arbitrary: s)
  case (Suc n)
  have "(mem s)(rdi s := mem s (rsi s)) = copy_mem (rdi s) (rsi s) 1 (mem s)"
    by (simp add: copy_mem_def write_byte read_bytes_def)
  then show ?case using Suc.IH by simp
qed simp

lemma byte_copy_chunks:
  "mem (byte_copy s) = chunk_copy (replicate (unat (rax s)) 1) (r12 s + rbx s) (r13 s + rbx s) (mem s)"
  by (simp add: byte_copy_def rep_movsb_def rep_movsb_chunks)

text \<open>The pieces of a rest of fewer than 32 bytes.\<close>

definition pack_tail :: "nat \<Rightarrow> nat list" where
  "pack_tail n = (if n < 16 then replicate n 1 else 16 # replicate (n - 16) 1)"

lemma sum_pack_tail [simp]: "sum_list (pack_tail n) = n"
  by (simp add: pack_tail_def sum_list_replicate)

lemma pack_remaining_chunks:
  assumes n: "n = unat (r14 s - rbx s)" "n < 32"
  shows "mem (pack_remaining s) = chunk_copy (pack_tail n) (r12 s + rbx s) (r13 s + rbx s) (mem s)"
proof (cases "n < 16")
  case True
  then have "r14 s - rbx s <s 16" using n sless_width [of "r14 s - rbx s" XMM] by simp
  then show ?thesis
    using n(1) True byte_copy_chunks [of "s\<lparr>rax := r14 s - rbx s\<rparr>"]
    by (simp add: pack_remaining_def pack_tail_def Let_def)
next
  case False
  define t where "t = vstore XMM (r12 s + rbx s) (vload XMM (r13 s + rbx s) (s\<lparr>rax := r14 s - rbx s\<rparr>))
      \<lparr>rbx := rbx s + 16, rax := r14 s - (rbx s + 16)\<rparr>"
  have ge: "\<not> r14 s - rbx s <s 16" "r14 s - rbx s \<noteq> 0"
    using n False sless_width [of "r14 s - rbx s" XMM] by auto
  have "unat (r14 s - rbx s - 16) = n - 16"
    using n False by (subst unat_sub) (simp_all add: word_le_nat_alt)
  then have rest: "unat (r14 s - (rbx s + 16)) = n - 16" by (simp add: diff_diff_eq)
  have t: "r12 t = r12 s" "r13 t = r13 s" "rbx t = rbx s + 16" "rax t = r14 s - (rbx s + 16)"
    "mem t = copy_mem (r12 s + rbx s) (r13 s + rbx s) 16 (mem s)"
    by (simp_all add: t_def vload_def vstore_def copy_mem_def)
  have run: "pack_remaining s = (if r14 s - (rbx s + 16) = 0 then t else byte_copy t)"
    using ge by (simp add: pack_remaining_def Let_def t_def vload_def vstore_def)
  have "mem (pack_remaining s) = chunk_copy (replicate (n - 16) 1) (r12 s + (rbx s + 16)) (r13 s + (rbx s + 16)) (mem t)"
    using run byte_copy_chunks [of t] rest t by (cases "r14 s - (rbx s + 16) = 0") auto
  then show ?thesis using False t(5) by (simp add: pack_tail_def add.assoc)
qed

section \<open>The routines\<close>

definition chunks_256 :: "nat \<Rightarrow> nat list" where
  "chunks_256 n = replicate (n div 32) 32 @ pack_tail (n mod 32)"

lemma sum_chunks_256 [simp]: "sum_list (chunks_256 n) = n"
  by (simp add: chunks_256_def sum_list_replicate)

lemma pack_256_chunks:
  assumes "n = unat (r14 s)" "n < 2 ^ 63"
  shows "mem (simd_pack_256bit s) = chunk_copy (chunks_256 n) (r12 s) (r13 s) (mem s)"
proof -
  let ?s = "vzeroupper (push (rbp s) s\<lparr>rbp := rsp s - 8\<rparr>)\<lparr>rbx := 0, rcx := 0\<rparr>"
  let ?l = "copy_loop YMM ?s"
  have a: "r12 ?s = r12 s" "r13 ?s = r13 s" "r14 ?s = r14 s" "rbx ?s = 0" "mem ?s = mem s"
    by (simp_all add: push_def)
  have L: "mem ?l = chunk_copy (replicate (n div 32) 32) (r12 s) (r13 s) (mem s)" "rbx ?l = of_nat (n div 32 * 32)"
    using copy_loop_chunks [of n ?s YMM] assms a by simp_all
  have k: "unat (r14 ?l - rbx ?l) = n mod 32"
    using rest_of_loop [of n ?s YMM] assms a by simp
  have "mem (pack_remaining ?l) = chunk_copy (pack_tail (n mod 32)) (r12 s + rbx ?l) (r13 s + rbx ?l) (mem ?l)"
    using pack_remaining_chunks [of "n mod 32" ?l] k a by simp
  also have "\<dots> = chunk_copy (chunks_256 n) (r12 s) (r13 s) (mem s)"
    by (simp add: L chunks_256_def chunk_copy_append sum_list_replicate)
  finally show ?thesis by (simp add: simd_pack_256bit_def Let_def stack_defs)
qed

lemma after_512_loop_chunks:
  assumes "n = unat (r14 s)" "n < 2 ^ 63"
  shows "unat (r14 (after_512_loop s)) = n mod 64"
    "mem (after_512_loop s) = chunk_copy (replicate (n div 64) 64) (r12 s) (r13 s) (mem s)"
    "stk (after_512_loop s) = rbp s # stk s" "rsp (after_512_loop s) = rsp s - 8"
proof -
  let ?s = "push (rbp s) s\<lparr>rbp := rsp s - 8, rbx := 0\<rparr>"
  have a: "r12 ?s = r12 s" "r13 ?s = r13 s" "r14 ?s = r14 s" "rbx ?s = 0" "mem ?s = mem s" by simp_all
  show "unat (r14 (after_512_loop s)) = n mod 64"
    using rest_of_loop [of n ?s ZMM] assms a by (simp add: after_512_loop_def Let_def)
  show "mem (after_512_loop s) = chunk_copy (replicate (n div 64) 64) (r12 s) (r13 s) (mem s)"
    "stk (after_512_loop s) = rbp s # stk s" "rsp (after_512_loop s) = rsp s - 8"
    using copy_loop_chunks [of n ?s ZMM] assms a by (simp_all add: after_512_loop_def Let_def)
qed

section \<open>The calls\<close>

lemma c_pack_256_chunks:
  assumes "pack_usable H f d s n" "unat n < 2 ^ 63"
  shows "c_simd_pack_data H d s n f m = Some (n, chunk_copy (chunks_256 (unat n)) d s m)"
proof -
  let ?s = "call_regs H d s n f m"
  have nz: "d \<noteq> 0" "s \<noteq> 0" "n \<noteq> 0" "\<not> bit n 63" and p: "\<not> bit f 0 \<or> \<not> has_avx512 (host_cpuid H)"
    using assms unfolding pack_usable_def by (auto simp: bit63_iff)
  have pk: "c_return ?s (pack_exit (vzeroupper (simd_pack_256bit (push (host_ra H 63) u))))
      = Some (n, chunk_copy (chunks_256 (unat n)) d s m)"
    if u: "stk u = stk (pack_enter ?s)" "rsp u = rsp (pack_enter ?s)" "r12 u = d" "r13 u = s" "r14 u = n" "mem u = m" for u
    using u assms(2) pack_exit_simps [of "vzeroupper (simd_pack_256bit (push (host_ra H 63) u))" ?s]
      pack_256_chunks [of "unat n" "push (host_ra H 63) u"] by (simp add: c_return_def)
  show ?thesis
  proof (cases "bit f 0")
    case False
    then show ?thesis using nz pk [of "pack_enter ?s"]
      by (simp add: c_simd_pack_data_def simd_pack_data_def Let_def resume_at_def)
  next
    case True
    then have "\<not> bit (ebx (host_cpuid H 7 0)) 16" using p by (simp add: has_avx512_def)
    then show ?thesis
      using True nz pk [of "check_avx512_support (host_cpuid H) (push (host_ra H 68) (pack_enter ?s))"]
      by (simp add: c_simd_pack_data_def simd_pack_data_def Let_def resume_at_def)
  qed
qed

lemma c_pack_512_chunks:
  assumes "d \<noteq> 0" "s \<noteq> 0" "n \<noteq> 0" "unat n < 2 ^ 63" "bit f 0" "has_avx512 (host_cpuid H)"
    and "host_ra H 73 \<noteq> rsp (host_ctx H) - 8"
  shows "c_simd_pack_data H d s n f m
    = (if 64 dvd unat n then Some (0, chunk_copy (replicate (unat n div 64) 64) d s m) else None)"
proof -
  let ?s = "call_regs H d s n f m" and ?p = "pack_512_call H (call_regs H d s n f m)"
  let ?u = "after_512_loop ?p"
  have nb: "\<not> bit n 63" using assms(4) by (simp add: bit63_iff)
  note run = pack_data_512 [of ?s H, unfolded call_regs_simps, OF assms(1-3) nb assms(5,6)]
  note st = after_512_loop_chunks [of "unat n" ?p, unfolded pack_512_call_simps call_regs_simps, OF refl assms(4)]
  show ?thesis
  proof (cases "64 dvd unat n")
    case True
    then have "r14 ?u = 0" using st(1) by (simp add: unat_eq_0)
    then show ?thesis
      using True st run pack_exit_simps [of "vzeroupper (ret (pop rbp_update (?u\<lparr>rax := 0\<rparr>)))" ?s]
      by (simp add: c_simd_pack_data_def pack_512_unfold Let_def resume_at_def c_return_def stack_defs)
  next
    case False
    then have "r14 ?u \<noteq> 0" using st(1) by (metis dvd_eq_mod_eq_0 unat_0)
    then show ?thesis
      using False st run assms(7) by (simp add: c_simd_pack_data_def pack_512_unfold Let_def resume_at_def)
  qed
qed

end
