(* ===== verification/Program_Runs.thy ===== *)
theory Program_Runs
  imports Orchestrator Simd_Overlap
begin

text \<open>
  The properties of \<^verbatim>\<open>src/main.cpp\<close> modelled in \<open>Orchestrator\<close>: the enclave calls on every input,
  initialisation and its results, whole runs of \<^verbatim>\<open>main\<close>, the requests of the guest. First a
  concrete program (addresses, memory, backends) on which the witnesses evaluate them.
\<close>

section \<open>A program for the witnesses\<close>

definition demo_penv :: penv where
  "demo_penv = \<lparr>pe_os = demo_os\<lparr>os_getenv := Map.empty, os_open := - 1\<rparr>, pe_host = avx2_host, pe_api = vmx_stubs,
     pe_alloc = (\<lambda>n al sz. 0x10000000), pe_tsc = 7, pe_hash_buffer = 0x9000, pe_src = 0x1000, pe_dest = 0x2000,
     pe_hash = 0x3000, pe_message = 0x4000, pe_recv_buffer = 0x5000\<rparr>"

definition demo_memory :: memory where
  "demo_memory = write_bytes 0x4000 (ascii test_message) (\<lambda>_. 0)"

definition demo_process :: process where
  "demo_process = \<lparr>g_hv_state = initial_hv_state, g_enclave = empty_buffer, g_backend = None, backends = demo_world,
     trace_bss = zero_bss, p_mem = demo_memory, p_allocs = 0, p_freed = [], p_out = []\<rparr>"

lemma demo_penv_simps [simp]:
  "pe_os demo_penv = demo_os\<lparr>os_getenv := Map.empty, os_open := - 1\<rparr>" "pe_host demo_penv = avx2_host"
  "pe_alloc demo_penv n al sz = 0x10000000" "pe_hash_buffer demo_penv = 0x9000" "pe_message demo_penv = 0x4000"
  by (simp_all add: demo_penv_def)

lemma demo_process_simps [simp]:
  "g_hv_state demo_process = initial_hv_state" "g_enclave demo_process = empty_buffer" "backends demo_process = demo_world"
  "trace_bss demo_process = zero_bss" "p_mem demo_process = demo_memory" "p_freed demo_process = []"
  by (simp_all add: demo_process_def)

lemma demo_regions: "laid_out (regions demo_penv 0x10000000)"
  unfolding regions_def demo_penv_def by (simp; intro conjI; rule separateI; simp)

lemma length_message [simp]: "length (ascii test_message) = 22"
  by (simp add: ascii_def test_message_def)

lemma read_zeros: "read_bytes (\<lambda>_. 0) a n = replicate n 0"
  by (simp add: read_bytes_def map_replicate_const)

lemma demo_loaded_process: "loaded demo_penv demo_process"
proof -
  have "separate 0x9000 32 0x4000 22" by (rule separateI) simp_all
  then have "read_bytes demo_memory 0x9000 32 = replicate 32 0"
    by (simp add: demo_memory_def read_write_other read_zeros)
  then have r: "trace_reach avx2_host 0x9000 zero_bss demo_memory" by (rule trace_reach.loaded)
  have m: "read_bytes demo_memory 0x4000 22 = ascii test_message" by (simp add: demo_memory_def mem_simps)
  show ?thesis
    using r m demo_regions host_facts(3) by (simp add: loaded_def initial_hv_state_def)
qed

lemma demo_not_enabled: "\<not> hardware_backend_enabled (pe_os demo_penv)"
  by (simp add: hardware_backend_enabled_def)

text \<open>The same process with its enclave open.\<close>

definition demo_open :: process where
  "demo_open = demo_process\<lparr>g_enclave := \<lparr>eb_data = 0x10000000, eb_size = ENCLAVE_SIZE\<rparr>,
     g_hv_state := initial_hv_state\<lparr>enclave_active := True, enclave_base := 0x10000000\<rparr>\<rparr>"

lemma demo_open_ok: "enclave_ok demo_open" "enclave_open demo_open" "enclave_active (g_hv_state demo_open)"
  "eb_data (g_enclave demo_open) = 0x10000000"
  by (simp_all add: demo_open_def enclave_ok_def enclave_open_def)

lemma demo_apart: "separate 0x10000000 22 0x4000 22" "separate 0x5000 22 0x10000000 22"
  by (rule separateI; simp)+

text \<open>A host whose kernel found VMX and no SVM, with the module loaded.\<close>

definition intel_kenv :: kenv where
  "intel_kenv = demo_env\<lparr>env_has_svm := False, env_has_vmx := True\<rparr>"

definition intel_os :: os where
  "intel_os = demo_os\<lparr>os_cpuid := intel_cpuid, os_kenv := intel_kenv\<rparr>"

definition intel_world :: world where
  "intel_world = demo_world\<lparr>w_kernel := snd (kernova_module_init intel_kenv True 0 (unloaded (\<lambda>_ _. 0)))\<rparr>"

section \<open>Sending from anywhere\<close>

text \<open>The memory after the packing call of \<open>send_data\<close>.\<close>

definition packed :: "penv \<Rightarrow> u64 \<Rightarrow> nat \<Rightarrow> process \<Rightarrow> memory" where
  "packed E src n P =
     (if eb_data (g_enclave P) = 0 then p_mem P
      else chunk_copy (if has_avx512 (host_cpuid (pe_host E)) then replicate (n div 64) 64 else chunks_256 n)
             (eb_data (g_enclave P)) src (p_mem P))"

lemma unat_le64: "unat (x :: u64) \<le> 2 ^ 64"
proof -
  have "unat x < 2 ^ 64" using unsigned_less [of x, where 'a = nat] by simp
  then show ?thesis by (rule less_imp_le)
qed

lemma write_read_same: "n \<le> 2 ^ 64 \<Longrightarrow> write_bytes d (read_bytes m d n) m = m"
  by (rule ext) (simp add: write_bytes_def)

lemma reverse_in_place:
  "reverse_loop d sz (unat (sz div 2)) m = write_bytes d (rev (read_bytes m d (unat sz))) m"
proof -
  have "unat sz \<le> 2 ^ 64" by (rule unat_le64)
  then show ?thesis
    using reverse_loop_write [of "read_bytes m d (unat sz)" sz d m] by (simp add: write_read_same)
qed

lemma send_data_packed:
  assumes "host_ra (pe_host E) 73 \<noteq> rsp (host_ctx (pe_host E)) - 8"
  shows "send_data E src sz P =
    (if \<not> enclave_active (g_hv_state P) \<or> src = 0 \<or> sz = 0 then Some (- 1, P)
     else if DATA_BUFFER_SIZE < sz then Some (- 2, P)
     else if eb_data (g_enclave P) \<noteq> 0 \<and> has_avx512 (host_cpuid (pe_host E)) \<and> \<not> 64 dvd unat sz then None
     else Some (0, P\<lparr>p_mem := write_bytes (eb_data (g_enclave P))
         (rev (read_bytes (packed E src (unat sz) P) (eb_data (g_enclave P)) (unat sz))) (packed E src (unat sz) P),
       g_hv_state := (g_hv_state P)\<lparr>data_transferred_bytes := data_transferred_bytes (g_hv_state P) + sz\<rparr>\<rparr>))"
proof (cases "\<not> enclave_active (g_hv_state P) \<or> src = 0 \<or> sz = 0 \<or> DATA_BUFFER_SIZE < sz")
  case True
  then show ?thesis by (auto simp: send_data_def)
next
  case False
  let ?d = "eb_data (g_enclave P)" and ?H = "pe_host E"
  have n: "unat sz \<le> 65536" "unat sz < 2 ^ 63" using False small_size by blast+
  have ns: "\<not> sz <s 0" "\<not> (0xFFFFFFFF :: u64) <s 0" using n(1) by (simp_all add: sless_small bit63_iff)
  have nz: "src \<noteq> 0" "sz \<noteq> 0" using False by simp_all
  consider "?d = 0" | "?d \<noteq> 0" "has_avx512 (host_cpuid ?H)" | "?d \<noteq> 0" "\<not> has_avx512 (host_cpuid ?H)" by blast
  then show ?thesis
  proof cases
    case 1
    then show ?thesis
      using False ns c_pack_error [of ?d src sz ?H 1 "p_mem P"]
      by (simp add: send_data_def packed_def reverse_in_place Let_def)
  next
    case 2
    then show ?thesis
      using False c_pack_512_chunks [OF 2(1) nz n(2) _ 2(2) assms, of 1 "p_mem P"]
      by (simp add: send_data_def packed_def reverse_in_place Let_def)
  next
    case 3
    then have "pack_usable ?H 1 ?d src sz" using nz by (simp add: pack_usable_def)
    then show ?thesis
      using False 3 ns c_pack_256_chunks [OF _ n(2), of ?H 1 ?d src "p_mem P"]
      by (simp add: send_data_def packed_def reverse_in_place Let_def)
  qed
qed

lemma packed_forward:
  fixes sz :: u64
  assumes "eb_data (g_enclave P) \<noteq> 0" "forward_safe (eb_data (g_enclave P)) src (unat sz)"
    and "has_avx512 (host_cpuid (pe_host E)) \<longrightarrow> 64 dvd unat sz"
  shows "packed E src (unat sz) P = copy_mem (eb_data (g_enclave P)) src (unat sz) (p_mem P)"
proof -
  have "unat sz \<le> 2 ^ 64" by (rule unat_le64)
  then show ?thesis
    using assms chunk_copy_forward [of "eb_data (g_enclave P)" src "replicate (unat sz div 64) 64" "p_mem P"]
      chunk_copy_forward [of "eb_data (g_enclave P)" src "chunks_256 (unat sz)" "p_mem P"]
    by (auto simp: packed_def sum_list_replicate)
qed

lemma write_rev_copy: "n \<le> 2 ^ 64 \<Longrightarrow>
  write_bytes d (rev (read_bytes (copy_mem d s n m) d n)) (copy_mem d s n m) = write_bytes d (rev (read_bytes m s n)) m"
  by (rule ext) (simp add: copy_mem_def mem_simps, simp add: write_bytes_def)

section \<open>Properties\<close>

text \<open>C5: \<open>send_data\<close> on every input, every process state and every CPU, wherever the source lies. It refuses
  without an active enclave, with a null pointer or size 0 (-1) and beyond 64 KiB (-2). On a CPU
  with AVX-512F and a size that is not a multiple of 64 it does not come back. Otherwise it
  succeeds: its third error (-3) never happens. The enclave then holds in reverse what the packing
  routine left there (\<open>packed\<close>: copied in pieces, upwards). That is the caller's data reversed
  unless the copy overwrites source bytes before it reads them, which needs a source that begins
  below the enclave and reaches into it, as a guest can arrange through \<open>vmcall_handler\<close>: then
  the data is lost without an error. (The return address the call pushes is not an address in the
  stack frame, which is the only hypothesis.)\<close>

theorem send_data_behaviour:
  assumes "host_ra (pe_host E) 73 \<noteq> rsp (host_ctx (pe_host E)) - 8"
  shows "send_data E src sz P =
    (if \<not> enclave_active (g_hv_state P) \<or> src = 0 \<or> sz = 0 then Some (- 1, P)
     else if DATA_BUFFER_SIZE < sz then Some (- 2, P)
     else if eb_data (g_enclave P) \<noteq> 0 \<and> has_avx512 (host_cpuid (pe_host E)) \<and> \<not> 64 dvd unat sz then None
     else Some (0, P\<lparr>p_mem := write_bytes (eb_data (g_enclave P))
         (rev (read_bytes (packed E src (unat sz) P) (eb_data (g_enclave P)) (unat sz))) (packed E src (unat sz) P),
       g_hv_state := (g_hv_state P)\<lparr>data_transferred_bytes := data_transferred_bytes (g_hv_state P) + sz\<rparr>\<rparr>))
    \<and> (\<forall>P'. send_data E src sz P = Some (0, P') \<and> eb_data (g_enclave P) \<noteq> 0 \<and> forward_safe (eb_data (g_enclave P)) src (unat sz)
        \<longrightarrow> p_mem P' = write_bytes (eb_data (g_enclave P)) (rev (read_bytes (p_mem P) src (unat sz))) (p_mem P))"
proof -
  have n: "unat sz \<le> 2 ^ 64" by (rule unat_le64)
  note s = send_data_packed [OF assms, of src sz P]
  have "p_mem P' = write_bytes (eb_data (g_enclave P)) (rev (read_bytes (p_mem P) src (unat sz))) (p_mem P)"
    if r: "send_data E src sz P = Some (0, P')" and d: "eb_data (g_enclave P) \<noteq> 0"
      and f: "forward_safe (eb_data (g_enclave P)) src (unat sz)" for P'
    using r [unfolded s] d packed_forward [OF d f, of E] write_rev_copy [OF n] by (auto split: if_splits)
  then show ?thesis using s by blast
qed

theorem send_data_behaviour_witness:
  "fst (the (send_data demo_penv 0x4000 22 demo_open)) = 0 \<and> send_data demo_penv 0 22 demo_open = Some (- 1, demo_open)"
proof -
  have r: "host_ra (pe_host demo_penv) 73 \<noteq> rsp (host_ctx (pe_host demo_penv)) - 8" using host_facts(3) by simp
  note s = send_data_behaviour [OF r, THEN conjunct1]
  show ?thesis
    using s [of "0x4000" 22 demo_open] s [of 0 22 demo_open] demo_open_ok(3) host_facts(1) by (simp add: DATA_BUFFER_SIZE_def)
qed





text \<open>C32: The enclave's life. \<open>init\<close> fails (-1) exactly when the allocator has nothing, and then touches no
  memory; otherwise the enclave is one megabyte of zero bytes. \<open>cleanup\<close> wipes the whole enclave
  before it frees it, once, and afterwards every request is refused.\<close>

theorem enclave_lifecycle:
  assumes "a = pe_alloc E (p_allocs P) 4096 ENCLAVE_SIZE"
  shows "\<exists>r P1. enclave_init E P = Some (r, P1) \<and> (r = - 1 \<longleftrightarrow> a = 0) \<and> (r = 0 \<longleftrightarrow> a \<noteq> 0)
    \<and> (a = 0 \<longrightarrow> p_mem P1 = p_mem P)
    \<and> (a \<noteq> 0 \<longrightarrow> read_bytes (p_mem P1) a 1048576 = replicate 1048576 0 \<and> enclave_ok P1
        \<and> (\<forall>Q. enclave_ok Q \<and> enclave_active (g_hv_state Q) \<and> g_enclave Q = g_enclave P1 \<longrightarrow>
            (\<exists>Q'. enclave_cleanup E Q = Some Q' \<and> read_bytes (p_mem Q') a 1048576 = replicate 1048576 0
              \<and> p_freed Q' = a # p_freed Q \<and> enclave_cleanup E Q' = Some Q'
              \<and> send_data E src sz Q' = Some (- 1, Q') \<and> receive_data E dest sz Q' = Some (- 1, Q'))))"
proof (cases "a = 0")
  case True
  then show ?thesis using enclave_init_cases [of E P] assms by auto
next
  case False
  define P1 where "P1 = enclave_opened a P"
  have i: "enclave_init E P = Some (0, P1)" using enclave_init_cases [of E P] assms False by (simp add: P1_def)
  have z: "read_bytes (p_mem P1) a 1048576 = replicate 1048576 0" "enclave_ok P1" "eb_data (g_enclave P1) = a"
    using False by (simp_all add: P1_def enclave_opened_def enclave_ok_def mem_simps)
  have c: "\<exists>Q'. enclave_cleanup E Q = Some Q' \<and> read_bytes (p_mem Q') a 1048576 = replicate 1048576 0
      \<and> p_freed Q' = a # p_freed Q \<and> enclave_cleanup E Q' = Some Q'
      \<and> send_data E src sz Q' = Some (- 1, Q') \<and> receive_data E dest sz Q' = Some (- 1, Q')"
    if q: "enclave_ok Q" "enclave_active (g_hv_state Q)" "g_enclave Q = g_enclave P1" for Q
  proof -
    have "enclave_cleanup E Q = Some (enclave_closed Q)" using enclave_cleanup_cases [OF q(1)] q(2) by simp
    moreover have "\<not> enclave_active (g_hv_state (enclave_closed Q))" "enclave_ok (enclave_closed Q)"
      by (simp_all add: enclave_closed_def enclave_ok_def empty_buffer_def)
    moreover have "read_bytes (p_mem (enclave_closed Q)) a 1048576 = replicate 1048576 0" "p_freed (enclave_closed Q) = a # p_freed Q"
      using q(3) z(3) by (simp_all add: enclave_closed_def mem_simps)
    ultimately show ?thesis using enclave_cleanup_cases [of "enclave_closed Q" E] by (simp add: send_data_def receive_data_def)
  qed
  show ?thesis using i z(1,2) False c by auto
qed

theorem enclave_lifecycle_witness:
  "\<exists>P1. enclave_init demo_penv demo_process = Some (0, P1) \<and> enclave_ok P1"
  using enclave_lifecycle [OF refl, of demo_penv demo_process 0 0 0] by auto

text \<open>C9: \<open>hypervisor_init\<close> returns, with 0, -2, -3, -4 or -5, in every environment in which the driver's device
  is not there, and with the device on a good one (\<open>device_good\<close>: a kernel environment that behaves,
  and a driver all of whose requests run on the one CPU of the process; if the scheduler moves the process
  between its requests the kernel can crash, see \<open>migrated_launch_crashes\<close>). It is -2 exactly when the
  allocator has nothing; -3 to -5 need \<^verbatim>\<open>KERNOVA_STRICT_VMX\<close>, and on those error paths, as on success, the
  enclave is left open and the trace engine running: nothing is given back.\<close>

theorem hypervisor_init_results:
  assumes "0 \<le> kd_fd (w_kd (backends P)) \<or> 0 \<le> os_open (pe_os E) \<Longrightarrow> device_good (pe_os E) m (backends P)"
    and "a = pe_alloc E (p_allocs P) 4096 ENCLAVE_SIZE"
  shows "\<exists>r P'. hypervisor_init E P = Some (r, P') \<and> (r = - 2 \<longleftrightarrow> a = 0)
    \<and> r \<in> {0, - 2, - 3, - 4, - 5} \<and> (r \<in> {- 3, - 4, - 5} \<longrightarrow> strict_vmx_required (pe_os E))
    \<and> (r \<noteq> - 2 \<longrightarrow> enclave_active (g_hv_state P') \<and> trace_enabled (g_hv_state P') \<and> eb_data (g_enclave P') = a \<and> p_freed P' = p_freed P)"
proof -
  obtain r P' where o: "hypervisor_init E P = Some (r, P')" "a = 0 \<Longrightarrow> r = - 2"
      "a \<noteq> 0 \<Longrightarrow> r = 0 \<or> r \<in> {- 3, - 4, - 5} \<and> strict_vmx_required (pe_os E)"
      "a \<noteq> 0 \<Longrightarrow> core P' = core ((enclave_opened a (monitored P))\<lparr>g_backend := Some (fst (select_backend (pe_os E) (backends P)))\<rparr>)"
    using hypervisor_init_outcome [OF assms(1)] assms(2) by blast
  have "enclave_active (g_hv_state P') \<and> trace_enabled (g_hv_state P') \<and> eb_data (g_enclave P') = a \<and> p_freed P' = p_freed P" if "a \<noteq> 0"
    using core_fields [OF o(4) [OF that]] by (simp add: enclave_opened_def monitored_def)
  then show ?thesis using o(1,2,3) by (cases "a = 0") auto
qed

theorem hypervisor_init_results_witness:
  "\<exists>r P'. hypervisor_init (demo_penv\<lparr>pe_os := demo_os\<rparr>) demo_process = Some (r, P') \<and> r \<noteq> - 2"
proof -
  have "device_good (pe_os (demo_penv\<lparr>pe_os := demo_os\<rparr>)) (\<lambda>_ _. 0) (backends demo_process)"
    using demo_good by simp
  from hypervisor_init_results [OF this refl] show ?thesis by auto
qed

text \<open>C7: The program in userspace: no driver, nothing enabled, whatever the CPU is short of AVX-512F.
  \<open>main\<close> finishes with 0; the self tests print their successes, the message that comes back is
  the reversed one, the integrity check passes, and in the end the enclave is wiped and freed.\<close>

theorem main_userspace_run:
  assumes "loaded E P" "kd_fd (w_kd (backends P)) < 0" "os_open (pe_os E) < 0" "\<not> hardware_backend_enabled (pe_os E)"
    and "\<not> has_avx512 (host_cpuid (pe_host E))" "a = pe_alloc E (p_allocs P) 4096 ENCLAVE_SIZE"
  shows "\<exists>P'. kernova_main E P = Some (Returns (0, P')) \<and> p_freed P' = a # p_freed P \<and> \<not> enclave_active (g_hv_state P')
    \<and> read_bytes (p_mem P') a 1048576 = replicate 1048576 0
    \<and> {(''[+] SIMD memcpy successful'', []), (''[+] SIMD hash successful'', []), (''[+] Memory zero verified'', []),
       (''[+] System integrity verified'', []), (''    Processed: %s'', [Chars (rev (ascii test_message))])} \<subseteq> set (p_out P')"
proof -
  obtain b P1 where 1: "hypervisor_init E P = Some (0, P1)" "running E P1" "eb_data (g_enclave P1) = a"
    "p_freed P1 = p_freed P" "g_backend P1 = Some b" "b \<noteq> KernelDriver" "\<not> hardware_virtualization_validated (g_hv_state P1)"
    "read_bytes (p_mem P1) (pe_message E) 22 = ascii test_message"
    by (rule userspace_init [OF assms(1-4), folded assms(6)])
  obtain P2 where 2: "hypervisor_main E P1 = Some (Returns P2)" "g_enclave P2 = g_enclave P1" "g_backend P2 = g_backend P1"
    "p_freed P2 = p_freed P1" "g_hv_state P2 = (g_hv_state P1)\<lparr>data_transferred_bytes := data_transferred_bytes (g_hv_state P1) + msg_len\<rparr>"
    "set simd_lines \<union> set (enclave_lines (ascii test_message)) \<union> {(''[+] System integrity verified'', [])} \<subseteq> set (p_out P2)"
    by (rule hypervisor_main_succeeds [OF 1(2) assms(5)]) (use 1(7,8) in simp)
  have ok: "enclave_ok P2" "enclave_active (g_hv_state P2)" using 1(2) 2(2,5) by (auto simp: running_def enclave_ok_def)
  obtain W where "shutdown_backend E P2 = Some W"
    using 1(5,6) 2(3) by (cases b) (simp_all add: shutdown_backend_def)
  then obtain P3 where 3: "hypervisor_shutdown E P2 = Some P3" "set (p_out P2) \<subseteq> set (p_out P3)" "\<not> enclave_active (g_hv_state P3)"
    "p_freed P3 = eb_data (g_enclave P2) # p_freed P2" "p_mem P3 = write_bytes (eb_data (g_enclave P2)) (replicate 1048576 0) (p_mem P2)"
    using ok(2) by (rule_tac shutdown_closes [OF _ ok(1)]) auto
  have "kernova_main E P = Some (Returns (0, P3))" using 1(1) 2(1) 3(1) by (simp add: kernova_main_def)
  moreover have "{(''[+] SIMD memcpy successful'', []), (''[+] SIMD hash successful'', []), (''[+] Memory zero verified'', []),
       (''    Processed: %s'', [Chars (rev (ascii test_message))])} \<subseteq> set simd_lines \<union> set (enclave_lines (ascii test_message))"
    by (simp add: simd_lines_def enclave_lines_def)
  ultimately show ?thesis using 1(3,4) 2(2,4,6) 3(2-5) by (auto simp: mem_simps)
qed

theorem main_userspace_run_witness:
  "\<exists>P'. kernova_main demo_penv demo_process = Some (Returns (0, P')) \<and> p_freed P' = [0x10000000]"
  using main_userspace_run [OF demo_loaded_process _ _ demo_not_enabled _ refl] host_facts(1) by (auto simp: fresh_kd_def)

text \<open>C8: The same program on a CPU with AVX-512F crashes: the enclave self test sends 22 bytes, and
  \<open>simd_pack_data\<close> never comes back.\<close>

theorem main_avx512_crash:
  assumes "loaded E P" "kd_fd (w_kd (backends P)) < 0" "os_open (pe_os E) < 0" "\<not> hardware_backend_enabled (pe_os E)"
    and "has_avx512 (host_cpuid (pe_host E))"
  shows "kernova_main E P = None"
proof -
  obtain P1 where 1: "hypervisor_init E P = Some (0, P1)" "running E P1"
    by (rule userspace_init [OF assms(1-4)])
  then show ?thesis using hypervisor_main_crashes [OF 1(2) assms(5)] by (simp add: kernova_main_def)
qed

theorem main_avx512_crash_witness:
  "kernova_main (demo_penv\<lparr>pe_host := avx512_host\<rparr>) demo_process = None"
proof -
  let ?E = "demo_penv\<lparr>pe_host := avx512_host\<rparr>"
  have "regions ?E a = regions demo_penv a" for a by (simp add: regions_def)
  moreover have "trace_reach avx512_host 0x9000 zero_bss demo_memory"
    using demo_loaded_process trace_reach_blank [of avx2_host "0x9000" zero_bss demo_memory]
    by (auto simp: loaded_def Let_def intro: trace_reach.loaded)
  ultimately have "loaded ?E demo_process" using demo_loaded_process host_facts(4) by (simp add: loaded_def Let_def)
  from main_avx512_crash [OF this] show ?thesis using demo_not_enabled host_facts(2) by (simp add: fresh_kd_def)
qed

text \<open>\<open>vmcall_handler\<close>. Function 0 returns the sum of its parameters modulo \<open>2 ^ 64\<close>; function 2 returns
  0 while the monitor runs; unknown functions and refused sends return all ones (-2 for a size
  over 64 KiB). Function 1 takes any non-null address the guest gives and reads the
  host's memory there into the enclave.\<close>

theorem vmcall_results:
  assumes "enclave_ok P" "trace_enabled (g_hv_state P)" "trace_reach (pe_host E) (pe_hash_buffer E) (trace_bss P) (p_mem P)"
    and "separate (eb_data (g_enclave P)) (unat q) p (unat q)"
    and "\<not> has_avx512 (host_cpuid (pe_host E))" "host_ra (pe_host E) 73 \<noteq> rsp (host_ctx (pe_host E)) - 8"
  shows "(\<exists>P'. vmcall_handler E 0 p q P = Some (p + q, P') \<and> p_mem P' = p_mem P)
    \<and> (\<exists>P'. vmcall_handler E 2 p q P = Some (0, P') \<and> p_mem P' = p_mem P)
    \<and> (f \<notin> {0, 1, 2} \<longrightarrow> (\<exists>P'. vmcall_handler E f p q P = Some (- 1, P') \<and> p_mem P' = p_mem P))
    \<and> vmcall_handler E 1 p q P = (if \<not> enclave_active (g_hv_state P) \<or> p = 0 \<or> q = 0 then Some (- 1, P)
        else if DATA_BUFFER_SIZE < q then Some (- 2, P)
        else Some (0, P\<lparr>p_mem := write_bytes (eb_data (g_enclave P)) (rev (read_bytes (p_mem P) p (unat q))) (p_mem P),
          g_hv_state := (g_hv_state P)\<lparr>data_transferred_bytes := data_transferred_bytes (g_hv_state P) + q\<rparr>\<rparr>))"
proof -
  obtain t where "monitor_check_integrity E P = Some (0, P\<lparr>trace_bss := t\<rparr>)"
    by (rule check_integrity_reach [OF assms(2,3)])
  moreover note send_data_cases [OF enclave_ok_open [OF assms(1)] assms(4,6)]
  ultimately show ?thesis using assms(5) by (simp add: vmcall_handler_def sent_def)
qed

theorem vmcall_results_witness:
  "\<exists>P'. vmcall_handler demo_penv 0 0xFFFFFFFFFFFFFFFF 2 (demo_open\<lparr>g_hv_state := (g_hv_state demo_open)\<lparr>trace_enabled := True\<rparr>\<rparr>) = Some (1, P')"
proof -
  let ?P = "demo_open\<lparr>g_hv_state := (g_hv_state demo_open)\<lparr>trace_enabled := True\<rparr>\<rparr>"
  have k: "enclave_ok ?P" using demo_open_ok(1) by (simp add: enclave_ok_def)
  have r: "trace_reach (pe_host demo_penv) (pe_hash_buffer demo_penv) (trace_bss ?P) (p_mem ?P)"
    using demo_loaded_process by (simp add: loaded_def demo_open_def)
  have s: "separate (eb_data (g_enclave ?P)) (unat (2::u64)) 0xFFFFFFFFFFFFFFFF (unat (2::u64))"
    using demo_open_ok(4) by (simp; rule_tac separateI; simp)
  have e: "trace_enabled (g_hv_state ?P)" "\<not> has_avx512 (host_cpuid (pe_host demo_penv))"
    "host_ra (pe_host demo_penv) 73 \<noteq> rsp (host_ctx (pe_host demo_penv)) - 8"
    using host_facts(1,3) by simp_all
  show ?thesis using vmcall_results [OF k e(1) r s e(2,3), THEN conjunct1] by auto
qed

text \<open>On a host whose kernel found no SVM (every Intel host) the driver's device, once it opens, keeps the
  program from any hardware: the driver is selected, its initialisation is always refused, the
  Intel backend is not tried, and \<open>hypervisor_init\<close> ends with -3 under \<^verbatim>\<open>KERNOVA_STRICT_VMX\<close> and in
  PoC mode otherwise.\<close>

theorem driver_on_intel_refused:
  assumes "device_good (pe_os E) m (backends P)" "\<not> env_has_svm (os_kenv (pe_os E))"
    and "0 \<le> kd_fd (w_kd (backends P)) \<or> 0 \<le> os_open (pe_os E)" "pe_alloc E (p_allocs P) 4096 ENCLAVE_SIZE \<noteq> 0"
    and "\<not> hardware_virtualization_validated (g_hv_state P)"
  shows "\<exists>r P'. hypervisor_init E P = Some (r, P') \<and> r = (if strict_vmx_required (pe_os E) then - 3 else 0)
    \<and> g_backend P' = Some KernelDriver \<and> \<not> hardware_virtualization_validated (g_hv_state P')"
proof -
  let ?a = "pe_alloc E (p_allocs P) 4096 ENCLAVE_SIZE"
  obtain P2 where 2: "hypervisor_init E P = init_select E P2" "backends P2 = backends P"
      "hardware_virtualization_validated (g_hv_state P2) = hardware_virtualization_validated (g_hv_state P)"
    using hypervisor_init_select [of E P] assms(4) by blast
  obtain W where s: "select_backend (pe_os E) (backends P2) = (KernelDriver, W)"
    using assms(3) 2(2) by (cases "0 \<le> kd_fd (w_kd (backends P))") (simp_all add: select_backend_def kd_available_def)
  then have g: "device_good (pe_os E) m W" using select_good [OF assms(1)] 2(2) by simp
  obtain st W2 where st: "backend_status_of KernelDriver (pe_os E) W = Some (st, W2)" "device_good (pe_os E) m W2"
    using backend_calls_return(1) [of KernelDriver "pe_os E" m W] g unfolding usable_def by blast
  obtain r W3 where i: "kd_init (pe_os E) W2 = Some (r, W3)" "r \<noteq> 0"
    by (rule kd_init_cases [OF st(2)]) (use assms(2) in auto)
  have "\<not> hardware_virtualization_validated (g_hv_state P2)" using 2(3) assms(5) by simp
  then show ?thesis
    using 2(1) s st(1) i by (auto simp: init_select_def init_backend_def printf_def)
qed

theorem driver_on_intel_refused_witness:
  "\<exists>P'. hypervisor_init (demo_penv\<lparr>pe_os := intel_os\<rparr>) (demo_process\<lparr>backends := intel_world\<rparr>) = Some (0, P')"
proof -
  have k: "kenv_ok intel_kenv" using demo_ok by (simp add: kenv_ok_def intel_kenv_def)
  have d: "driver_reach intel_kenv {0} (\<lambda>_ _. 0) (w_kernel intel_world)"
    by (rule driver_reach.load [where allow = True]) (simp add: intel_world_def kernova_module_init_def Let_def)
  have g: "device_good (pe_os (demo_penv\<lparr>pe_os := intel_os\<rparr>)) (\<lambda>_ _. 0) (backends (demo_process\<lparr>backends := intel_world\<rparr>))"
    using k d by (simp add: device_good_def intel_os_def)
  have s: "\<not> strict_vmx_required intel_os" by (simp add: strict_vmx_required_def intel_os_def demo_os_def)
  show ?thesis
    using driver_on_intel_refused [OF g] s by (auto simp: intel_os_def intel_kenv_def initial_hv_state_def)
qed

end
