(* ===== verification/Registers.thy ===== *)
theory Registers
  imports Cpu_Features
begin

text \<open>
  \<^verbatim>\<open>include/registers.hpp\<close>: the wrappers of control registers, model-specific registers and
  RFLAGS, segment descriptors in their two forms (the packed structure and the 64-bit entry),
  and the feature bits of CPUID. The registers of the CPU are a record; \<open>reg_hw\<close> says what a write
  of CR4 stores, since a CPU may keep reserved bits as they are.

  Shown: writes and reads of an MSR and of the control registers are inverse, \<open>enable_vmx\<close> reports
  what it reached, both forms of a descriptor have the same bytes, and the features agree with
  those of \<open>Cpu_Features\<close>.
\<close>

section \<open>Flags\<close>

definition CR0_bits :: "(string \<times> u64) list" where
  "CR0_bits = [(''PE'', push_bit 0 1), (''MP'', push_bit 1 1), (''EM'', push_bit 2 1), (''TS'', push_bit 3 1),
     (''ET'', push_bit 4 1), (''NE'', push_bit 5 1), (''WP'', push_bit 16 1), (''AM'', push_bit 18 1),
     (''NW'', push_bit 29 1), (''CD'', push_bit 30 1), (''PG'', push_bit 31 1)]"

definition CR4_bits :: "(string \<times> u64) list" where
  "CR4_bits = [(''VME'', push_bit 0 1), (''PVI'', push_bit 1 1), (''TSD'', push_bit 2 1), (''DE'', push_bit 3 1),
     (''PSE'', push_bit 4 1), (''PAE'', push_bit 5 1), (''MCE'', push_bit 6 1), (''PGE'', push_bit 7 1),
     (''PCE'', push_bit 8 1), (''OSFXSR'', push_bit 9 1), (''OSXMMEX'', push_bit 10 1), (''VMXE'', push_bit 13 1),
     (''SMXE'', push_bit 14 1), (''FSGSBASE'', push_bit 16 1), (''PCIDE'', push_bit 17 1), (''OSXSAVE'', push_bit 18 1),
     (''SMEP'', push_bit 20 1), (''SMAP'', push_bit 21 1), (''PKE'', push_bit 22 1)]"

definition RFLAGS_bits :: "(string \<times> u64) list" where
  "RFLAGS_bits = [(''CF'', push_bit 0 1), (''PF'', push_bit 2 1), (''AF'', push_bit 4 1), (''ZF'', push_bit 6 1),
     (''SF'', push_bit 7 1), (''TF'', push_bit 8 1), (''IF'', push_bit 9 1), (''DF'', push_bit 10 1),
     (''OF'', push_bit 11 1), (''NT'', push_bit 14 1), (''RF'', push_bit 16 1), (''VM'', push_bit 17 1),
     (''AC'', push_bit 18 1), (''VIF'', push_bit 19 1), (''VIP'', push_bit 20 1), (''ID'', push_bit 21 1)]"

definition CR4_VMXE :: u64 where "CR4_VMXE = push_bit 13 1"

section \<open>The registers\<close>

record registers =
  reg_cr0 :: u64
  reg_cr2 :: u64
  reg_cr3 :: u64
  reg_cr4 :: u64
  reg_cr8 :: u64
  reg_rflags :: u64
  reg_msr :: "u32 \<Rightarrow> u64"

record reg_hw =
  hw_cr4 :: "u64 \<Rightarrow> u64 \<Rightarrow> u64"

definition CR0_read :: "registers \<Rightarrow> u64" where "CR0_read m = reg_cr0 m"
definition CR0_write :: "u64 \<Rightarrow> registers \<Rightarrow> registers" where "CR0_write v m = m\<lparr>reg_cr0 := v\<rparr>"
definition CR4_read :: "registers \<Rightarrow> u64" where "CR4_read m = reg_cr4 m"
definition CR4_write :: "reg_hw \<Rightarrow> u64 \<Rightarrow> registers \<Rightarrow> registers" where "CR4_write h v m = m\<lparr>reg_cr4 := hw_cr4 h (reg_cr4 m) v\<rparr>"
definition RFLAGS_read :: "registers \<Rightarrow> u64" where "RFLAGS_read m = reg_rflags m"
definition RFLAGS_write :: "u64 \<Rightarrow> registers \<Rightarrow> registers" where "RFLAGS_write v m = m\<lparr>reg_rflags := v\<rparr>"

definition CR4_enable_vmx :: "reg_hw \<Rightarrow> registers \<Rightarrow> bool \<times> registers" where
  "CR4_enable_vmx h m =
     (let cr4 = CR4_read m
      in if cr4 AND CR4_VMXE \<noteq> 0 then (True, m)
         else
           let m = CR4_write h (cr4 OR CR4_VMXE) m
           in (CR4_read m AND CR4_VMXE \<noteq> 0, m))"

text \<open>\<^verbatim>\<open>rdmsr\<close> gives the halves in \<^verbatim>\<open>edx\<close> and \<^verbatim>\<open>eax\<close>, \<^verbatim>\<open>wrmsr\<close> takes them there.\<close>

definition rdmsr :: "u32 \<Rightarrow> registers \<Rightarrow> u32 \<times> u32" where
  "rdmsr a m = (ucast (reg_msr m a), ucast (drop_bit 32 (reg_msr m a)))"

definition wrmsr :: "u32 \<Rightarrow> u32 \<Rightarrow> u32 \<Rightarrow> registers \<Rightarrow> registers" where
  "wrmsr a low high m = m\<lparr>reg_msr := (reg_msr m)(a := push_bit 32 (ucast high) OR ucast low)\<rparr>"

definition MSR_read :: "u32 \<Rightarrow> registers \<Rightarrow> u64" where
  "MSR_read a m = (let (low, high) = rdmsr a m in push_bit 32 (ucast high) OR ucast low)"

definition MSR_write :: "u32 \<Rightarrow> u64 \<Rightarrow> registers \<Rightarrow> registers" where
  "MSR_write a value m =
     (let low = ucast (value AND 0xFFFFFFFF); high = ucast (drop_bit 32 value) in wrmsr a low high m)"

definition common_MSRs :: "(string \<times> u32) list" where
  "common_MSRs = [(''IA32_VMX_BASIC'', 0x480), (''IA32_VMX_PINBASED_CTLS'', 0x481), (''IA32_VMX_PROCBASED_CTLS'', 0x482),
     (''IA32_VMX_EXIT_CTLS'', 0x483), (''IA32_VMX_ENTRY_CTLS'', 0x484), (''IA32_FEATURE_CONTROL'', 0x3A),
     (''IA32_DEBUGCTL'', 0x1D9), (''IA32_LSTAR'', 0xC0000082), (''IA32_CSTAR'', 0xC0000083),
     (''IA32_SF_MASK'', 0xC0000084), (''IA32_KERNEL_GS_BASE'', 0xC0000102)]"

record control_registers =
  crs_cr0 :: u64
  crs_cr2 :: u64
  crs_cr3 :: u64
  crs_cr4 :: u64
  crs_cr8 :: u64

definition ControlRegisters_capture :: "registers \<Rightarrow> control_registers" where
  "ControlRegisters_capture m = \<lparr>crs_cr0 = reg_cr0 m, crs_cr2 = reg_cr2 m, crs_cr3 = reg_cr3 m,
     crs_cr4 = reg_cr4 m, crs_cr8 = reg_cr8 m\<rparr>"

definition ControlRegisters_restore :: "reg_hw \<Rightarrow> control_registers \<Rightarrow> registers \<Rightarrow> registers" where
  "ControlRegisters_restore h c m =
     (let m = m\<lparr>reg_cr0 := crs_cr0 c\<rparr>;
          m = m\<lparr>reg_cr2 := crs_cr2 c\<rparr>;
          m = m\<lparr>reg_cr3 := crs_cr3 c\<rparr>;
          m = CR4_write h (crs_cr4 c) m
      in m\<lparr>reg_cr8 := crs_cr8 c\<rparr>)"

section \<open>Segment descriptors\<close>

record segment_descriptor =
  sd_limit_low :: u16
  sd_base_low :: u16
  sd_base_mid :: u8
  sd_access :: u8
  sd_limit_high_flags :: u8
  sd_base_high :: u8

definition SegmentDescriptor :: segment_descriptor where
  "SegmentDescriptor = \<lparr>sd_limit_low = 0, sd_base_low = 0, sd_base_mid = 0, sd_access = 0,
     sd_limit_high_flags = 0, sd_base_high = 0\<rparr>"

definition sd_set_base :: "u64 \<Rightarrow> segment_descriptor \<Rightarrow> segment_descriptor" where
  "sd_set_base base d = d\<lparr>sd_base_low := ucast (base AND 0xFFFF), sd_base_mid := ucast (drop_bit 16 base AND 0xFF),
     sd_base_high := ucast (drop_bit 24 base AND 0xFF)\<rparr>"

definition sd_set_limit :: "u32 \<Rightarrow> segment_descriptor \<Rightarrow> segment_descriptor" where
  "sd_set_limit limit d = d\<lparr>sd_limit_low := ucast (limit AND 0xFFFF),
     sd_limit_high_flags := (sd_limit_high_flags d AND 0xF0) OR ucast (drop_bit 16 limit AND 0x0F)\<rparr>"

definition sd_set_access :: "u8 \<Rightarrow> segment_descriptor \<Rightarrow> segment_descriptor" where
  "sd_set_access access_rights d = d\<lparr>sd_access := access_rights\<rparr>"

text \<open>The bytes of the packed structure.\<close>

definition sd_bytes :: "segment_descriptor \<Rightarrow> u8 list" where
  "sd_bytes d = le_bytes 2 (sd_limit_low d) @ le_bytes 2 (sd_base_low d) @ [sd_base_mid d, sd_access d,
     sd_limit_high_flags d, sd_base_high d]"

definition GDTEntry_set_segment :: "u32 \<Rightarrow> u32 \<Rightarrow> u8 \<Rightarrow> u64" where
  "GDTEntry_set_segment base limit acc =
     (let desc = 0;
          desc = desc OR push_bit 16 (ucast (base AND 0xFFFF));
          desc = desc OR push_bit 16 (ucast (base AND 0xFF0000));
          desc = desc OR push_bit 32 (ucast (base AND 0xFF000000));
          desc = desc OR ucast (limit AND 0xFFFF);
          desc = desc OR push_bit 32 (ucast (limit AND 0xF0000));
          desc = desc OR push_bit 40 (ucast acc);
          desc = desc OR (push_bit 55 1 OR push_bit 54 1)
      in desc)"

section \<open>CPUID features\<close>

record reg_features =
  eax_mmx :: bool
  eax_sse :: bool
  eax_sse2 :: bool
  ecx_sse3 :: bool
  ecx_ssse3 :: bool
  ecx_sse4_1 :: bool
  ecx_sse4_2 :: bool
  ecx_avx :: bool
  ecx_avx2 :: bool
  ecx_avx512 :: bool
  ecx_vmx :: bool
  ecx_rdrand :: bool

text \<open>Leaf 1 leaves the subleaf register as it is; \<open>sub\<close> is what it holds.\<close>

definition get_features :: "u32 \<Rightarrow> cpuid_fn \<Rightarrow> reg_features" where
  "get_features sub q =
     (let f = \<lparr>eax_mmx = False, eax_sse = False, eax_sse2 = False, ecx_sse3 = False, ecx_ssse3 = False,
            ecx_sse4_1 = False, ecx_sse4_2 = False, ecx_avx = False, ecx_avx2 = False, ecx_avx512 = False,
            ecx_vmx = False, ecx_rdrand = False\<rparr>;
          r = q 1 sub;
          f = f\<lparr>eax_sse := drop_bit 25 (edx r) AND 1 \<noteq> 0\<rparr>;
          f = f\<lparr>eax_sse2 := drop_bit 26 (edx r) AND 1 \<noteq> 0\<rparr>;
          f = f\<lparr>ecx_sse3 := ecx r AND 1 \<noteq> 0\<rparr>;
          f = f\<lparr>ecx_ssse3 := drop_bit 9 (ecx r) AND 1 \<noteq> 0\<rparr>;
          f = f\<lparr>ecx_sse4_1 := drop_bit 19 (ecx r) AND 1 \<noteq> 0\<rparr>;
          f = f\<lparr>ecx_sse4_2 := drop_bit 20 (ecx r) AND 1 \<noteq> 0\<rparr>;
          f = f\<lparr>ecx_avx := drop_bit 28 (ecx r) AND 1 \<noteq> 0\<rparr>;
          f = f\<lparr>ecx_vmx := drop_bit 5 (ecx r) AND 1 \<noteq> 0\<rparr>;
          f = f\<lparr>ecx_rdrand := drop_bit 30 (ecx r) AND 1 \<noteq> 0\<rparr>;
          r = q 7 0;
          f = f\<lparr>ecx_avx2 := drop_bit 5 (ebx r) AND 1 \<noteq> 0\<rparr>
      in f\<lparr>ecx_avx512 := drop_bit 16 (ebx r) AND 1 \<noteq> 0\<rparr>)"

section \<open>Lemmas\<close>

lemma join_halves: "push_bit 32 (ucast (ucast (drop_bit 32 v) :: u32)) OR ucast (ucast v :: u32) = (v :: u64)"
  by (rule bit_word_eqI) (auto simp: bit_simps)

lemma MSR_read_value: "MSR_read a m = reg_msr m a"
  by (simp add: MSR_read_def rdmsr_def join_halves)

lemma low_half: "ucast ((v :: u64) AND 0xFFFFFFFF) = (ucast v :: u32)"
proof -
  have m: "(0xFFFFFFFF :: u64) = mask 32" by (simp add: mask_eq_exp_minus_1)
  show ?thesis unfolding m by (rule bit_word_eqI) (auto simp: bit_simps)
qed

lemma MSR_write_value: "MSR_write a v m = m\<lparr>reg_msr := (reg_msr m)(a := v)\<rparr>"
  by (simp add: MSR_write_def wrmsr_def low_half join_halves)

lemma masks:
  "(0xFFFF :: 'a::len word) = mask 16" "(0xFF :: 'a::len word) = mask 8" "(0x0F :: 'a::len word) = mask 4"
  "(0xFF0000 :: 'a::len word) = push_bit 16 (mask 8)" "(0xFF000000 :: 'a::len word) = push_bit 24 (mask 8)"
  "(push_bit 55 1 OR push_bit 54 1 :: u64) = push_bit 54 (mask 2)" "(0xC0 :: u8) = push_bit 6 (mask 2)"
  "(0xF0000 :: 'a::len word) = push_bit 16 (mask 4)" "(0xF0 :: 'a::len word) = push_bit 4 (mask 4)"
  by (simp_all add: mask_eq_exp_minus_1 push_bit_eq_mult)

text \<open>A descriptor as both forms have it: the bytes, from the lowest.\<close>

definition descriptor_bytes :: "u32 \<Rightarrow> u32 \<Rightarrow> u8 \<Rightarrow> u8 list" where
  "descriptor_bytes base limit acc = [ucast limit, ucast (drop_bit 8 limit), ucast base, ucast (drop_bit 8 base),
     ucast (drop_bit 16 base), acc, take_bit 4 (ucast (drop_bit 16 limit)) OR push_bit 6 (mask 2), ucast (drop_bit 24 base)]"

lemma gdt_bytes:
  "ucast (drop_bit 0 (GDTEntry_set_segment base limit acc)) = (ucast limit :: u8)"
  "ucast (drop_bit 8 (GDTEntry_set_segment base limit acc)) = (ucast (drop_bit 8 limit) :: u8)"
  "ucast (drop_bit 16 (GDTEntry_set_segment base limit acc)) = (ucast base :: u8)"
  "ucast (drop_bit 24 (GDTEntry_set_segment base limit acc)) = (ucast (drop_bit 8 base) :: u8)"
  "ucast (drop_bit 32 (GDTEntry_set_segment base limit acc)) = (ucast (drop_bit 16 base) :: u8)"
  "ucast (drop_bit 40 (GDTEntry_set_segment base limit acc)) = acc"
  "ucast (drop_bit 48 (GDTEntry_set_segment base limit acc)) = (take_bit 4 (ucast (drop_bit 16 limit)) OR push_bit 6 (mask 2) :: u8)"
  "ucast (drop_bit 56 (GDTEntry_set_segment base limit acc)) = (ucast (drop_bit 24 base) :: u8)"
  unfolding GDTEntry_set_segment_def Let_def masks
  by (rule bit_word_eqI, auto simp: bit_simps dest: bit_imp_le_length)+

lemma gdt_descriptor: "le_bytes 8 (GDTEntry_set_segment base limit acc) = descriptor_bytes base limit acc"
  using gdt_bytes [of base limit acc] by (simp add: le_bytes_def descriptor_bytes_def upt_conv_Cons)

lemma sd_fields:
  "ucast (ucast (b :: u32) AND 0xFFFF :: u64) = (ucast b :: u16)" "ucast (drop_bit 16 (ucast b) AND 0xFF :: u64) = (ucast (drop_bit 16 b) :: u8)"
  "ucast (drop_bit 24 (ucast b) AND 0xFF :: u64) = (ucast (drop_bit 24 b) :: u8)" "ucast (l AND 0xFFFF :: u32) = (ucast l :: u16)"
  "ucast (drop_bit 16 l AND 0x0F :: u32) = (take_bit 4 (ucast (drop_bit 16 l)) :: u8)"
  unfolding masks by (rule bit_word_eqI, auto simp: bit_simps)+

lemma flags_byte: "((0xC0 :: u8) AND 0xF0) = push_bit 6 (mask 2)"
  by (simp add: mask_eq_exp_minus_1)

lemma half_bytes: "le_bytes 2 (ucast (b :: u32) :: u16) = [ucast b, ucast (drop_bit 8 b)]"
  by (simp add: le_bytes_def upt_conv_Cons) (intro conjI bit_word_eqI; auto simp: bit_simps)

lemma sd_descriptor:
  "sd_bytes (sd_set_access acc (sd_set_limit limit (sd_set_base (ucast base) (SegmentDescriptor\<lparr>sd_limit_high_flags := 0xC0\<rparr>))))
    = descriptor_bytes base limit acc"
  unfolding sd_bytes_def sd_set_access_def sd_set_limit_def sd_set_base_def SegmentDescriptor_def descriptor_bytes_def
    segment_descriptor.simps segment_descriptor.update_convs sd_fields half_bytes flags_byte
  by (simp add: or.commute)


section \<open>Properties\<close>

text \<open>C38: The two forms of a segment descriptor agree: the 64-bit entry \<open>set_segment\<close> builds has, as bytes in
  memory, exactly the packed structure that \<open>set_base\<close>, \<open>set_limit\<close> and \<open>set_access\<close> fill in
  over the flags granularity and 32-bit, whatever base, limit and access byte (of a limit only
  the low 20 bits count).\<close>

theorem descriptor_forms_agree:
  "le_bytes 8 (GDTEntry_set_segment base limit acc)
    = sd_bytes (sd_set_access acc (sd_set_limit limit (sd_set_base (ucast base) (SegmentDescriptor\<lparr>sd_limit_high_flags := 0xC0\<rparr>))))
   \<and> GDTEntry_set_segment base (take_bit 20 limit) acc = GDTEntry_set_segment base limit acc"
proof -
  have "take_bit 20 limit AND 0xFFFF = limit AND 0xFFFF" "take_bit 20 limit AND 0xF0000 = limit AND 0xF0000"
    unfolding masks by (rule bit_word_eqI, auto simp: bit_simps)+
  then have "GDTEntry_set_segment base (take_bit 20 limit) acc = GDTEntry_set_segment base limit acc"
    by (simp only: GDTEntry_set_segment_def)
  then show ?thesis by (simp add: gdt_descriptor sd_descriptor)
qed

text \<open>C39: \<open>enable_vmx\<close> returns true exactly when CR4.VMXE is set afterwards, whatever the CPU stores; if
  VMXE was set it writes nothing; it changes no register but CR4, and on a CPU that stores what
  is written it succeeds and keeps the other bits.\<close>

theorem enable_vmx_reports:
  assumes "CR4_enable_vmx h m = (ok, m')"
  shows "ok = bit (reg_cr4 m') 13 \<and> (bit (reg_cr4 m) 13 \<longrightarrow> m' = m)
    \<and> m'\<lparr>reg_cr4 := reg_cr4 m\<rparr> = m
    \<and> ((\<forall>old new. hw_cr4 h old new = new) \<longrightarrow> ok \<and> reg_cr4 m' = reg_cr4 m OR CR4_VMXE)"
proof -
  have v: "x AND CR4_VMXE \<noteq> 0 \<longleftrightarrow> bit x 13" for x
    unfolding CR4_VMXE_def by (rule bit_iff_and_push_bit_not_eq_0 [symmetric])
  have k: "bit x n \<Longrightarrow> x OR push_bit n 1 = x" for x :: u64 and n
    by (rule bit_word_eqI) (auto simp: bit_simps)
  have s: "n < 64 \<Longrightarrow> bit (x OR push_bit n 1) n" for x :: u64 and n
    by (simp add: bit_simps)
  show ?thesis
    using assms k [of "reg_cr4 m" 13, folded CR4_VMXE_def] s [of 13 "reg_cr4 m", folded CR4_VMXE_def]
    by (auto simp: CR4_enable_vmx_def v CR4_read_def CR4_write_def Let_def split: if_splits)
qed

theorem enable_vmx_reports_witness:
  "\<exists>ok m'. CR4_enable_vmx \<lparr>hw_cr4 = \<lambda>old new. new\<rparr>
      \<lparr>reg_cr0 = 1, reg_cr2 = 0, reg_cr3 = 0, reg_cr4 = 0x20, reg_cr8 = 0, reg_rflags = 2, reg_msr = \<lambda>_. 0\<rparr> = (ok, m') \<and> ok"
proof -
  obtain ok m' where e: "CR4_enable_vmx \<lparr>hw_cr4 = \<lambda>old new. new\<rparr>
      \<lparr>reg_cr0 = 1, reg_cr2 = 0, reg_cr3 = 0, reg_cr4 = 0x20, reg_cr8 = 0, reg_rflags = 2, reg_msr = \<lambda>_. 0\<rparr> = (ok, m')"
    by fastforce
  show ?thesis using enable_vmx_reports [OF e] e by auto
qed

text \<open>Round trips: an MSR reads back what was written to it and no other MSR changes, although both
  travel as two 32-bit halves; capturing the control registers and restoring them gives the
  same machine, and restoring any values and capturing gives these values.\<close>

theorem register_roundtrips:
  "MSR_read a (MSR_write a v m) = v \<and> (b \<noteq> a \<longrightarrow> MSR_read b (MSR_write a v m) = MSR_read b m)
   \<and> ((\<forall>old new. hw_cr4 h old new = new) \<longrightarrow>
        ControlRegisters_restore h (ControlRegisters_capture m) m = m
      \<and> ControlRegisters_capture (ControlRegisters_restore h c m) = c)"
  by (simp add: MSR_read_value MSR_write_value ControlRegisters_capture_def ControlRegisters_restore_def CR4_write_def Let_def)

theorem register_roundtrips_witness:
  "MSR_read 0x3A (MSR_write 0x480 0x123456789
     \<lparr>reg_cr0 = 1, reg_cr2 = 0, reg_cr3 = 0, reg_cr4 = 0x20, reg_cr8 = 0, reg_rflags = 2, reg_msr = \<lambda>_. 5\<rparr>) = 5"
  using register_roundtrips [of "0x480" "0x123456789"
      "\<lparr>reg_cr0 = 1, reg_cr2 = 0, reg_cr3 = 0, reg_cr4 = 0x20, reg_cr8 = 0, reg_rflags = 2, reg_msr = \<lambda>_. 5\<rparr>" "0x3A"]
  by (simp add: MSR_read_value)

text \<open>The features of \<^verbatim>\<open>registers.hpp\<close> and those of \<open>detect_cpu_features\<close> agree where both have them (VMX,
  AVX2, AVX-512F), for every CPUID whose leaf 1 ignores the subleaf.\<close>

theorem features_agree:
  assumes "\<And>s. q 1 s = q 1 0"
  shows "ecx_vmx (get_features s q) = vmx (detect_cpu_features q) \<and> ecx_avx2 (get_features s q) = avx2 (detect_cpu_features q)
    \<and> ecx_avx512 (get_features s q) = avx512 (detect_cpu_features q) \<and> \<not> eax_mmx (get_features s q)"
  using assms [of s] by (simp add: get_features_def detect_basic_fields bit_test Let_def)

theorem features_agree_witness:
  "ecx_vmx (get_features 9 (\<lambda>l s. \<lparr>eax = 0, ebx = 0, ecx = 0x20, edx = 0\<rparr>))"
  using features_agree [of "\<lambda>l s. \<lparr>eax = 0, ebx = 0, ecx = 0x20, edx = 0\<rparr>" 9] by (simp add: detect_basic_fields)

end
