(* ===== verification/Vmx_Machine.thy ===== *)
theory Vmx_Machine
  imports X86_Machine "HOL-Library.Monad_Syntax"
begin

text \<open>
  The processor as the bare-metal routines see it: the state of \<open>X86_Machine\<close> extended by
  the control registers, the data segment registers, the two flags the VMX instructions
  report with, and VMX operation itself: whether it is on, the current VMCS pointer, and the
  fields of every VMCS.

  The instructions are those of the Intel manual. What they depend on and the program
  cannot see (which MSRs exist, which values \<open>mov cr4\<close> takes, which pointers and fields
  the processor accepts, whether an entry into the guest succeeds) is the record
  \<open>vmx_hw\<close>, a parameter. \<open>None\<close> is a processor exception (\<^verbatim>\<open>#UD\<close> or \<^verbatim>\<open>#GP\<close>).

  A call of a routine is its function, applied; what a routine pushes and pops is explicit, so
  that the registers it preserves are theorems. The stack is apart from \<open>mem\<close>, as in
  \<open>X86_Machine\<close>.
\<close>

record vcpu = cpu +
  cr0 :: u64
  cr3 :: u64
  cr4 :: u64
  seg_ds :: u16
  seg_es :: u16
  seg_fs :: u16
  seg_gs :: u16
  zf :: bool
  cf :: bool
  vmx_on :: bool
  cur_vmcs :: "u64 option"
  vmcs_of :: "u64 \<Rightarrow> u64 \<Rightarrow> u64"

record vmx_hw =
  hw_cpuid :: cpuid_fn
  rdmsr_of :: "u32 \<Rightarrow> u64 option"
  cr4_after :: "u64 \<Rightarrow> u64 option"
  vmxon_allowed :: bool
  vmxon_accepts :: "u64 \<Rightarrow> bool"
  vmclear_accepts :: "u64 \<Rightarrow> bool"
  vmptrld_accepts :: "u64 \<Rightarrow> bool"
  field_readable :: "u64 \<Rightarrow> bool"
  field_writable :: "u64 \<Rightarrow> bool"
  selector_loads :: "u16 \<Rightarrow> bool"
  invept_accepts :: "u64 \<Rightarrow> u64 \<Rightarrow> bool"
  entry_succeeds :: "vcpu \<Rightarrow> bool"

section \<open>Constants of \<^verbatim>\<open>vmx_defs.inc\<close>\<close>

definition CR0_PE :: u64 where "CR0_PE = 0x0001"
definition CR4_VMXE_bit :: u64 where "CR4_VMXE_bit = 0x2000"

definition IA32_FEATURE_CONTROL :: u64 where "IA32_FEATURE_CONTROL = 0x3A"
definition IA32_VMX_BASIC :: u64 where "IA32_VMX_BASIC = 0x480"
definition IA32_VMX_PINBASED_CTLS :: u64 where "IA32_VMX_PINBASED_CTLS = 0x481"
definition IA32_VMX_PROCBASED_CTLS :: u64 where "IA32_VMX_PROCBASED_CTLS = 0x482"
definition IA32_VMX_EXIT_CTLS :: u64 where "IA32_VMX_EXIT_CTLS = 0x483"
definition IA32_VMX_ENTRY_CTLS :: u64 where "IA32_VMX_ENTRY_CTLS = 0x484"

section \<open>Memory operands\<close>

definition load_quad :: "memory \<Rightarrow> u64 \<Rightarrow> u64" where
  "load_quad m a = le_word (read_bytes m a 8)"

definition store_quad :: "u64 \<Rightarrow> u64 \<Rightarrow> memory \<Rightarrow> memory" where
  "store_quad a v m = write_bytes a (le_bytes 8 v) m"

definition load_dword :: "memory \<Rightarrow> u64 \<Rightarrow> u32" where
  "load_dword m a = le_word (read_bytes m a 4)"

definition store_dword :: "u64 \<Rightarrow> u32 \<Rightarrow> memory \<Rightarrow> memory" where
  "store_dword a v m = write_bytes a (le_bytes 4 v) m"

fun rep_stosd_n :: "nat \<Rightarrow> vcpu \<Rightarrow> vcpu" where
  "rep_stosd_n 0 s = s"
| "rep_stosd_n (Suc n) s = rep_stosd_n n
     (s\<lparr>mem := store_dword (rdi s) (ucast (rax s)) (mem s), rdi := rdi s + 4, rcx := rcx s - 1\<rparr>)"

definition rep_stosd :: "vcpu \<Rightarrow> vcpu" where
  "rep_stosd s = rep_stosd_n (unat (rcx s)) s"

section \<open>System instructions\<close>

text \<open>\<^verbatim>\<open>test eax, eax\<close> followed by \<^verbatim>\<open>jz\<close>.\<close>

definition eax_zero :: "vcpu \<Rightarrow> bool" where
  "eax_zero s \<longleftrightarrow> (ucast (rax s) :: u32) = 0"

definition rdmsr_instr :: "vmx_hw \<Rightarrow> vcpu \<Rightarrow> vcpu option" where
  "rdmsr_instr H s = (case rdmsr_of H (ucast (rcx s)) of
                  None \<Rightarrow> None
                | Some v \<Rightarrow> Some (s\<lparr>rax := take_bit 32 v, rdx := drop_bit 32 v\<rparr>))"

definition write_cr4 :: "vmx_hw \<Rightarrow> u64 \<Rightarrow> vcpu \<Rightarrow> vcpu option" where
  "write_cr4 H v s = (case cr4_after H v of None \<Rightarrow> None | Some v' \<Rightarrow> Some (s\<lparr>cr4 := v'\<rparr>))"

definition cpuid :: "vmx_hw \<Rightarrow> vcpu \<Rightarrow> vcpu" where
  "cpuid H s = (let r = hw_cpuid H (ucast (rax s)) (ucast (rcx s))
                in s\<lparr>rax := ucast (eax r), rbx := ucast (ebx r), rcx := ucast (ecx r), rdx := ucast (edx r)\<rparr>)"

section \<open>VMX instructions\<close>

definition vm_succeed :: "vcpu \<Rightarrow> vcpu" where
  "vm_succeed s = s\<lparr>cf := False, zf := False\<rparr>"

definition vm_fail_invalid :: "vcpu \<Rightarrow> vcpu" where
  "vm_fail_invalid s = s\<lparr>cf := True, zf := False\<rparr>"

definition vm_fail_valid :: "vcpu \<Rightarrow> vcpu" where
  "vm_fail_valid s = s\<lparr>cf := False, zf := True\<rparr>"

definition vm_fail :: "vcpu \<Rightarrow> vcpu" where
  "vm_fail s = (if cur_vmcs s = None then vm_fail_invalid s else vm_fail_valid s)"

text \<open>\<^verbatim>\<open>vmxon [a]\<close>, \<^verbatim>\<open>vmclear [a]\<close>, \<^verbatim>\<open>vmptrld [a]\<close>: the operand is the quadword in memory at
  \<open>a\<close>, and that quadword is the physical address of the region.\<close>

definition vmxon_instr :: "vmx_hw \<Rightarrow> u64 \<Rightarrow> vcpu \<Rightarrow> vcpu option" where
  "vmxon_instr H a s =
     (if cr4 s AND CR4_VMXE_bit = 0 then None
      else if vmx_on s then Some (vm_fail s)
      else if \<not> vmxon_allowed H then None
      else if vmxon_accepts H (load_quad (mem s) a) then Some (vm_succeed (s\<lparr>vmx_on := True, cur_vmcs := None\<rparr>))
      else Some (vm_fail_invalid s))"

definition vmxoff_instr :: "vcpu \<Rightarrow> vcpu option" where
  "vmxoff_instr s = (if vmx_on s then Some (vm_succeed (s\<lparr>vmx_on := False\<rparr>)) else None)"

definition vmclear_instr :: "vmx_hw \<Rightarrow> u64 \<Rightarrow> vcpu \<Rightarrow> vcpu option" where
  "vmclear_instr H a s =
     (let p = load_quad (mem s) a
      in if \<not> vmx_on s then None
         else if vmclear_accepts H p
         then Some (vm_succeed (if cur_vmcs s = Some p then s\<lparr>cur_vmcs := None\<rparr> else s))
         else Some (vm_fail s))"

definition vmptrld_instr :: "vmx_hw \<Rightarrow> u64 \<Rightarrow> vcpu \<Rightarrow> vcpu option" where
  "vmptrld_instr H a s =
     (let p = load_quad (mem s) a
      in if \<not> vmx_on s then None
         else if vmptrld_accepts H p then Some (vm_succeed (s\<lparr>cur_vmcs := Some p\<rparr>))
         else Some (vm_fail s))"

text \<open>\<^verbatim>\<open>vmwrite r1, r2\<close>: the first operand is the field encoding, the second the value.\<close>

definition vmwrite_instr :: "vmx_hw \<Rightarrow> u64 \<Rightarrow> u64 \<Rightarrow> vcpu \<Rightarrow> vcpu option" where
  "vmwrite_instr H f v s =
     (if \<not> vmx_on s then None
      else case cur_vmcs s of
             None \<Rightarrow> Some (vm_fail_invalid s)
           | Some p \<Rightarrow> if field_writable H f
                       then Some (vm_succeed (s\<lparr>vmcs_of := (vmcs_of s)(p := (vmcs_of s p)(f := v))\<rparr>))
                       else Some (vm_fail_valid s))"

text \<open>\<^verbatim>\<open>vmread r1, r2\<close>: the first operand is the destination, the second the field encoding. A
  failed read leaves the destination alone.\<close>

definition vmread_instr :: "vmx_hw \<Rightarrow> ((u64 \<Rightarrow> u64) \<Rightarrow> vcpu \<Rightarrow> vcpu) \<Rightarrow> u64 \<Rightarrow> vcpu \<Rightarrow> vcpu option" where
  "vmread_instr H dest f s =
     (if \<not> vmx_on s then None
      else case cur_vmcs s of
             None \<Rightarrow> Some (vm_fail_invalid s)
           | Some p \<Rightarrow> if field_readable H f then Some (vm_succeed (dest (\<lambda>_. vmcs_of s p f) s))
                       else Some (vm_fail_valid s))"

text \<open>\<^verbatim>\<open>invept\<close>: the type and the EPT pointer of the descriptor; cached translations are not state.\<close>

definition invept_instr :: "vmx_hw \<Rightarrow> u64 \<Rightarrow> u64 \<Rightarrow> vcpu \<Rightarrow> vcpu option" where
  "invept_instr H type desc s =
     (if \<not> vmx_on s then None
      else Some (if invept_accepts H type (load_quad (mem s) desc) then vm_succeed s else vm_fail s))"

text \<open>\<^verbatim>\<open>vmlaunch\<close> and \<^verbatim>\<open>vmresume\<close> leave for the guest, or fail and fall through.\<close>

datatype entry = Entered vcpu | Fell vcpu

definition vmentry_instr :: "vmx_hw \<Rightarrow> vcpu \<Rightarrow> entry option" where
  "vmentry_instr H s =
     (if \<not> vmx_on s then None
      else if cur_vmcs s \<noteq> None \<and> entry_succeeds H s then Some (Entered s)
      else Some (Fell (vm_fail s)))"

lemmas vm_flags = vm_succeed_def vm_fail_invalid_def vm_fail_valid_def vm_fail_def

section \<open>Facts\<close>

lemma load64_store64 [simp]: "load_quad (store_quad a v m) a = v"
  by (simp add: load_quad_def store_quad_def mem_simps enc_simps)

lemma load32_store32 [simp]: "load_dword (store_dword a v m) a = v"
  by (simp add: load_dword_def store_dword_def mem_simps enc_simps)

lemma store32_store32 [simp]: "store_dword a w (store_dword a v m) = store_dword a w m"
  by (rule ext) (simp add: store_dword_def write_bytes_def)

lemma low_half_ucast [simp]: "ucast (ucast v :: u64) = (v :: u32)"
  by (rule bit_word_eqI) (simp add: bit_simps)

lemma eax_zero_mov [simp]: "eax_zero (mov_eax v s) \<longleftrightarrow> v = 0"
  by (simp add: eax_zero_def)

lemma push_sys [simp]:
  "cr0 (push v s) = cr0 s" "cr3 (push v s) = cr3 s" "cr4 (push v s) = cr4 s" "zf (push v s) = zf s"
  "vmx_on (push v s) = vmx_on s" "cur_vmcs (push v s) = cur_vmcs s" "vmcs_of (push v s) = vmcs_of s"
  "r8 (push v s) = r8 s" "r9 (push v s) = r9 s" "r10 (push v s) = r10 s" "r11 (push v s) = r11 s"
  by (simp_all add: push_def)

lemma mov_eax_sys [simp]:
  "cr0 (mov_eax v s) = cr0 s" "cr3 (mov_eax v s) = cr3 s" "cr4 (mov_eax v s) = cr4 s" "zf (mov_eax v s) = zf s"
  "vmx_on (mov_eax v s) = vmx_on s" "cur_vmcs (mov_eax v s) = cur_vmcs s" "vmcs_of (mov_eax v s) = vmcs_of s"
  by (simp_all add: mov_eax_def)

lemma rep_stosd_n_frame [simp]:
  "rax (rep_stosd_n n s) = rax s" "rbx (rep_stosd_n n s) = rbx s" "rdx (rep_stosd_n n s) = rdx s"
  "rbp (rep_stosd_n n s) = rbp s" "rsp (rep_stosd_n n s) = rsp s" "stk (rep_stosd_n n s) = stk s"
  "cr4 (rep_stosd_n n s) = cr4 s" "vmx_on (rep_stosd_n n s) = vmx_on s"
  "cur_vmcs (rep_stosd_n n s) = cur_vmcs s" "vmcs_of (rep_stosd_n n s) = vmcs_of s"
  by (induction n arbitrary: s) simp_all

lemma mem_rep_stosd_n:
  assumes "4 * n \<le> 2 ^ 64"
  shows "mem (rep_stosd_n n s) = write_bytes (rdi s) (concat (replicate n (le_bytes 4 (ucast (rax s) :: u32)))) (mem s)"
  using assms
proof (induction n arbitrary: s)
  case (Suc n)
  let ?b = "le_bytes 4 (ucast (rax s) :: u32)"
  have "length (concat (replicate n ?b)) = 4 * n" by (induction n) simp_all
  then show ?case
    using Suc write_bytes_append [of ?b "concat (replicate n ?b)" "rdi s" "mem s"]
    by (simp add: store_dword_def)
qed simp

end
