(* ===== verification/Vmx_Core.thy ===== *)
theory Vmx_Core
  imports Vmx_Machine
begin

text \<open>
  \<^verbatim>\<open>src/virtualization/intel_vmx/core/vmx_init.asm\<close> and \<^verbatim>\<open>vmcs_config.asm\<close>: entering VMX
  operation, preparing the VMCS, and the entries into the guest, instruction by instruction.
  \<open>vmx_image\<close> holds the addresses the linker chooses; the variables of the two \<^verbatim>\<open>.bss\<close>
  sections lie at the offsets their declarations give them.

  Shown: what \<open>vmx_init\<close> and \<open>vmcs_setup\<close> return on every machine, the state they leave, and
  every field the VMCS gets.
\<close>

section \<open>The two data sections\<close>

record vmx_image =
  vmx_bss :: u64
  vmcs_bss :: u64
  guest_entry_point :: u64
  vmexit_handler_addr :: u64

definition vmxon_region :: "vmx_image \<Rightarrow> u64" where "vmxon_region im = vmx_bss im"
definition vmxon_region_ptr :: "vmx_image \<Rightarrow> u64" where "vmxon_region_ptr im = vmx_bss im + 4096"
definition host_stack_ptr :: "vmx_image \<Rightarrow> u64" where "host_stack_ptr im = vmx_bss im + 4104"

definition vmcs_region :: "vmx_image \<Rightarrow> u64" where "vmcs_region im = vmcs_bss im"
definition vmcs_region_ptr :: "vmx_image \<Rightarrow> u64" where "vmcs_region_ptr im = vmcs_bss im + 4096"
definition vmcs_launch_state_value :: "vmx_image \<Rightarrow> u64" where "vmcs_launch_state_value im = vmcs_bss im + 4104"
definition host_stack_for_exit :: "vmx_image \<Rightarrow> u64" where "host_stack_for_exit im = vmcs_bss im + 4108"
definition guest_stack_top :: "vmx_image \<Rightarrow> u64" where "guest_stack_top im = vmcs_bss im + 4128 + 16384"

text \<open>\<^verbatim>\<open>align 4096\<close> at the head of both sections.\<close>

definition aligned_image :: "vmx_image \<Rightarrow> bool" where
  "aligned_image im \<longleftrightarrow> vmx_bss im AND 0xFFF = 0 \<and> vmcs_bss im AND 0xFFF = 0 \<and> vmx_bss im \<noteq> 0 \<and> vmcs_bss im \<noteq> 0"

lemmas bss_layout = vmxon_region_def vmxon_region_ptr_def host_stack_ptr_def vmcs_region_def
  vmcs_region_ptr_def vmcs_launch_state_value_def host_stack_for_exit_def guest_stack_top_def

section \<open>\<^verbatim>\<open>vmx_init.asm\<close>\<close>

definition enable_cr4_vmx :: "vmx_hw \<Rightarrow> vcpu \<Rightarrow> vcpu option" where
  "enable_cr4_vmx H s =
     (let s = push (rbx s) s;
          s = s\<lparr>rax := cr4 s\<rparr>
      in if rax s AND CR4_VMXE_bit \<noteq> 0 then Some (pop rbx_update (mov_eax 1 s))
         else do {
           let s = s\<lparr>rax := rax s OR CR4_VMXE_bit\<rparr>;
           s \<leftarrow> write_cr4 H (rax s) s;
           let s = s\<lparr>rbx := cr4 s\<rparr>;
           Some (pop rbx_update (if rbx s AND CR4_VMXE_bit \<noteq> 0 then mov_eax 1 s else mov_eax 0 s))
         })"

definition alloc_vmx_region :: "vmx_image \<Rightarrow> vcpu \<Rightarrow> vcpu" where
  "alloc_vmx_region im s = s\<lparr>rax := vmxon_region im\<rparr>"

definition init_vmx_region :: "vmx_hw \<Rightarrow> vmx_image \<Rightarrow> vcpu \<Rightarrow> vcpu option" where
  "init_vmx_region H im s = do {
     let s = push (rdx s) (push (rcx s) (push (rbx s) s));
     s \<leftarrow> rdmsr_instr H (s\<lparr>rcx := IA32_VMX_BASIC\<rparr>);
     let s = s\<lparr>rbx := take_bit 32 (rax s)\<rparr>;
     let s = s\<lparr>rdi := load_quad (mem s) (vmxon_region_ptr im)\<rparr>;
     let s = rep_stosd ((mov_eax 0 s)\<lparr>rcx := 1024\<rparr>);
     let s = s\<lparr>rdi := load_quad (mem s) (vmxon_region_ptr im)\<rparr>;
     let s = s\<lparr>mem := store_dword (rdi s) (ucast (rbx s)) (mem s)\<rparr>;
     let s = s\<lparr>mem := store_dword (rdi s) (load_dword (mem s) (rdi s) AND 0x7FFFFFFF) (mem s)\<rparr>;
     let s = mov_eax 1 s;
     Some (pop rbx_update (pop rcx_update (pop rdx_update s)))
   }"

definition do_vmxon :: "vmx_hw \<Rightarrow> vcpu \<Rightarrow> vcpu option" where
  "do_vmxon H s = do {
     let s = push (rdx s) (push (rbx s) s);
     s \<leftarrow> (if rdi s AND 0xFFF \<noteq> 0 then Some (mov_eax 0 s)
            else do {
              s \<leftarrow> vmxon_instr H (rdi s) s;
              Some (if zf s then mov_eax 0 s
                    else if load_dword (mem s) (rdi s) AND 0x80000000 = 0 then mov_eax 0 s
                    else mov_eax 1 s)
            });
     Some (pop rbx_update (pop rdx_update s))
   }"

definition do_vmxoff :: "vcpu \<Rightarrow> vcpu option" where
  "do_vmxoff s = do { s \<leftarrow> vmxoff_instr s; Some (mov_eax 1 s) }"

text \<open>The public wrappers \<^verbatim>\<open>vmxon\<close> and \<^verbatim>\<open>vmxoff\<close>: the result of \<open>enable_cr4_vmx\<close> is not tested.\<close>

definition vmxon :: "vmx_hw \<Rightarrow> vcpu \<Rightarrow> vcpu option" where
  "vmxon H s = do {
     let s = push (rbp s) s;
     let s = s\<lparr>rbp := rsp s\<rparr>;
     s \<leftarrow> enable_cr4_vmx H s;
     s \<leftarrow> do_vmxon H s;
     Some (pop rbp_update s)
   }"

definition vmxoff :: "vcpu \<Rightarrow> vcpu option" where
  "vmxoff s = do {
     let s = push (rbp s) s;
     let s = s\<lparr>rbp := rsp s\<rparr>;
     s \<leftarrow> do_vmxoff s;
     Some (pop rbp_update s)
   }"

text \<open>\<^verbatim>\<open>vmx_launch\<close> and \<^verbatim>\<open>vmx_resume\<close> differ in the instruction only; either comes back just
  when the entry failed.\<close>

definition vm_entry_routine :: "vmx_hw \<Rightarrow> vmx_image \<Rightarrow> vcpu \<Rightarrow> entry option" where
  "vm_entry_routine H im s = do {
     let s = push (rbp s) s;
     let s = s\<lparr>rbp := rsp s\<rparr>;
     let s = s\<lparr>mem := store_quad (host_stack_ptr im) (rsp s) (mem s)\<rparr>;
     e \<leftarrow> vmentry_instr H s;
     Some (case e of Entered s \<Rightarrow> Entered s | Fell s \<Rightarrow> Fell (pop rbp_update (mov_eax (- 1) s)))
   }"

definition vmx_launch :: "vmx_hw \<Rightarrow> vmx_image \<Rightarrow> vcpu \<Rightarrow> entry option" where
  "vmx_launch H im s = vm_entry_routine H im s"

definition vmx_resume :: "vmx_hw \<Rightarrow> vmx_image \<Rightarrow> vcpu \<Rightarrow> entry option" where
  "vmx_resume H im s = vm_entry_routine H im s"

text \<open>\<^verbatim>\<open>vmread rbx, rax\<close>: the field is taken from \<open>rax\<close>, the error code lands in \<open>rbx\<close>.\<close>

definition check_vmx_errors :: "vmx_hw \<Rightarrow> vcpu \<Rightarrow> vcpu option" where
  "check_vmx_errors H s = do {
     let s = push (rbx s) s;
     let s = s\<lparr>rbx := 0x4400\<rparr>;
     s \<leftarrow> vmread_instr H rbx_update (rax s) s;
     Some (pop rbx_update s)
   }"

definition vmx_invept :: "vmx_hw \<Rightarrow> vcpu \<Rightarrow> vcpu option" where
  "vmx_invept H s = do {
     let s = push (rbp s) s;
     let s = s\<lparr>rbp := rsp s\<rparr>;
     let s = push (rbx s) s;
     s \<leftarrow> rdmsr_instr H (s\<lparr>rcx := IA32_VMX_PROCBASED_CTLS\<rparr>);
     s \<leftarrow> invept_instr H (rdi s) (rsi s) s;
     Some (pop rbp_update (pop rbx_update s))
   }"

section \<open>\<^verbatim>\<open>vmcs_config.asm\<close>\<close>

definition VMCS_CTRL_16BIT :: u64 where "VMCS_CTRL_16BIT = 0x0000"
definition VMCS_CTRL_32BIT :: u64 where "VMCS_CTRL_32BIT = 0x4000"

definition PIN_BASED_EXT_INTR_EXIT :: u64 where "PIN_BASED_EXT_INTR_EXIT = 0x1"
definition PIN_BASED_NMI_EXIT :: u64 where "PIN_BASED_NMI_EXIT = 0x8"
definition PROC_BASED_CR3_LOAD :: u64 where "PROC_BASED_CR3_LOAD = 0x1"
definition PROC_BASED_CR3_STORE :: u64 where "PROC_BASED_CR3_STORE = 0x2"
definition PROC_BASED_HLT_EXIT :: u64 where "PROC_BASED_HLT_EXIT = 0x80"
definition PROC_BASED_SECONDARY_CTLS :: u64 where "PROC_BASED_SECONDARY_CTLS = 0x80000000"
definition ENTRY_CONTROLS_IA64_MODE :: u64 where "ENTRY_CONTROLS_IA64_MODE = 0x200"
definition EXIT_CONTROLS_HOST_ADDR64 :: u64 where "EXIT_CONTROLS_HOST_ADDR64 = 0x200"

definition VMCS_GUEST_ES_SELECTOR :: u64 where "VMCS_GUEST_ES_SELECTOR = 0x0800"
definition VMCS_GUEST_CS_SELECTOR :: u64 where "VMCS_GUEST_CS_SELECTOR = 0x0802"
definition VMCS_GUEST_SS_SELECTOR :: u64 where "VMCS_GUEST_SS_SELECTOR = 0x0804"
definition VMCS_GUEST_DS_SELECTOR :: u64 where "VMCS_GUEST_DS_SELECTOR = 0x0806"
definition VMCS_GUEST_FS_SELECTOR :: u64 where "VMCS_GUEST_FS_SELECTOR = 0x0808"
definition VMCS_GUEST_GS_SELECTOR :: u64 where "VMCS_GUEST_GS_SELECTOR = 0x080A"
definition VMCS_GUEST_ES_LIMIT :: u64 where "VMCS_GUEST_ES_LIMIT = 0x4800"
definition VMCS_GUEST_CS_LIMIT :: u64 where "VMCS_GUEST_CS_LIMIT = 0x4802"
definition VMCS_GUEST_SS_LIMIT :: u64 where "VMCS_GUEST_SS_LIMIT = 0x4804"
definition VMCS_GUEST_DS_LIMIT :: u64 where "VMCS_GUEST_DS_LIMIT = 0x4806"
definition VMCS_GUEST_CR0 :: u64 where "VMCS_GUEST_CR0 = 0x6800"
definition VMCS_GUEST_CR3 :: u64 where "VMCS_GUEST_CR3 = 0x6802"
definition VMCS_GUEST_CR4 :: u64 where "VMCS_GUEST_CR4 = 0x6804"
definition VMCS_GUEST_RSP :: u64 where "VMCS_GUEST_RSP = 0x681C"
definition VMCS_GUEST_RIP :: u64 where "VMCS_GUEST_RIP = 0x681E"
definition VMCS_GUEST_RFLAGS :: u64 where "VMCS_GUEST_RFLAGS = 0x6820"
definition VMCS_LINK_POINTER :: u64 where "VMCS_LINK_POINTER = 0x2800"
definition VMCS_LINK_PTR_INVALID :: u64 where "VMCS_LINK_PTR_INVALID = 0xFFFFFFFFFFFFFFFF"
definition VMCS_HOST_ES_SELECTOR :: u64 where "VMCS_HOST_ES_SELECTOR = 0x0C00"
definition VMCS_HOST_CS_SELECTOR :: u64 where "VMCS_HOST_CS_SELECTOR = 0x0C02"
definition VMCS_HOST_SS_SELECTOR :: u64 where "VMCS_HOST_SS_SELECTOR = 0x0C04"
definition VMCS_HOST_DS_SELECTOR :: u64 where "VMCS_HOST_DS_SELECTOR = 0x0C06"
definition VMCS_HOST_FS_SELECTOR :: u64 where "VMCS_HOST_FS_SELECTOR = 0x0C08"
definition VMCS_HOST_GS_SELECTOR :: u64 where "VMCS_HOST_GS_SELECTOR = 0x0C0A"
definition VMCS_HOST_CR0 :: u64 where "VMCS_HOST_CR0 = 0x6C00"
definition VMCS_HOST_CR3 :: u64 where "VMCS_HOST_CR3 = 0x6C02"
definition VMCS_HOST_CR4 :: u64 where "VMCS_HOST_CR4 = 0x6C04"
definition VMCS_HOST_RSP :: u64 where "VMCS_HOST_RSP = 0x6C1C"
definition VMCS_HOST_RIP :: u64 where "VMCS_HOST_RIP = 0x6C1E"

definition alloc_vmcs_region :: "vmx_image \<Rightarrow> vcpu \<Rightarrow> vcpu" where
  "alloc_vmcs_region im s = s\<lparr>rax := vmcs_region im\<rparr>"

text \<open>\<open>do_vmclear\<close> and \<open>do_vmptrld\<close> differ in the instruction only.\<close>

definition do_vmclear :: "vmx_hw \<Rightarrow> vcpu \<Rightarrow> vcpu option" where
  "do_vmclear H s = do {
     let s = push (rbx s) s;
     s \<leftarrow> (if rdi s AND 0xFFF \<noteq> 0 then Some (mov_eax 0 s)
            else do { s \<leftarrow> vmclear_instr H (rdi s) s; Some (if zf s then mov_eax 0 s else mov_eax 1 s) });
     Some (pop rbx_update s)
   }"

definition do_vmptrld :: "vmx_hw \<Rightarrow> vcpu \<Rightarrow> vcpu option" where
  "do_vmptrld H s = do {
     let s = push (rbx s) s;
     s \<leftarrow> (if rdi s AND 0xFFF \<noteq> 0 then Some (mov_eax 0 s)
            else do { s \<leftarrow> vmptrld_instr H (rdi s) s; Some (if zf s then mov_eax 0 s else mov_eax 1 s) });
     Some (pop rbx_update s)
   }"

text \<open>\<^verbatim>\<open>mov rbx, v\<close>, \<^verbatim>\<open>mov rcx, f\<close>, \<^verbatim>\<open>vmwrite rcx, rbx\<close>; the flags are not looked at.\<close>

definition write_field :: "vmx_hw \<Rightarrow> u64 \<times> u64 \<Rightarrow> vcpu \<Rightarrow> vcpu option" where
  "write_field H fv s = (let s = s\<lparr>rbx := snd fv, rcx := fst fv\<rparr> in vmwrite_instr H (rcx s) (rbx s) s)"

fun write_fields :: "vmx_hw \<Rightarrow> (u64 \<times> u64) list \<Rightarrow> vcpu \<Rightarrow> vcpu option" where
  "write_fields H [] s = Some s"
| "write_fields H (fv # fvs) s = do { s \<leftarrow> write_field H fv s; write_fields H fvs s }"

text \<open>A control field: the MSR's low half, with the wanted bits set.\<close>

definition write_control :: "vmx_hw \<Rightarrow> u64 \<Rightarrow> u64 \<Rightarrow> u64 \<Rightarrow> vcpu \<Rightarrow> vcpu option" where
  "write_control H m wanted f s = do {
     s \<leftarrow> rdmsr_instr H (s\<lparr>rcx := m\<rparr>);
     write_field H (f, rax s OR wanted) s
   }"

text \<open>The pin-based controls are masked with \<^verbatim>\<open>edx\<close>, which holds the field encoding.\<close>

definition write_pin_control :: "vmx_hw \<Rightarrow> vcpu \<Rightarrow> vcpu option" where
  "write_pin_control H s = do {
     s \<leftarrow> rdmsr_instr H (s\<lparr>rcx := IA32_VMX_PINBASED_CTLS\<rparr>);
     let s = s\<lparr>rdx := VMCS_CTRL_16BIT OR 0\<rparr>;
     let s = s\<lparr>rbx := take_bit 32 (rax s)\<rparr>;
     let s = s\<lparr>rbx := rbx s OR (PIN_BASED_EXT_INTR_EXIT OR PIN_BASED_NMI_EXIT)\<rparr>;
     let s = s\<lparr>rbx := rbx s AND rdx s\<rparr>;
     write_field H (VMCS_CTRL_16BIT OR 0, rbx s) s
   }"

definition configure_vmcs_control :: "vmx_hw \<Rightarrow> vcpu \<Rightarrow> vcpu option" where
  "configure_vmcs_control H s = do {
     let s = push (rdx s) (push (rcx s) (push (rbx s) s));
     s \<leftarrow> write_pin_control H s;
     let wanted = PROC_BASED_HLT_EXIT OR PROC_BASED_CR3_LOAD OR PROC_BASED_CR3_STORE OR PROC_BASED_SECONDARY_CTLS;
     s \<leftarrow> write_control H IA32_VMX_PROCBASED_CTLS wanted (VMCS_CTRL_32BIT OR 0x4002) (s\<lparr>r8 := wanted\<rparr>);
     s \<leftarrow> write_control H IA32_VMX_EXIT_CTLS EXIT_CONTROLS_HOST_ADDR64 (VMCS_CTRL_32BIT OR 0x400C) s;
     s \<leftarrow> write_control H IA32_VMX_ENTRY_CTLS ENTRY_CONTROLS_IA64_MODE (VMCS_CTRL_32BIT OR 0x4012) s;
     let s = mov_eax 1 s;
     Some (pop rbx_update (pop rcx_update (pop rdx_update s)))
   }"

definition guest_fields :: "vmx_image \<Rightarrow> (u64 \<times> u64) list" where
  "guest_fields im =
     [(VMCS_GUEST_CS_SELECTOR, 0x08), (VMCS_GUEST_DS_SELECTOR, 0x10), (VMCS_GUEST_ES_SELECTOR, 0x10),
      (VMCS_GUEST_SS_SELECTOR, 0x10), (VMCS_GUEST_FS_SELECTOR, 0x10), (VMCS_GUEST_GS_SELECTOR, 0x10),
      (VMCS_GUEST_CS_LIMIT, 0xFFFFFFFF), (VMCS_GUEST_DS_LIMIT, 0xFFFFFFFF), (VMCS_GUEST_ES_LIMIT, 0xFFFFFFFF),
      (VMCS_GUEST_SS_LIMIT, 0xFFFFFFFF),
      (VMCS_GUEST_CR0, CR0_PE), (VMCS_GUEST_CR3, 0), (VMCS_GUEST_CR4, push_bit 5 1),
      (VMCS_GUEST_RIP, guest_entry_point im), (VMCS_GUEST_RSP, guest_stack_top im), (VMCS_GUEST_RFLAGS, 0x2),
      (VMCS_LINK_POINTER, VMCS_LINK_PTR_INVALID)]"

definition configure_vmcs_guest :: "vmx_hw \<Rightarrow> vmx_image \<Rightarrow> vcpu \<Rightarrow> vcpu option" where
  "configure_vmcs_guest H im s = do {
     let s = push (rcx s) (push (rbx s) s);
     s \<leftarrow> write_fields H (guest_fields im) s;
     let s = mov_eax 1 s;
     Some (pop rbx_update (pop rcx_update s))
   }"

definition host_fields :: "vmx_image \<Rightarrow> vcpu \<Rightarrow> (u64 \<times> u64) list" where
  "host_fields im s =
     [(VMCS_HOST_CS_SELECTOR, 0x08), (VMCS_HOST_DS_SELECTOR, 0x10), (VMCS_HOST_ES_SELECTOR, 0x10),
      (VMCS_HOST_SS_SELECTOR, 0x10), (VMCS_HOST_FS_SELECTOR, 0), (VMCS_HOST_GS_SELECTOR, 0),
      (VMCS_HOST_CR0, cr0 s), (VMCS_HOST_CR3, cr3 s), (VMCS_HOST_CR4, cr4 s),
      (VMCS_HOST_RIP, vmexit_handler_addr im), (VMCS_HOST_RSP, host_stack_for_exit im)]"

definition configure_vmcs_host :: "vmx_hw \<Rightarrow> vmx_image \<Rightarrow> vcpu \<Rightarrow> vcpu option" where
  "configure_vmcs_host H im s = do {
     let s = push (rcx s) (push (rbx s) s);
     s \<leftarrow> write_fields H (host_fields im s) s;
     let s = mov_eax 1 s;
     Some (pop rbx_update (pop rcx_update s))
   }"

definition configure_vmcs :: "vmx_hw \<Rightarrow> vmx_image \<Rightarrow> vcpu \<Rightarrow> vcpu option" where
  "configure_vmcs H im s = do {
     s \<leftarrow> configure_vmcs_control H s;
     if eax_zero s then Some (mov_eax (- 4) s) else do {
     s \<leftarrow> configure_vmcs_guest H im s;
     if eax_zero s then Some (mov_eax (- 4) s) else do {
     s \<leftarrow> configure_vmcs_host H im s;
     Some (if eax_zero s then mov_eax (- 4) s else mov_eax 0 s)
     }}}"

definition vmcs_setup :: "vmx_hw \<Rightarrow> vmx_image \<Rightarrow> vcpu \<Rightarrow> vcpu option" where
  "vmcs_setup H im s = do {
     let s = push (rbp s) s;
     let s = s\<lparr>rbp := rsp s\<rparr>;
     let s = push (rsi s) (push (rdi s) (push (rdx s) (push (rcx s) (push (rbx s) s))));
     let s = alloc_vmcs_region im s;
     s \<leftarrow> (if rax s = 0 then Some (mov_eax (- 1) s) else do {
       let s = s\<lparr>mem := store_quad (vmcs_region_ptr im) (rax s) (mem s)\<rparr>;
       s \<leftarrow> do_vmclear H (s\<lparr>rdi := rax s\<rparr>);
       if eax_zero s then Some (mov_eax (- 2) s) else do {
       s \<leftarrow> do_vmptrld H (s\<lparr>rdi := load_quad (mem s) (vmcs_region_ptr im)\<rparr>);
       if eax_zero s then Some (mov_eax (- 3) s) else configure_vmcs H im s
       }});
     Some (pop rbp_update (pop rbx_update (pop rcx_update (pop rdx_update (pop rdi_update (pop rsi_update s))))))
   }"

definition vmcs_write :: "vmx_hw \<Rightarrow> vcpu \<Rightarrow> vcpu option" where
  "vmcs_write H s = do {
     s \<leftarrow> vmwrite_instr H (rdi s) (rsi s) s;
     Some (if zf s then mov_eax 0 s else mov_eax 1 s)
   }"

text \<open>\<^verbatim>\<open>vmread rdi, rax\<close>: the field is taken from \<open>rax\<close> and its value put into \<open>rdi\<close>.\<close>

definition vmcs_read :: "vmx_hw \<Rightarrow> vcpu \<Rightarrow> vcpu option" where
  "vmcs_read H s = vmread_instr H rdi_update (rax s) s"

definition vmcs_clear :: "vmx_hw \<Rightarrow> vcpu \<Rightarrow> vcpu option" where
  "vmcs_clear H s = do {
     let s = push (rbp s) s;
     s \<leftarrow> do_vmclear H (s\<lparr>rbp := rsp s\<rparr>);
     Some (pop rbp_update s)
   }"

definition vmcs_load :: "vmx_hw \<Rightarrow> vcpu \<Rightarrow> vcpu option" where
  "vmcs_load H s = do {
     let s = push (rbp s) s;
     s \<leftarrow> do_vmptrld H (s\<lparr>rbp := rsp s\<rparr>);
     Some (pop rbp_update s)
   }"

definition vmcs_launch_state :: "vmx_image \<Rightarrow> vcpu \<Rightarrow> vcpu" where
  "vmcs_launch_state im s = mov_eax (load_dword (mem s) (vmcs_launch_state_value im)) s"

section \<open>\<open>vmx_init\<close>\<close>

text \<open>The last step: \<open>vmcs_setup\<close> returns 0 for success, and 0 is taken for failure.\<close>

definition vmx_init_vmcs :: "vmx_hw \<Rightarrow> vmx_image \<Rightarrow> vcpu \<Rightarrow> vcpu option" where
  "vmx_init_vmcs H im s = do {
     s \<leftarrow> vmcs_setup H im s;
     if eax_zero s then do { s \<leftarrow> do_vmxoff s; Some (mov_eax (- 4) s) }
     else Some (mov_eax 0 s)
   }"

definition vmx_init_region :: "vmx_hw \<Rightarrow> vmx_image \<Rightarrow> vcpu \<Rightarrow> vcpu option" where
  "vmx_init_region H im s = do {
     let s = alloc_vmx_region im s;
     if rax s = 0 then Some (mov_eax (- 2) s) else do {
     let s = s\<lparr>mem := store_quad (vmxon_region_ptr im) (rax s) (mem s)\<rparr>;
     s \<leftarrow> init_vmx_region H im s;
     if eax_zero s then Some (mov_eax (- 1) s) else do {
     s \<leftarrow> do_vmxon H (s\<lparr>rdi := load_quad (mem s) (vmxon_region_ptr im)\<rparr>);
     if eax_zero s then Some (mov_eax (- 3) s) else vmx_init_vmcs H im s
     }}}"

definition vmx_init :: "vmx_hw \<Rightarrow> vmx_image \<Rightarrow> vcpu \<Rightarrow> vcpu option" where
  "vmx_init H im s = do {
     let s = push (rbp s) s;
     let s = s\<lparr>rbp := rsp s\<rparr>;
     let s = push (rdi s) (push (rdx s) (push (rcx s) (push (rbx s) s)));
     s \<leftarrow> enable_cr4_vmx H s;
     s \<leftarrow> (if eax_zero s then Some (mov_eax (- 1) s) else vmx_init_region H im s);
     Some (pop rbp_update (pop rbx_update (pop rcx_update (pop rdx_update (pop rdi_update s)))))
   }"

section \<open>The VMXON region\<close>

lemma write_bytes_over:
  "length xs \<le> length ys \<Longrightarrow> write_bytes a xs (write_bytes a ys m) = write_bytes a (xs @ drop (length xs) ys) m"
  by (rule ext) (simp add: write_bytes_def nth_append)

lemma concat_replicate_same: "concat (replicate n (replicate k b)) = replicate (n * k) b"
  by (induction n) (simp_all add: replicate_add)

lemma le_bytes_zero: "le_bytes n (0 :: 'a::len word) = replicate n 0"
  by (simp add: le_bytes_def map_replicate_const)

lemma le_word_pad_zero: "le_word (le_bytes 4 (w :: u32) @ replicate n 0) = (ucast w :: u64)"
  by (rule bit_word_eqI) (auto simp: bit_le_word nth_append le_bytes_def bit_simps dest: bit_imp_le_length)

definition region_bytes :: "u32 \<Rightarrow> u8 list" where
  "region_bytes w = le_bytes 4 w @ replicate 4092 0"

lemma length_region_bytes [simp]: "length (region_bytes w) = 4096"
  by (simp add: region_bytes_def)

lemma load32_region [simp]: "load_dword (write_bytes a (region_bytes w) m) a = w"
proof -
  have "read_bytes (write_bytes a (region_bytes w) m) a 4096 = region_bytes w" by (simp add: mem_simps)
  moreover have "read_bytes m' a 4 = take 4 (read_bytes m' a 4096)" for m'
    by (rule nth_equalityI) simp_all
  ultimately have "read_bytes (write_bytes a (region_bytes w) m) a 4 = le_bytes 4 w"
    by (simp add: region_bytes_def)
  then show ?thesis by (simp add: load_dword_def enc_simps)
qed

lemma load64_region [simp]: "load_quad (write_bytes a (region_bytes w) m) a = ucast w"
proof -
  have "read_bytes (write_bytes a (region_bytes w) m) a 4096 = region_bytes w" by (simp add: mem_simps)
  moreover have "read_bytes m' a 8 = take 8 (read_bytes m' a 4096)" for m'
    by (rule nth_equalityI) simp_all
  ultimately have "read_bytes (write_bytes a (region_bytes w) m) a 8 = le_bytes 4 w @ replicate 4 0"
    by (simp add: region_bytes_def)
  then show ?thesis by (simp add: load_quad_def le_word_pad_zero)
qed

lemma load64_behind_region [simp]:
  "length bs = 4096 \<Longrightarrow> load_quad (write_bytes a bs m) (a + 4096) = load_quad m (a + 4096)"
  unfolding load_quad_def by (subst read_write_other) (auto intro!: separateI)

lemma store32_region [simp]:
  "store_dword a w (write_bytes a (region_bytes w') m) = write_bytes a (region_bytes w) m"
  by (simp add: store_dword_def write_bytes_over region_bytes_def)

lemma zeroed_region: "write_bytes a (concat (replicate 1024 (le_bytes 4 (0 :: u32)))) m = write_bytes a (region_bytes 0) m"
  by (simp add: le_bytes_zero concat_replicate_same region_bytes_def flip: replicate_add)

lemma mem_rep_stosd: 
  "rcx s = 1024 \<Longrightarrow> rax s = 0 \<Longrightarrow> mem (rep_stosd s) = write_bytes (rdi s) (region_bytes 0) (mem s)"
  unfolding rep_stosd_def by (subst mem_rep_stosd_n) (simp_all only: unat_numeral zeroed_region, simp_all add: zeroed_region)

section \<open>What the routines do\<close>

lemma enable_cr4_vmx_eq:
  "enable_cr4_vmx H s =
     (if cr4 s AND CR4_VMXE_bit \<noteq> 0 then Some (s\<lparr>rax := 1\<rparr>)
      else case cr4_after H (cr4 s OR CR4_VMXE_bit) of None \<Rightarrow> None
           | Some v \<Rightarrow> Some (s\<lparr>cr4 := v, rax := if v AND CR4_VMXE_bit \<noteq> 0 then 1 else 0\<rparr>))"
  by (cases s) (simp add: enable_cr4_vmx_def stack_defs mov_eax_def write_cr4_def Let_def split: option.split)

lemma do_vmxon_eq:
  "do_vmxon H s =
     (if rdi s AND 0xFFF \<noteq> 0 then Some (s\<lparr>rax := 0\<rparr>)
      else case vmxon_instr H (rdi s) s of None \<Rightarrow> None
           | Some s' \<Rightarrow> Some (s'\<lparr>rax := if zf s' \<or> load_dword (mem s) (rdi s) AND 0x80000000 = 0 then 0 else 1\<rparr>))"
  by (cases s) (simp add: do_vmxon_def vmxon_instr_def vm_flags stack_defs mov_eax_def Let_def)


lemma rep_stosd_n_eq:
  "rep_stosd_n n s = s\<lparr>mem := mem (rep_stosd_n n s), rdi := rdi s + 4 * of_nat n, rcx := rcx s - of_nat n\<rparr>"
proof (induction n arbitrary: s)
  case (Suc n)
  show ?case by (subst (1) rep_stosd_n.simps, subst (1) Suc) (simp add: algebra_simps)
qed simp

lemma rep_stosd_page:
  "rcx s = 1024 \<Longrightarrow> rax s = 0 \<Longrightarrow>
     rep_stosd s = s\<lparr>mem := write_bytes (rdi s) (region_bytes 0) (mem s), rdi := rdi s + 4096, rcx := 0\<rparr>"
  using rep_stosd_n_eq [of "unat (rcx s)" s] mem_rep_stosd [of s]
  by (simp add: rep_stosd_def)

text \<open>The revision identifier, bit 31 cleared.\<close>

definition region_id :: "u64 \<Rightarrow> u32" where
  "region_id v = ucast v AND 0x7FFFFFFF"

lemma region_id_take [simp]: "region_id (take_bit 32 v) = region_id v"
  by (rule bit_word_eqI) (auto simp: region_id_def bit_simps)

lemma region_id_low: "region_id v AND 0x80000000 = 0"
proof -
  have "(0x7FFFFFFF :: u32) AND 0x80000000 = 0" by simp
  then show ?thesis by (simp add: region_id_def and.assoc)
qed

lemma init_vmx_region_eq:
  assumes "load_quad (mem s) (vmxon_region_ptr im) = vmxon_region im"
  shows "init_vmx_region H im s =
     (case rdmsr_of H 0x480 of None \<Rightarrow> None
      | Some v \<Rightarrow> Some (s\<lparr>rax := 1, rdi := vmxon_region im,
                         mem := write_bytes (vmxon_region im) (region_bytes (region_id v)) (mem s)\<rparr>))"
proof -
  have r: "ucast v AND 0x7FFFFFFF = region_id v" for v :: u64 by (simp add: region_id_def)
  have p: "load_quad (write_bytes (vmxon_region im) (region_bytes w) (mem s)) (vmxon_region_ptr im) = vmxon_region im" for w
    using assms by (simp add: bss_layout)
  show ?thesis
    using assms p
    by (simp add: init_vmx_region_def rdmsr_instr_def IA32_VMX_BASIC_def mov_eax_def rep_stosd_page r stack_defs Let_def
        split: option.split)
qed


section \<open>\<open>vmx_init\<close>\<close>

text \<open>The steps after \<open>enable_cr4_vmx\<close>: \<open>VMXON\<close> is executed with the revision identifier as the
  address of its region, and the result is failure whatever it does.\<close>

lemma vmx_init_region_eq:
  "vmx_init_region H im s =
     (let m = store_quad (vmxon_region_ptr im) (vmxon_region im) (mem s);
          img = \<lambda>v. s\<lparr>rax := 1, mem := write_bytes (vmxon_region im) (region_bytes (region_id v)) m, rdi := vmxon_region im\<rparr>
      in if vmxon_region im = 0 then Some (s\<lparr>rax := ucast (- 2 :: u32)\<rparr>)
         else case rdmsr_of H 0x480 of None \<Rightarrow> None
              | Some v \<Rightarrow>
                  if vmxon_region im AND 0xFFF \<noteq> 0 then Some ((img v)\<lparr>rax := ucast (- 3 :: u32)\<rparr>)
                  else case vmxon_instr H (vmxon_region im) (img v) of None \<Rightarrow> None
                       | Some s' \<Rightarrow> Some (s'\<lparr>rax := ucast (- 3 :: u32)\<rparr>))"
proof (cases "vmxon_region im = 0")
  case True
  then show ?thesis by (simp add: vmx_init_region_def alloc_vmx_region_def mov_eax_def Let_def)
next
  case False
  let ?m = "store_quad (vmxon_region_ptr im) (vmxon_region im) (mem s)"
  have p: "load_quad ?m (vmxon_region_ptr im) = vmxon_region im"
    "load_quad (write_bytes (vmxon_region im) (region_bytes w) ?m) (vmxon_region_ptr im) = vmxon_region im" for w
    by (simp_all add: vmxon_region_def vmxon_region_ptr_def)
  have "vmx_init_region H im s =
     (case rdmsr_of H 0x480 of None \<Rightarrow> None
      | Some v \<Rightarrow>
          (let t = s\<lparr>rax := 1, mem := write_bytes (vmxon_region im) (region_bytes (region_id v)) ?m, rdi := vmxon_region im\<rparr>
           in do { s \<leftarrow> do_vmxon H t; if eax_zero s then Some (mov_eax (- 3) s) else vmx_init_vmcs H im s }))"
    using False p
    by (simp add: vmx_init_region_def alloc_vmx_region_def init_vmx_region_eq eax_zero_def Let_def split: option.split)
  then show ?thesis
    using False
    by (simp add: do_vmxon_eq eax_zero_def mov_eax_def region_id_low Let_def split: option.split)
qed


text \<open>What the caller of a routine may rely on: the registers and the stack are as before.\<close>

definition same_frame :: "vcpu \<Rightarrow> vcpu \<Rightarrow> bool" where
  "same_frame s t \<longleftrightarrow> rbx t = rbx s \<and> rcx t = rcx s \<and> rdx t = rdx s \<and> rsi t = rsi s \<and> rdi t = rdi s \<and> rbp t = rbp s
     \<and> rsp t = rsp s \<and> stk t = stk s \<and> r12 t = r12 s \<and> r13 t = r13 s \<and> r14 t = r14 s \<and> r15 t = r15 s"

lemma vmxon_instr_cases:
  assumes "vmxon_instr H a s = Some s'"
  obtains z c on v where "s' = s\<lparr>zf := z, cf := c, vmx_on := on, cur_vmcs := v\<rparr>"
    "on = (vmx_on s \<or> vmxon_accepts H (load_quad (mem s) a))"
proof (cases "vmx_on s")
  case True
  then show ?thesis using assms that [of "cur_vmcs s" "vmx_on s" "cf s'" "zf s'"]
    by (auto simp: vmxon_instr_def vm_flags split: if_splits)
next
  case False
  then show ?thesis using assms that [of "cur_vmcs s'" "vmx_on s'" "cf s'" "zf s'"]
    by (auto simp: vmxon_instr_def vm_flags split: if_splits)
qed

lemma enable_cr4_vmx_cases:
  assumes "enable_cr4_vmx H s = Some t"
  obtains v x where "t = s\<lparr>cr4 := v, rax := x\<rparr>"
proof (cases "cr4 s AND CR4_VMXE_bit = 0")
  case False
  then show ?thesis using assms that [of 1 "cr4 s"] by (simp add: enable_cr4_vmx_eq)
next
  case True
  then obtain v where "t = s\<lparr>cr4 := v, rax := if v AND CR4_VMXE_bit \<noteq> 0 then 1 else 0\<rparr>"
    using assms by (auto simp: enable_cr4_vmx_eq split: option.splits)
  then show ?thesis by (rule that)
qed

text \<open>The result of the last two steps.\<close>

lemma vmx_init_region_result:
  assumes "vmx_init_region H im s = Some t"
  shows "rax t \<in> {ucast (- 2 :: u32), ucast (- 3 :: u32)}"
    "rbx t = rbx s" "rcx t = rcx s" "rdx t = rdx s" "rsi t = rsi s" "rbp t = rbp s" "rsp t = rsp s" "stk t = stk s"
    "r12 t = r12 s" "r13 t = r13 s" "r14 t = r14 s" "r15 t = r15 s" "vmcs_of t = vmcs_of s" "cr4 t = cr4 s"
  using assms
  by (auto simp: vmx_init_region_eq Let_def split: if_splits option.splits elim!: vmxon_instr_cases)

lemma vmx_init_result:
  assumes "vmx_init H im s = Some t"
  shows "rax t \<in> {ucast (- 1 :: u32), ucast (- 2 :: u32), ucast (- 3 :: u32)} \<and> vmcs_of t = vmcs_of s \<and> same_frame s t"
proof -
  let ?s = "push (rdi s) (push (rdx s) (push (rcx s) (push (rbx s) ((push (rbp s) s)\<lparr>rbp := rsp s - 8\<rparr>))))"
  from assms obtain u w where u: "enable_cr4_vmx H ?s = Some u"
    and w: "(if eax_zero u then Some (mov_eax (- 1) u) else vmx_init_region H im u) = Some w"
    and t: "t = pop rbp_update (pop rbx_update (pop rcx_update (pop rdx_update (pop rdi_update w))))"
    by (auto simp: vmx_init_def Let_def bind_eq_Some_conv)
  from u obtain v x where u': "u = ?s\<lparr>cr4 := v, rax := x\<rparr>"
    by (rule enable_cr4_vmx_cases)
  show ?thesis
  proof (cases "eax_zero u")
    case True
    then have "w = mov_eax (- 1) u" using w by simp
    then show ?thesis by (simp add: t u' same_frame_def pop_def push_def)
  next
    case False
    then have "vmx_init_region H im u = Some w" using w by simp
    from vmx_init_region_result [OF this] show ?thesis
      by (simp add: t u' same_frame_def pop_def push_def)
  qed
qed


text \<open>A machine on which nothing stands in the way of VMX operation.\<close>

definition vmx_ready :: "vmx_hw \<Rightarrow> vcpu \<Rightarrow> bool" where
  "vmx_ready H s \<longleftrightarrow> vmxon_allowed H \<and> \<not> vmx_on s \<and>
     (cr4 s AND CR4_VMXE_bit \<noteq> 0 \<or>
      (case cr4_after H (cr4 s OR CR4_VMXE_bit) of None \<Rightarrow> False | Some v \<Rightarrow> v AND CR4_VMXE_bit \<noteq> 0))"

lemma enable_cr4_vmx_ready:
  assumes "vmx_ready H s"
  obtains v where "enable_cr4_vmx H s = Some (s\<lparr>cr4 := v, rax := 1\<rparr>)" "v AND CR4_VMXE_bit \<noteq> 0"
proof (cases "cr4 s AND CR4_VMXE_bit = 0")
  case False
  then show ?thesis using that [of "cr4 s"] by (simp add: enable_cr4_vmx_eq)
next
  case True
  then show ?thesis using assms that by (auto simp: vmx_ready_def enable_cr4_vmx_eq split: option.splits)
qed

lemma vmx_init_ready:
  assumes "vmx_ready H s" "aligned_image im" "rdmsr_of H 0x480 = Some v"
  shows "\<exists>t. vmx_init H im s = Some t \<and> rax t = ucast (- 3 :: u32) \<and> cr4 t AND CR4_VMXE_bit \<noteq> 0
    \<and> vmx_on t = vmxon_accepts H (ucast (region_id v))
    \<and> read_bytes (mem t) (vmxon_region im) 4096 = region_bytes (region_id v)"
proof -
  let ?s = "push (rdi s) (push (rdx s) (push (rcx s) (push (rbx s) ((push (rbp s) s)\<lparr>rbp := rsp s - 8\<rparr>))))"
  have "vmx_ready H ?s" using assms(1) by (simp add: vmx_ready_def)
  then obtain c where c: "enable_cr4_vmx H ?s = Some (?s\<lparr>cr4 := c, rax := 1\<rparr>)" "c AND CR4_VMXE_bit \<noteq> 0"
    by (rule enable_cr4_vmx_ready)
  have i: "vmxon_region im \<noteq> 0" "vmxon_region im AND 0xFFF = 0"
    using assms(2) by (simp_all add: aligned_image_def vmxon_region_def)
  have n: "vmxon_allowed H" "\<not> vmx_on s" using assms(1) by (simp_all add: vmx_ready_def)
  show ?thesis
    using c i n assms(3)
    by (simp add: vmx_init_def vmx_init_region_eq vmxon_instr_def vm_flags eax_zero_def pop_def mem_simps Let_def)
qed

section \<open>\<open>vmcs_setup\<close>\<close>

text \<open>What a list of \<^verbatim>\<open>vmwrite\<close>s leaves: the supported fields of the current VMCS are set.\<close>

fun set_fields :: "(u64 \<times> u64) list \<Rightarrow> (u64 \<Rightarrow> u64) \<Rightarrow> u64 \<Rightarrow> u64" where
  "set_fields [] m = m"
| "set_fields ((f, v) # fvs) m = set_fields fvs (m(f := v))"

definition vmcs_put :: "vmx_hw \<Rightarrow> u64 option \<Rightarrow> (u64 \<times> u64) list \<Rightarrow> (u64 \<Rightarrow> u64 \<Rightarrow> u64) \<Rightarrow> u64 \<Rightarrow> u64 \<Rightarrow> u64" where
  "vmcs_put H cur fvs V =
     (case cur of None \<Rightarrow> V
      | Some p \<Rightarrow> V(p := set_fields (filter (\<lambda>fv. field_writable H (fst fv)) fvs) (V p)))"

lemma set_fields_append [simp]: "set_fields (fvs @ gvs) m = set_fields gvs (set_fields fvs m)"
  by (induction fvs arbitrary: m) auto

lemma set_fields_eq: "set_fields fvs m f = (case map_of (rev fvs) f of None \<Rightarrow> m f | Some v \<Rightarrow> v)"
proof (induction fvs arbitrary: m)
  case (Cons fv fvs)
  then show ?case by (cases fv) (auto simp: map_add_def split: option.split)
qed simp

lemma map_of_rev: "distinct (map fst fvs) \<Longrightarrow> map_of (rev fvs) = map_of fvs"
  by (subst map_of_inject_set) (simp_all add: distinct_rev flip: rev_map)

lemma vmcs_put_Nil [simp]: "vmcs_put H cur [] V = V"
  by (simp add: vmcs_put_def split: option.split)

lemma vmcs_put_append: "vmcs_put H cur gvs (vmcs_put H cur fvs V) = vmcs_put H cur (fvs @ gvs) V"
  by (simp add: vmcs_put_def split: option.split)

lemma vmcs_put_None [simp]: "vmcs_put H None fvs V = V"
  by (simp add: vmcs_put_def)

text \<open>The state after a group of writes, up to the registers the routine restores and the flags.\<close>

lemma write_field_eq:
  assumes "vmx_on s"
  obtains x y where "write_field H fv s =
    Some (s\<lparr>rbx := snd fv, rcx := fst fv, vmcs_of := vmcs_put H (cur_vmcs s) [fv] (vmcs_of s), cf := x, zf := y\<rparr>)"
proof (cases "cur_vmcs s")
  case None
  then show ?thesis using assms that by (simp add: write_field_def vmwrite_instr_def vm_flags Let_def)
next
  case (Some p)
  show ?thesis
  proof (cases "field_writable H (fst fv)")
    case True
    then show ?thesis using assms Some that [of False False]
      by (cases fv) (simp add: write_field_def vmwrite_instr_def vm_flags vmcs_put_def Let_def)
  next
    case False
    then show ?thesis using assms Some that [of True False]
      by (cases fv) (simp add: write_field_def vmwrite_instr_def vm_flags vmcs_put_def Let_def)
  qed
qed

lemma write_field_ex:
  "vmx_on s \<Longrightarrow> \<exists>x y. write_field H fv s =
    Some (s\<lparr>rbx := snd fv, rcx := fst fv, vmcs_of := vmcs_put H (cur_vmcs s) [fv] (vmcs_of s), cf := x, zf := y\<rparr>)"
  by (erule write_field_eq [of s H fv]) blast

lemma write_fields_eq:
  assumes "vmx_on s"
  obtains b c x y where "write_fields H fvs s =
    Some (s\<lparr>rbx := b, rcx := c, vmcs_of := vmcs_put H (cur_vmcs s) fvs (vmcs_of s), cf := x, zf := y\<rparr>)"
  using assms
proof (induction fvs arbitrary: s thesis)
  case Nil
  then show ?case using Nil.prems(1) [of "zf s" "cf s" "rcx s" "rbx s"] by simp
next
  case (Cons fv fvs)
  obtain x y where w: "write_field H fv s =
    Some (s\<lparr>rbx := snd fv, rcx := fst fv, vmcs_of := vmcs_put H (cur_vmcs s) [fv] (vmcs_of s), cf := x, zf := y\<rparr>)"
    by (rule write_field_eq [OF Cons.prems(2)])
  let ?t = "s\<lparr>rbx := snd fv, rcx := fst fv, vmcs_of := vmcs_put H (cur_vmcs s) [fv] (vmcs_of s), cf := x, zf := y\<rparr>"
  have "vmx_on ?t" using Cons.prems(2) by simp
  then obtain b c x' y' where "write_fields H fvs ?t =
    Some (?t\<lparr>rbx := b, rcx := c, vmcs_of := vmcs_put H (cur_vmcs ?t) fvs (vmcs_of ?t), cf := x', zf := y'\<rparr>)"
    by (rule Cons.IH [rotated])
  then show ?case using w Cons.prems(1) [of y' x' c b] by (simp add: vmcs_put_append)
qed


lemma write_control_eq:
  assumes "vmx_on s" "rdmsr_of H (ucast m) = Some v"
  shows "\<exists>b c d x y. write_control H m w f s =
    Some (s\<lparr>rax := take_bit 32 v, rbx := b, rcx := c, rdx := d,
             vmcs_of := vmcs_put H (cur_vmcs s) [(f, take_bit 32 v OR w)] (vmcs_of s), cf := x, zf := y\<rparr>)"
proof -
  let ?t = "s\<lparr>rcx := m, rax := take_bit 32 v, rdx := drop_bit 32 v\<rparr>"
  have "vmx_on ?t" using assms(1) by simp
  from write_field_ex [OF this, of H "(f, take_bit 32 v OR w)"]
  obtain x y where "write_field H (f, take_bit 32 v OR w) ?t =
    Some (?t\<lparr>rbx := take_bit 32 v OR w, rcx := f,
      vmcs_of := vmcs_put H (cur_vmcs s) [(f, take_bit 32 v OR w)] (vmcs_of s), cf := x, zf := y\<rparr>)" by auto
  then have "write_control H m w f s =
    Some (s\<lparr>rax := take_bit 32 v, rbx := take_bit 32 v OR w, rcx := f, rdx := drop_bit 32 v,
             vmcs_of := vmcs_put H (cur_vmcs s) [(f, take_bit 32 v OR w)] (vmcs_of s), cf := x, zf := y\<rparr>)"
    using assms by (simp add: write_control_def rdmsr_instr_def)
  then show ?thesis by blast
qed

lemma write_pin_control_eq:
  assumes "vmx_on s" "rdmsr_of H 0x481 = Some v"
  shows "\<exists>b c d x y. write_pin_control H s =
    Some (s\<lparr>rax := take_bit 32 v, rbx := b, rcx := c, rdx := d,
             vmcs_of := vmcs_put H (cur_vmcs s) [(0, 0)] (vmcs_of s), cf := x, zf := y\<rparr>)"
proof -
  let ?t = "s\<lparr>rcx := 0x481, rax := take_bit 32 v, rdx := 0, rbx := 0\<rparr>"
  have "vmx_on ?t" using assms(1) by simp
  from write_field_ex [OF this, of H "(0, 0)"]
  obtain x y where "write_field H (0, 0) ?t =
    Some (?t\<lparr>rbx := 0, rcx := 0, vmcs_of := vmcs_put H (cur_vmcs s) [(0, 0)] (vmcs_of s), cf := x, zf := y\<rparr>)" by auto
  then have "write_pin_control H s =
    Some (s\<lparr>rax := take_bit 32 v, rbx := 0, rcx := 0, rdx := 0,
             vmcs_of := vmcs_put H (cur_vmcs s) [(0, 0)] (vmcs_of s), cf := x, zf := y\<rparr>)"
    using assms by (simp add: write_pin_control_def rdmsr_instr_def IA32_VMX_PINBASED_CTLS_def VMCS_CTRL_16BIT_def Let_def)
  then show ?thesis by blast
qed

text \<open>The control fields: the pin-based controls end up as 0 in the field with encoding 0.\<close>

definition control_msrs :: "vmx_hw \<Rightarrow> bool" where
  "control_msrs H \<longleftrightarrow> rdmsr_of H 0x481 \<noteq> None \<and> rdmsr_of H 0x482 \<noteq> None \<and> rdmsr_of H 0x483 \<noteq> None \<and> rdmsr_of H 0x484 \<noteq> None"

definition msr_low :: "vmx_hw \<Rightarrow> u32 \<Rightarrow> u64" where
  "msr_low H m = (case rdmsr_of H m of None \<Rightarrow> 0 | Some v \<Rightarrow> take_bit 32 v)"

definition control_fields :: "vmx_hw \<Rightarrow> (u64 \<times> u64) list" where
  "control_fields H = [(0, 0), (0x4002, msr_low H 0x482 OR 0x80000083), (0x400C, msr_low H 0x483 OR 0x200),
     (0x4012, msr_low H 0x484 OR 0x200)]"

lemmas control_constants = VMCS_CTRL_32BIT_def VMCS_CTRL_16BIT_def IA32_VMX_PROCBASED_CTLS_def IA32_VMX_EXIT_CTLS_def
  IA32_VMX_ENTRY_CTLS_def PROC_BASED_HLT_EXIT_def PROC_BASED_CR3_LOAD_def PROC_BASED_CR3_STORE_def
  PROC_BASED_SECONDARY_CTLS_def EXIT_CONTROLS_HOST_ADDR64_def ENTRY_CONTROLS_IA64_MODE_def

lemma configure_vmcs_control_eq:
  assumes "vmx_on s" "control_msrs H"
  shows "\<exists>x y. configure_vmcs_control H s =
    Some (s\<lparr>rax := 1, r8 := 0x80000083, vmcs_of := vmcs_put H (cur_vmcs s) (control_fields H) (vmcs_of s), cf := x, zf := y\<rparr>)"
proof -
  obtain a b c d where m: "rdmsr_of H 0x481 = Some a" "rdmsr_of H 0x482 = Some b" "rdmsr_of H 0x483 = Some c" "rdmsr_of H 0x484 = Some d"
    using assms(2) by (auto simp: control_msrs_def)
  let ?V = "\<lambda>fvs. vmcs_put H (cur_vmcs s) fvs (vmcs_of s)"
  let ?p = "push (rdx s) (push (rcx s) (push (rbx s) s))"
  have "vmx_on ?p" using assms(1) by simp
  from write_pin_control_eq [OF this m(1)] obtain b1 c1 d1 x1 y1 where 1: "write_pin_control H ?p =
    Some (?p\<lparr>rax := take_bit 32 a, rbx := b1, rcx := c1, rdx := d1, vmcs_of := ?V [(0, 0)], cf := x1, zf := y1\<rparr>)" by auto
  let ?t = "?p\<lparr>rax := take_bit 32 a, rbx := b1, rcx := c1, rdx := d1, vmcs_of := ?V [(0, 0)], cf := x1, zf := y1, r8 := 0x80000083\<rparr>"
  have "vmx_on ?t" "rdmsr_of H (ucast (0x482 :: u64)) = Some b" using assms(1) m by simp_all
  from write_control_eq [OF this, of "0x80000083" "0x4002"] obtain b2 c2 d2 x2 y2 where 2: "write_control H 0x482 0x80000083 0x4002 ?t =
    Some (?t\<lparr>rax := take_bit 32 b, rbx := b2, rcx := c2, rdx := d2,
       vmcs_of := ?V [(0, 0), (0x4002, take_bit 32 b OR 0x80000083)], cf := x2, zf := y2\<rparr>)"
    by (auto simp: vmcs_put_append)
  let ?u = "?t\<lparr>rax := take_bit 32 b, rbx := b2, rcx := c2, rdx := d2,
       vmcs_of := ?V [(0, 0), (0x4002, take_bit 32 b OR 0x80000083)], cf := x2, zf := y2\<rparr>"
  have "vmx_on ?u" "rdmsr_of H (ucast (0x483 :: u64)) = Some c" using assms(1) m by simp_all
  from write_control_eq [OF this, of "0x200" "0x400C"] obtain b3 c3 d3 x3 y3 where 3: "write_control H 0x483 0x200 0x400C ?u =
    Some (?u\<lparr>rax := take_bit 32 c, rbx := b3, rcx := c3, rdx := d3,
       vmcs_of := ?V [(0, 0), (0x4002, take_bit 32 b OR 0x80000083), (0x400C, take_bit 32 c OR 0x200)], cf := x3, zf := y3\<rparr>)"
    by (auto simp: vmcs_put_append)
  let ?v = "?u\<lparr>rax := take_bit 32 c, rbx := b3, rcx := c3, rdx := d3,
       vmcs_of := ?V [(0, 0), (0x4002, take_bit 32 b OR 0x80000083), (0x400C, take_bit 32 c OR 0x200)], cf := x3, zf := y3\<rparr>"
  have "vmx_on ?v" "rdmsr_of H (ucast (0x484 :: u64)) = Some d" using assms(1) m by simp_all
  from write_control_eq [OF this, of "0x200" "0x4012"] obtain b4 c4 d4 x4 y4 where 4: "write_control H 0x484 0x200 0x4012 ?v =
    Some (?v\<lparr>rax := take_bit 32 d, rbx := b4, rcx := c4, rdx := d4,
       vmcs_of := ?V (control_fields H), cf := x4, zf := y4\<rparr>)"
    by (auto simp: vmcs_put_append control_fields_def msr_low_def m)
  have "configure_vmcs_control H s =
    Some (s\<lparr>rax := 1, r8 := 0x80000083, vmcs_of := ?V (control_fields H), cf := x4, zf := y4\<rparr>)"
    using 1 2 3 4
    by (simp add: configure_vmcs_control_def control_constants mov_eax_def pop_def push_def Let_def)
  then show ?thesis by blast
qed

lemma write_fields_ex:
  "vmx_on s \<Longrightarrow> \<exists>b c x y. write_fields H fvs s =
    Some (s\<lparr>rbx := b, rcx := c, vmcs_of := vmcs_put H (cur_vmcs s) fvs (vmcs_of s), cf := x, zf := y\<rparr>)"
  by (erule write_fields_eq [of s H fvs]) blast

lemma configure_vmcs_guest_eq:
  assumes "vmx_on s"
  shows "\<exists>x y. configure_vmcs_guest H im s =
    Some (s\<lparr>rax := 1, vmcs_of := vmcs_put H (cur_vmcs s) (guest_fields im) (vmcs_of s), cf := x, zf := y\<rparr>)"
proof -
  let ?p = "push (rcx s) (push (rbx s) s)"
  obtain b c x y where "write_fields H (guest_fields im) ?p =
    Some (?p\<lparr>rbx := b, rcx := c, vmcs_of := vmcs_put H (cur_vmcs s) (guest_fields im) (vmcs_of s), cf := x, zf := y\<rparr>)"
    using write_fields_ex [of ?p H "guest_fields im"] assms by auto
  then have "configure_vmcs_guest H im s =
    Some (s\<lparr>rax := 1, vmcs_of := vmcs_put H (cur_vmcs s) (guest_fields im) (vmcs_of s), cf := x, zf := y\<rparr>)"
    by (simp add: configure_vmcs_guest_def mov_eax_def pop_def push_def Let_def)
  then show ?thesis by blast
qed

lemma configure_vmcs_host_eq:
  assumes "vmx_on s"
  shows "\<exists>x y. configure_vmcs_host H im s =
    Some (s\<lparr>rax := 1, vmcs_of := vmcs_put H (cur_vmcs s) (host_fields im s) (vmcs_of s), cf := x, zf := y\<rparr>)"
proof -
  let ?p = "push (rcx s) (push (rbx s) s)"
  have p: "host_fields im ?p = host_fields im s" by (simp add: host_fields_def)
  obtain b c x y where "write_fields H (host_fields im ?p) ?p =
    Some (?p\<lparr>rbx := b, rcx := c, vmcs_of := vmcs_put H (cur_vmcs s) (host_fields im s) (vmcs_of s), cf := x, zf := y\<rparr>)"
    using write_fields_ex [of ?p H "host_fields im s"] assms by (auto simp: p)
  then have "configure_vmcs_host H im s =
    Some (s\<lparr>rax := 1, vmcs_of := vmcs_put H (cur_vmcs s) (host_fields im s) (vmcs_of s), cf := x, zf := y\<rparr>)"
    by (simp add: configure_vmcs_host_def mov_eax_def pop_def push_def Let_def)
  then show ?thesis by blast
qed

definition vmcs_fields :: "vmx_hw \<Rightarrow> vmx_image \<Rightarrow> vcpu \<Rightarrow> (u64 \<times> u64) list" where
  "vmcs_fields H im s = control_fields H @ guest_fields im @ host_fields im s"

lemma configure_vmcs_eq:
  assumes "vmx_on s" "control_msrs H"
  shows "\<exists>x y. configure_vmcs H im s =
    Some (s\<lparr>rax := 0, r8 := 0x80000083, vmcs_of := vmcs_put H (cur_vmcs s) (vmcs_fields H im s) (vmcs_of s), cf := x, zf := y\<rparr>)"
proof -
  let ?V = "\<lambda>fvs. vmcs_put H (cur_vmcs s) fvs (vmcs_of s)"
  obtain x1 y1 where 1: "configure_vmcs_control H s =
    Some (s\<lparr>rax := 1, r8 := 0x80000083, vmcs_of := ?V (control_fields H), cf := x1, zf := y1\<rparr>)" (is "_ = Some ?t")
    using configure_vmcs_control_eq [OF assms] by auto
  have "vmx_on ?t" using assms(1) by simp
  from configure_vmcs_guest_eq [OF this, of H im] obtain x2 y2 where "configure_vmcs_guest H im ?t =
    Some (?t\<lparr>rax := 1, vmcs_of := vmcs_put H (cur_vmcs ?t) (guest_fields im) (vmcs_of ?t), cf := x2, zf := y2\<rparr>)" by blast
  then have 2: "configure_vmcs_guest H im ?t =
    Some (s\<lparr>rax := 1, r8 := 0x80000083, vmcs_of := ?V (control_fields H @ guest_fields im), cf := x2, zf := y2\<rparr>)" (is "_ = Some ?u")
    by (simp add: vmcs_put_append)
  have "vmx_on ?u" using assms(1) by simp
  from configure_vmcs_host_eq [OF this, of H im] obtain x3 y3 where "configure_vmcs_host H im ?u =
    Some (?u\<lparr>rax := 1, vmcs_of := vmcs_put H (cur_vmcs ?u) (host_fields im ?u) (vmcs_of ?u), cf := x3, zf := y3\<rparr>)" by blast
  moreover have "host_fields im ?u = host_fields im s" by (simp add: host_fields_def)
  ultimately have 3: "configure_vmcs_host H im ?u =
    Some (s\<lparr>rax := 1, r8 := 0x80000083, vmcs_of := ?V (vmcs_fields H im s), cf := x3, zf := y3\<rparr>)"
    by (simp add: vmcs_put_append vmcs_fields_def)
  have "configure_vmcs H im s =
    Some (s\<lparr>rax := 0, r8 := 0x80000083, vmcs_of := ?V (vmcs_fields H im s), cf := x3, zf := y3\<rparr>)"
    using 1 2 3 by (simp add: configure_vmcs_def eax_zero_def mov_eax_def)
  then show ?thesis by blast
qed

lemma do_vmclear_eq:
  assumes "vmx_on s"
  shows "do_vmclear H s =
    (if rdi s AND 0xFFF \<noteq> 0 then Some (s\<lparr>rax := 0\<rparr>)
     else if vmclear_accepts H (load_quad (mem s) (rdi s))
     then Some (s\<lparr>cur_vmcs := (if cur_vmcs s = Some (load_quad (mem s) (rdi s)) then None else cur_vmcs s), cf := False, zf := False, rax := 1\<rparr>)
     else if cur_vmcs s = None then Some (s\<lparr>cf := True, zf := False, rax := 1\<rparr>)
     else Some (s\<lparr>cf := False, zf := True, rax := 0\<rparr>))"
  using assms
  by (simp add: do_vmclear_def vmclear_instr_def vm_flags mov_eax_def pop_def push_def Let_def)

lemma do_vmptrld_eq:
  assumes "vmx_on s"
  shows "do_vmptrld H s =
    (if rdi s AND 0xFFF \<noteq> 0 then Some (s\<lparr>rax := 0\<rparr>)
     else if vmptrld_accepts H (load_quad (mem s) (rdi s))
     then Some (s\<lparr>cur_vmcs := Some (load_quad (mem s) (rdi s)), cf := False, zf := False, rax := 1\<rparr>)
     else if cur_vmcs s = None then Some (s\<lparr>cf := True, zf := False, rax := 1\<rparr>)
     else Some (s\<lparr>cf := False, zf := True, rax := 0\<rparr>))"
  using assms
  by (simp add: do_vmptrld_def vmptrld_instr_def vm_flags mov_eax_def pop_def push_def Let_def)

lemma load64_store64_behind [simp]: "load_quad (store_quad (a + 4096) v m) a = load_quad m a"
  unfolding load_quad_def store_quad_def by (subst read_write_other) (auto intro!: separateI)

text \<open>Without a current VMCS a refused \<^verbatim>\<open>VMCLEAR\<close> or \<^verbatim>\<open>VMPTRLD\<close> sets the carry flag, which
  nobody looks at.\<close>

lemma do_vmclear_fresh:
  assumes "vmx_on s" "cur_vmcs s = None" "rdi s AND 0xFFF = 0"
  shows "\<exists>x y. do_vmclear H s = Some (s\<lparr>cf := x, zf := y, rax := 1\<rparr>)"
proof -
  have n: "s\<lparr>cur_vmcs := None\<rparr> = s" using assms(2) by (cases s) simp
  show ?thesis
  proof (cases "vmclear_accepts H (load_quad (mem s) (rdi s))")
    case True
    have "do_vmclear H s = Some (s\<lparr>cf := False, zf := False, rax := 1\<rparr>)"
      using assms True by (simp add: do_vmclear_eq n)
    then show ?thesis by blast
  next
    case False
    have "do_vmclear H s = Some (s\<lparr>cf := True, zf := False, rax := 1\<rparr>)"
      using assms False by (simp add: do_vmclear_eq)
    then show ?thesis by blast
  qed
qed

lemma do_vmptrld_fresh:
  assumes "vmx_on s" "cur_vmcs s = None" "rdi s AND 0xFFF = 0"
  shows "\<exists>x y. do_vmptrld H s = Some (s\<lparr>cur_vmcs := (if vmptrld_accepts H (load_quad (mem s) (rdi s))
      then Some (load_quad (mem s) (rdi s)) else None), cf := x, zf := y, rax := 1\<rparr>)"
proof -
  have n: "s\<lparr>cur_vmcs := None\<rparr> = s" using assms(2) by (cases s) simp
  show ?thesis
  proof (cases "vmptrld_accepts H (load_quad (mem s) (rdi s))")
    case True
    have "do_vmptrld H s = Some (s\<lparr>cur_vmcs := Some (load_quad (mem s) (rdi s)), cf := False, zf := False, rax := 1\<rparr>)"
      using assms True by (simp add: do_vmptrld_eq)
    then show ?thesis using True by auto
  next
    case False
    have "do_vmptrld H s = Some (s\<lparr>cur_vmcs := None, cf := True, zf := False, rax := 1\<rparr>)"
      using assms False by (simp add: do_vmptrld_eq n)
    then show ?thesis using False by auto
  qed
qed

lemma vmcs_setup_fresh:
  assumes "vmx_on s" "cur_vmcs s = None" "aligned_image im" "control_msrs H"
  shows "\<exists>t. vmcs_setup H im s = Some t \<and> rax t = 0 \<and> same_frame s t \<and> vmx_on t
    \<and> cur_vmcs t = (if vmptrld_accepts H (load_quad (mem s) (vmcs_region im)) then Some (load_quad (mem s) (vmcs_region im)) else None)
    \<and> vmcs_of t = vmcs_put H (cur_vmcs t) (vmcs_fields H im s) (vmcs_of s)"
proof -
  let ?p = "load_quad (mem s) (vmcs_region im)"
  let ?s = "push (rsi s) (push (rdi s) (push (rdx s) (push (rcx s) (push (rbx s) ((push (rbp s) s)\<lparr>rbp := rsp s - 8\<rparr>)))))"
  let ?m = "store_quad (vmcs_region_ptr im) (vmcs_region im) (mem s)"
  let ?a = "?s\<lparr>rax := vmcs_region im, mem := ?m, rdi := vmcs_region im\<rparr>"
  have i: "vmcs_region im \<noteq> 0" "vmcs_region im AND 0xFFF = 0"
    using assms(3) by (simp_all add: aligned_image_def vmcs_region_def)
  have p: "load_quad ?m (vmcs_region im) = ?p" by (simp add: vmcs_region_def vmcs_region_ptr_def)
  have l: "load_quad ?m (vmcs_region_ptr im) = vmcs_region im" by simp
  obtain x y where c: "do_vmclear H ?a = Some (?a\<lparr>cf := x, zf := y, rax := 1\<rparr>)"
    using do_vmclear_fresh [of ?a H] assms(1,2) i by auto
  let ?b = "?a\<lparr>cf := x, zf := y, rax := 1, rdi := vmcs_region im\<rparr>"
  have b: "load_quad (mem ?b) (rdi ?b) = ?p" by (simp add: p)
  define cur where "cur = (if vmptrld_accepts H ?p then Some ?p else None)"
  obtain x' y' where d: "do_vmptrld H ?b = Some (?b\<lparr>cur_vmcs := cur, cf := x', zf := y', rax := 1\<rparr>)" (is "_ = Some ?c")
    using do_vmptrld_fresh [of ?b H, unfolded b, folded cur_def] assms(1,2) i by auto
  have "vmx_on ?c" using assms(1) by simp
  from configure_vmcs_eq [OF this assms(4), of im] obtain x3 y3 where e: "configure_vmcs H im ?c =
    Some (?c\<lparr>rax := 0, r8 := 0x80000083, vmcs_of := vmcs_put H cur (vmcs_fields H im ?c) (vmcs_of s), cf := x3, zf := y3\<rparr>)"
    by auto
  have f: "vmcs_fields H im ?c = vmcs_fields H im s" by (simp add: vmcs_fields_def host_fields_def)
  have "\<exists>t. vmcs_setup H im s = Some t \<and> rax t = 0 \<and> same_frame s t \<and> vmx_on t \<and> cur_vmcs t = cur
      \<and> vmcs_of t = vmcs_put H cur (vmcs_fields H im s) (vmcs_of s)"
    using assms(1) i c d e [unfolded f]
    by (simp add: vmcs_setup_def alloc_vmcs_region_def eax_zero_def pop_def l same_frame_def Let_def)
  then show ?thesis by (auto simp: cur_def)
qed

lemmas vmcs_encodings = VMCS_GUEST_ES_SELECTOR_def VMCS_GUEST_CS_SELECTOR_def VMCS_GUEST_SS_SELECTOR_def VMCS_GUEST_DS_SELECTOR_def
  VMCS_GUEST_FS_SELECTOR_def VMCS_GUEST_GS_SELECTOR_def VMCS_GUEST_ES_LIMIT_def VMCS_GUEST_CS_LIMIT_def
  VMCS_GUEST_SS_LIMIT_def VMCS_GUEST_DS_LIMIT_def VMCS_GUEST_CR0_def VMCS_GUEST_CR3_def VMCS_GUEST_CR4_def
  VMCS_GUEST_RSP_def VMCS_GUEST_RIP_def VMCS_GUEST_RFLAGS_def VMCS_LINK_POINTER_def VMCS_HOST_ES_SELECTOR_def
  VMCS_HOST_CS_SELECTOR_def VMCS_HOST_SS_SELECTOR_def VMCS_HOST_DS_SELECTOR_def VMCS_HOST_FS_SELECTOR_def
  VMCS_HOST_GS_SELECTOR_def VMCS_HOST_CR0_def VMCS_HOST_CR3_def VMCS_HOST_CR4_def VMCS_HOST_RSP_def VMCS_HOST_RIP_def

lemma vmcs_fields_distinct: "distinct (map fst (vmcs_fields H im s))"
  by (simp add: vmcs_fields_def control_fields_def guest_fields_def host_fields_def vmcs_encodings)

lemma vmcs_put_contents:
  assumes "\<forall>fv\<in>set fvs. field_writable H (fst fv)" "distinct (map fst fvs)"
  shows "vmcs_put H (Some p) fvs V p f = (case map_of fvs f of None \<Rightarrow> V p f | Some v \<Rightarrow> v)"
proof -
  have "filter (\<lambda>fv. field_writable H (fst fv)) fvs = fvs" using assms(1) by (simp add: filter_id_conv)
  then show ?thesis by (simp add: vmcs_put_def set_fields_eq map_of_rev [OF assms(2)])
qed

text \<open>The last step on the machine as \<open>VMXON\<close> leaves it.\<close>

lemma vmx_init_vmcs_fresh:
  assumes "vmx_on s" "cur_vmcs s = None" "aligned_image im" "control_msrs H"
  shows "\<exists>t. vmx_init_vmcs H im s = Some t \<and> rax t = ucast (- 4 :: u32) \<and> \<not> vmx_on t"
proof -
  obtain t where t: "vmcs_setup H im s = Some t" "rax t = 0" "vmx_on t"
    using vmcs_setup_fresh [OF assms] by blast
  then show ?thesis
    by (simp add: vmx_init_vmcs_def do_vmxoff_def vmxoff_instr_def vm_flags eax_zero_def)
qed

section \<open>A machine to run on\<close>

definition demo_hw :: vmx_hw where
  "demo_hw = \<lparr>hw_cpuid = (\<lambda>a c. \<lparr>eax = a, ebx = 2, ecx = 3, edx = 4\<rparr>), rdmsr_of = (\<lambda>m. Some (ucast m)), cr4_after = Some,
     vmxon_allowed = True, vmxon_accepts = (\<lambda>p. take_bit 12 p = 0), vmclear_accepts = (\<lambda>p. p \<noteq> 0), vmptrld_accepts = (\<lambda>p. True),
     field_readable = (\<lambda>f. f < 0x8000), field_writable = (\<lambda>f. f < 0x8000), selector_loads = (\<lambda>x. True),
     invept_accepts = (\<lambda>t p. False), entry_succeeds = (\<lambda>s. False)\<rparr>"

definition demo_vcpu :: vcpu where
  "demo_vcpu = \<lparr>rax = 0, rbx = 1, rcx = 2, rdx = 3, rsi = 4, rdi = 5, rbp = 6, rsp = 0x7000, r8 = 8, r9 = 9, r10 = 10, r11 = 11,
     r12 = 12, r13 = 13, r14 = 14, r15 = 15, rip = 0, v0 = [], mem = (\<lambda>a. 0), stk = [], cr0 = 0x80000011, cr3 = 0x1000, cr4 = 0x20,
     seg_ds = 0x10, seg_es = 0x10, seg_fs = 0, seg_gs = 0, zf = False, cf = False, vmx_on = False, cur_vmcs = None, vmcs_of = (\<lambda>p f. 0)\<rparr>"

definition demo_image :: vmx_image where
  "demo_image = \<lparr>vmx_bss = 0x100000, vmcs_bss = 0x200000, guest_entry_point = 0x400100, vmexit_handler_addr = 0x400200\<rparr>"

lemma demo_aligned: "aligned_image demo_image"
  by (simp add: aligned_image_def demo_image_def)

lemma demo_ready: "vmx_ready demo_hw demo_vcpu"
  by (simp add: vmx_ready_def demo_hw_def demo_vcpu_def CR4_VMXE_bit_def)

lemma demo_msrs: "control_msrs demo_hw"
  by (simp add: control_msrs_def demo_hw_def)

end
