(* ===== verification/Vm_Exit.thy ===== *)
theory Vm_Exit
  imports Trace_Engine Vmx_Core
begin

text \<open>
  \<^verbatim>\<open>src/virtualization/intel_vmx/monitor/intercept.asm\<close>: the VM-exit handler and the
  interceptors, instruction by instruction, on the processor of \<open>Vmx_Machine\<close> and the state of
  the trace engine, which they call. A call of C-callable code leaves the caller-saved registers
  with any values (\<open>te_regs\<close>).

  Shown: which exits are logged and as what, what a \<^verbatim>\<open>CPUID\<close> exit writes into the VMCS, and
  what \<open>vmexit_handler\<close> does with an exit: as \<^verbatim>\<open>vmread\<close> is used with its operands exchanged,
  the exit reason it dispatches on is never one it knows.
\<close>

section \<open>Calls into the trace engine\<close>

record trace_env =
  te_tsc :: u64
  te_host :: host
  te_hash_buffer :: u64
  te_regs :: cpu

definition clobber :: "cpu \<Rightarrow> vcpu \<Rightarrow> vcpu" where
  "clobber c s = s\<lparr>rcx := rcx c, rdx := rdx c, rsi := rsi c, rdi := rdi c, r8 := r8 c, r9 := r9 c, r10 := r10 c, r11 := r11 c\<rparr>"

definition call_trace_log_event :: "trace_env \<Rightarrow> vcpu \<Rightarrow> bss \<Rightarrow> vcpu \<times> bss" where
  "call_trace_log_event E s t =
     (let (r, t) = trace_log_event (te_tsc E) (rdi s) (rsi s) t
      in ((clobber (te_regs E) s)\<lparr>rax := r\<rparr>, t))"

definition call_trace_check_integrity :: "trace_env \<Rightarrow> vcpu \<Rightarrow> bss \<Rightarrow> (vcpu \<times> bss) option" where
  "call_trace_check_integrity E s t =
     (case trace_check_integrity (te_host E) (te_hash_buffer E) (te_tsc E) t (mem s) of
        None \<Rightarrow> None
      | Some (r, t, m) \<Rightarrow> Some ((clobber (te_regs E) s)\<lparr>rax := r, mem := m\<rparr>, t))"

section \<open>Constants\<close>

definition VMCS_EXIT_REASON :: u64 where "VMCS_EXIT_REASON = 0x4402"
definition VMCS_EXIT_QUALIFICATION :: u64 where "VMCS_EXIT_QUALIFICATION = 0x6400"
definition VMCS_EXIT_INSTR_LEN :: u64 where "VMCS_EXIT_INSTR_LEN = 0x440C"
definition VMCS_GUEST_RAX :: u64 where "VMCS_GUEST_RAX = 0x681A"
definition VMCS_GUEST_RBX :: u64 where "VMCS_GUEST_RBX = 0x6818"
definition VMCS_GUEST_RCX :: u64 where "VMCS_GUEST_RCX = 0x681C"
definition VMCS_GUEST_RDX :: u64 where "VMCS_GUEST_RDX = 0x681E"

definition EXIT_REASON_CPUID :: u64 where "EXIT_REASON_CPUID = 10"
definition EXIT_REASON_HLT :: u64 where "EXIT_REASON_HLT = 12"
definition EXIT_REASON_VMCALL :: u64 where "EXIT_REASON_VMCALL = 18"
definition EXIT_REASON_CR_ACCESS :: u64 where "EXIT_REASON_CR_ACCESS = 28"
definition EXIT_REASON_IO_INSTR :: u64 where "EXIT_REASON_IO_INSTR = 30"
definition EXIT_REASON_MSR_WRITE :: u64 where "EXIT_REASON_MSR_WRITE = 32"

lemmas exit_reasons = EXIT_REASON_CPUID_def EXIT_REASON_HLT_def EXIT_REASON_VMCALL_def EXIT_REASON_CR_ACCESS_def
  EXIT_REASON_IO_INSTR_def EXIT_REASON_MSR_WRITE_def

text \<open>The strings of \<^verbatim>\<open>.rodata\<close>, which starts at \<open>ro\<close>: the labels the code passes as event types.\<close>

definition EVENT_CR0_WRITE :: "u64 \<Rightarrow> u64" where "EVENT_CR0_WRITE ro = ro"
definition EVENT_CR4_WRITE :: "u64 \<Rightarrow> u64" where "EVENT_CR4_WRITE ro = ro + 19"
definition EVENT_LSTAR_WRITE :: "u64 \<Rightarrow> u64" where "EVENT_LSTAR_WRITE ro = ro + 38"
definition EVENT_STAR_WRITE :: "u64 \<Rightarrow> u64" where "EVENT_STAR_WRITE ro = ro + 78"
definition EVENT_SFMASK_WRITE :: "u64 \<Rightarrow> u64" where "EVENT_SFMASK_WRITE ro = ro + 94"

section \<open>Helper functions\<close>

text \<open>\<^verbatim>\<open>vmread rdi, rax\<close> in both readers.\<close>

definition vmcs_read64 :: "vmx_hw \<Rightarrow> vcpu \<Rightarrow> vcpu option" where
  "vmcs_read64 H s = vmread_instr H rdi_update (rax s) s"

definition vmcs_read32 :: "vmx_hw \<Rightarrow> vcpu \<Rightarrow> vcpu option" where
  "vmcs_read32 H s = vmread_instr H rdi_update (rax s) s"

definition vmcs_write64 :: "vmx_hw \<Rightarrow> vcpu \<Rightarrow> vcpu option" where
  "vmcs_write64 H s = vmwrite_instr H (rdi s) (rsi s) s"

section \<open>Interceptors\<close>

text \<open>Between the pushes and the pops: \<open>rbx\<close> holds the number of the control register, \<open>rax\<close> the
  exit qualification.\<close>

definition check_cr_access :: "vmx_hw \<Rightarrow> trace_env \<Rightarrow> u64 \<Rightarrow> vcpu \<Rightarrow> bss \<Rightarrow> (vcpu \<times> bss) option" where
  "check_cr_access H E ro s t =
     (if rbx s = 0 then do {
        s \<leftarrow> vmcs_read64 H (s\<lparr>rdi := VMCS_EXIT_QUALIFICATION\<rparr>);
        let s = s\<lparr>rbx := rax s\<rparr>;
        let s = s\<lparr>rax := drop_bit 4 (rax s AND 0x30)\<rparr>;
        Some (if rax s \<noteq> 0 then (s, t)
              else call_trace_log_event E (s\<lparr>rdi := EVENT_CR0_WRITE ro, rsi := rbx s\<rparr>) t)
      }
      else if rbx s = 4 then Some (call_trace_log_event E (s\<lparr>rdi := EVENT_CR4_WRITE ro, rsi := rax s\<rparr>) t)
      else Some (s, t))"

definition intercept_cr_access :: "vmx_hw \<Rightarrow> trace_env \<Rightarrow> u64 \<Rightarrow> vcpu \<Rightarrow> bss \<Rightarrow> (vcpu \<times> bss) option" where
  "intercept_cr_access H E ro s t = do {
     let s = push (rbp s) s;
     let s = s\<lparr>rbp := rsp s\<rparr>;
     let s = push (rdi s) (push (rbx s) s);
     let s = s\<lparr>rax := r14 s\<rparr>;
     let s = s\<lparr>rbx := rax s AND 0xF\<rparr>;
     (s, t) \<leftarrow> check_cr_access H E ro s t;
     let s = mov_eax 0 s;
     Some (pop rbp_update (pop rbx_update (pop rdi_update s)), t)
   }"

text \<open>The number of the MSR is taken to be in \<open>rax\<close>.\<close>

definition check_msr_write :: "trace_env \<Rightarrow> u64 \<Rightarrow> vcpu \<Rightarrow> bss \<Rightarrow> (vcpu \<times> bss) option" where
  "check_msr_write E ro s t =
     (let s = s\<lparr>rbx := 0xC0000082\<rparr> in
      if rax s = rbx s
      then (case call_trace_log_event E (s\<lparr>rdi := EVENT_LSTAR_WRITE ro, rsi := rbx s\<rparr>) t of
              (s, t) \<Rightarrow> call_trace_check_integrity E s t)
      else let s = s\<lparr>rbx := 0xC0000081\<rparr> in
      if rax s = rbx s then Some (call_trace_log_event E (s\<lparr>rdi := EVENT_STAR_WRITE ro\<rparr>) t)
      else let s = s\<lparr>rbx := 0xC0000084\<rparr> in
      if rax s = rbx s then Some (call_trace_log_event E (s\<lparr>rdi := EVENT_SFMASK_WRITE ro\<rparr>) t)
      else Some (s, t))"

definition intercept_msr_write :: "vmx_hw \<Rightarrow> trace_env \<Rightarrow> u64 \<Rightarrow> vcpu \<Rightarrow> bss \<Rightarrow> (vcpu \<times> bss) option" where
  "intercept_msr_write H E ro s t = do {
     let s = push (rbp s) s;
     let s = s\<lparr>rbp := rsp s\<rparr>;
     let s = push (rsi s) (push (rdi s) (push (rbx s) s));
     s \<leftarrow> vmcs_read64 H (s\<lparr>rdi := VMCS_GUEST_RCX\<rparr>);
     let s = s\<lparr>rbx := rax s\<rparr>;
     (s, t) \<leftarrow> check_msr_write E ro s t;
     let s = mov_eax 0 s;
     Some (pop rbp_update (pop rbx_update (pop rdi_update (pop rsi_update s))), t)
   }"

text \<open>The results of \<^verbatim>\<open>cpuid\<close> go to the VMCS one by one; both branches of the test of the leaf do
  the same.\<close>

definition store_cpuid :: "vmx_hw \<Rightarrow> vcpu \<Rightarrow> vcpu option" where
  "store_cpuid H s = do {
     let s = cpuid H s;
     s \<leftarrow> vmcs_write64 H (s\<lparr>rdi := VMCS_GUEST_RAX, rsi := rax s\<rparr>);
     s \<leftarrow> vmcs_write64 H (s\<lparr>rdi := VMCS_GUEST_RBX, rsi := rbx s\<rparr>);
     s \<leftarrow> vmcs_write64 H (s\<lparr>rdi := VMCS_GUEST_RCX, rsi := rcx s\<rparr>);
     vmcs_write64 H (s\<lparr>rdi := VMCS_GUEST_RDX, rsi := rdx s\<rparr>)
   }"

definition intercept_cpuid :: "vmx_hw \<Rightarrow> vcpu \<Rightarrow> vcpu option" where
  "intercept_cpuid H s = do {
     let s = push (rbp s) s;
     let s = s\<lparr>rbp := rsp s\<rparr>;
     let s = push (rdx s) (push (rcx s) (push (rbx s) s));
     s \<leftarrow> vmcs_read64 H (s\<lparr>rdi := VMCS_GUEST_RAX\<rparr>);
     let s = s\<lparr>rbx := rax s\<rparr>;
     s \<leftarrow> vmcs_read64 H (s\<lparr>rdi := VMCS_GUEST_RCX\<rparr>);
     let s = s\<lparr>rcx := rax s\<rparr>;
     s \<leftarrow> (if rbx s \<noteq> 1 then store_cpuid H s else store_cpuid H s);
     Some (pop rbp_update (pop rbx_update (pop rcx_update (pop rdx_update s))))
   }"

definition intercept_io_instruction :: "vcpu \<Rightarrow> vcpu" where
  "intercept_io_instruction s =
     (let s = push (rbp s) s;
          s = s\<lparr>rbp := rsp s\<rparr>
      in pop rbp_update (mov_eax 0 s))"

section \<open>Dispatch\<close>

definition vmexit_dispatch :: "vmx_hw \<Rightarrow> trace_env \<Rightarrow> u64 \<Rightarrow> vcpu \<Rightarrow> bss \<Rightarrow> (vcpu \<times> bss) option" where
  "vmexit_dispatch H E ro s t = do {
     let s = push (rbp s) s;
     let s = s\<lparr>rbp := rsp s\<rparr>;
     (s, t) \<leftarrow>
       (if rdi s = EXIT_REASON_CR_ACCESS then intercept_cr_access H E ro s t
        else if rdi s = EXIT_REASON_MSR_WRITE then intercept_msr_write H E ro s t
        else if rdi s = EXIT_REASON_CPUID then map_option (\<lambda>s. (s, t)) (intercept_cpuid H s)
        else if rdi s = EXIT_REASON_IO_INSTR then Some (intercept_io_instruction s, t)
        else if rdi s = EXIT_REASON_VMCALL then Some (mov_eax 0 s, t)
        else if rdi s = EXIT_REASON_HLT then Some (mov_eax 0 s, t)
        else Some (s, t));
     Some (pop rbp_update s, t)
   }"

section \<open>The handler\<close>

definition mov_ax :: "u16 \<Rightarrow> vcpu \<Rightarrow> vcpu" where
  "mov_ax v s = s\<lparr>rax := (rax s AND NOT 0xFFFF) OR ucast v\<rparr>"

definition load_seg :: "vmx_hw \<Rightarrow> ((u16 \<Rightarrow> u16) \<Rightarrow> vcpu \<Rightarrow> vcpu) \<Rightarrow> vcpu \<Rightarrow> vcpu option" where
  "load_seg H seg s = (if selector_loads H (ucast (rax s)) then Some (seg (\<lambda>_. ucast (rax s)) s) else None)"

definition save_registers :: "vcpu \<Rightarrow> vcpu" where
  "save_registers s =
     (let s = push (rdx s) (push (rcx s) (push (rbx s) (push (rax s) s)));
          s = push (rbp s) (push (rdi s) (push (rsi s) s));
          s = push (r11 s) (push (r10 s) (push (r9 s) (push (r8 s) s)));
          s = push (r15 s) (push (r14 s) (push (r13 s) (push (r12 s) s)));
          s = mov_ax (seg_ds s) s; s = push (rax s) s;
          s = mov_ax (seg_es s) s; s = push (rax s) s;
          s = mov_ax (seg_fs s) s; s = push (rax s) s;
          s = mov_ax (seg_gs s) s
      in push (rax s) s)"

definition load_data_segments :: "vmx_hw \<Rightarrow> vcpu \<Rightarrow> vcpu option" where
  "load_data_segments H s = do {
     let s = mov_ax 0x10 s;
     s \<leftarrow> load_seg H seg_ds_update s;
     s \<leftarrow> load_seg H seg_es_update s;
     s \<leftarrow> load_seg H seg_fs_update s;
     load_seg H seg_gs_update s
   }"

definition read_exit_information :: "vmx_hw \<Rightarrow> vcpu \<Rightarrow> vcpu option" where
  "read_exit_information H s = do {
     s \<leftarrow> vmcs_read64 H (s\<lparr>rdi := VMCS_EXIT_REASON\<rparr>);
     let s = s\<lparr>r15 := rax s\<rparr>;
     s \<leftarrow> vmcs_read64 H (s\<lparr>rdi := VMCS_EXIT_QUALIFICATION\<rparr>);
     let s = s\<lparr>r14 := rax s\<rparr>;
     s \<leftarrow> vmcs_read64 H (s\<lparr>rdi := VMCS_GUEST_RIP\<rparr>);
     let s = s\<lparr>r13 := rax s\<rparr>;
     s \<leftarrow> vmcs_read32 H (s\<lparr>rdi := VMCS_EXIT_INSTR_LEN\<rparr>);
     Some (s\<lparr>r12 := take_bit 32 (rax s)\<rparr>)
   }"

definition advance_guest_rip :: "vmx_hw \<Rightarrow> vcpu \<Rightarrow> vcpu option" where
  "advance_guest_rip H s = vmcs_write64 H (s\<lparr>rdi := VMCS_GUEST_RIP, rsi := r13 s + r12 s\<rparr>)"

definition restore_registers :: "vmx_hw \<Rightarrow> vcpu \<Rightarrow> vcpu option" where
  "restore_registers H s = do {
     s \<leftarrow> load_seg H seg_gs_update (pop rax_update s);
     s \<leftarrow> load_seg H seg_fs_update (pop rax_update s);
     s \<leftarrow> load_seg H seg_es_update (pop rax_update s);
     s \<leftarrow> load_seg H seg_ds_update (pop rax_update s);
     let s = pop r12_update (pop r13_update (pop r14_update (pop r15_update s)));
     let s = pop r8_update (pop r9_update (pop r10_update (pop r11_update s)));
     let s = pop rsi_update (pop rdi_update (pop rbp_update s));
     Some (pop rax_update (pop rbx_update (pop rcx_update (pop rdx_update s))))
   }"

text \<open>A failed \<^verbatim>\<open>vmresume\<close> ends in \<open>vmexit_error\<close>, which halts for ever.\<close>

datatype exit_outcome = Resumed vcpu bss | Halt_Loop vcpu bss

definition vmexit_handler :: "vmx_hw \<Rightarrow> trace_env \<Rightarrow> u64 \<Rightarrow> vcpu \<Rightarrow> bss \<Rightarrow> exit_outcome option" where
  "vmexit_handler H E ro s t = do {
     let s = save_registers s;
     s \<leftarrow> load_data_segments H s;
     s \<leftarrow> read_exit_information H s;
     (s, t) \<leftarrow> vmexit_dispatch H E ro (s\<lparr>rdi := r15 s\<rparr>) t;
     s \<leftarrow> advance_guest_rip H s;
     s \<leftarrow> restore_registers H s;
     e \<leftarrow> vmentry_instr H s;
     Some (case e of Entered s \<Rightarrow> Resumed s t | Fell s \<Rightarrow> Halt_Loop s t)
   }"

section \<open>What the helpers do\<close>

lemma vmcs_read64_eq:
  assumes "vmx_on s"
  shows "\<exists>d x y. vmcs_read64 H s = Some (s\<lparr>rdi := d, cf := x, zf := y\<rparr>)"
proof (cases "cur_vmcs s")
  case None
  have "vmcs_read64 H s = Some (s\<lparr>rdi := rdi s, cf := True, zf := False\<rparr>)"
    using assms None by (simp add: vmcs_read64_def vmread_instr_def vm_flags)
  then show ?thesis by blast
next
  case (Some p)
  show ?thesis
  proof (cases "field_readable H (rax s)")
    case True
    have "vmcs_read64 H s = Some (s\<lparr>rdi := vmcs_of s p (rax s), cf := False, zf := False\<rparr>)"
      using assms Some True by (simp add: vmcs_read64_def vmread_instr_def vm_flags)
    then show ?thesis by blast
  next
    case False
    have "vmcs_read64 H s = Some (s\<lparr>rdi := rdi s, cf := False, zf := True\<rparr>)"
      using assms Some False by (simp add: vmcs_read64_def vmread_instr_def vm_flags)
    then show ?thesis by blast
  qed
qed

lemma vmcs_read32_eq: "vmcs_read32 H s = vmcs_read64 H s"
  by (simp add: vmcs_read32_def vmcs_read64_def)

lemma vmcs_write64_eq:
  assumes "vmx_on s"
  shows "\<exists>x y. vmcs_write64 H s = Some (s\<lparr>vmcs_of := vmcs_put H (cur_vmcs s) [(rdi s, rsi s)] (vmcs_of s), cf := x, zf := y\<rparr>)"
proof (cases "cur_vmcs s")
  case None
  have "vmcs_write64 H s = Some (s\<lparr>vmcs_of := vmcs_put H (cur_vmcs s) [(rdi s, rsi s)] (vmcs_of s), cf := True, zf := False\<rparr>)"
    using assms None by (simp add: vmcs_write64_def vmwrite_instr_def vm_flags)
  then show ?thesis by blast
next
  case (Some p)
  have "vmcs_write64 H s = Some (s\<lparr>vmcs_of := vmcs_put H (cur_vmcs s) [(rdi s, rsi s)] (vmcs_of s),
      cf := False, zf := \<not> field_writable H (rdi s)\<rparr>)"
    using assms Some by (simp add: vmcs_write64_def vmwrite_instr_def vm_flags vmcs_put_def)
  then show ?thesis by blast
qed

text \<open>The register \<^verbatim>\<open>rax\<close> with its low word replaced.\<close>

definition low_word :: "u64 \<Rightarrow> u16 \<Rightarrow> u64" where
  "low_word r v = (r AND NOT 0xFFFF) OR ucast v"

lemma ffff_mask: "(0xFFFF :: u64) = mask 16"
  by (simp add: mask_eq_exp_minus_1)

lemma low_word_low_word [simp]: "low_word (low_word r v) w = low_word r w"
  unfolding low_word_def ffff_mask
  by (rule bit_word_eqI) (auto simp: bit_simps dest: bit_imp_le_length)

lemma ucast_low_word [simp]: "ucast (low_word r v) = v"
  unfolding low_word_def ffff_mask
  by (rule bit_word_eqI) (auto simp: bit_simps)

lemma mov_ax_eq: "mov_ax v s = s\<lparr>rax := low_word (rax s) v\<rparr>"
  by (simp add: mov_ax_def low_word_def)

lemma load_data_segments_eq:
  "selector_loads H 0x10 \<Longrightarrow> load_data_segments H s =
     Some (s\<lparr>rax := low_word (rax s) 0x10, seg_ds := 0x10, seg_es := 0x10, seg_fs := 0x10, seg_gs := 0x10\<rparr>)"
  by (simp add: load_data_segments_def load_seg_def mov_ax_eq)

lemma read_exit_information_eq:
  assumes "vmx_on s"
  shows "\<exists>d x y. read_exit_information H s =
    Some (s\<lparr>r15 := rax s, r14 := rax s, r13 := rax s, r12 := take_bit 32 (rax s), rdi := d, cf := x, zf := y\<rparr>)"
proof -
  obtain d1 x1 y1 where 1: "vmcs_read64 H (s\<lparr>rdi := VMCS_EXIT_REASON\<rparr>) = Some (s\<lparr>rdi := d1, cf := x1, zf := y1\<rparr>)"
    using vmcs_read64_eq [of "s\<lparr>rdi := VMCS_EXIT_REASON\<rparr>" H] assms by auto
  let ?b = "s\<lparr>rdi := d1, cf := x1, zf := y1, r15 := rax s, rdi := VMCS_EXIT_QUALIFICATION\<rparr>"
  obtain d2 x2 y2 where 2: "vmcs_read64 H ?b = Some (?b\<lparr>rdi := d2, cf := x2, zf := y2\<rparr>)"
    using vmcs_read64_eq [of ?b H] assms by auto
  let ?c = "?b\<lparr>rdi := d2, cf := x2, zf := y2, r14 := rax s, rdi := VMCS_GUEST_RIP\<rparr>"
  obtain d3 x3 y3 where 3: "vmcs_read64 H ?c = Some (?c\<lparr>rdi := d3, cf := x3, zf := y3\<rparr>)"
    using vmcs_read64_eq [of ?c H] assms by auto
  let ?d = "?c\<lparr>rdi := d3, cf := x3, zf := y3, r13 := rax s, rdi := VMCS_EXIT_INSTR_LEN\<rparr>"
  obtain d4 x4 y4 where 4: "vmcs_read64 H ?d = Some (?d\<lparr>rdi := d4, cf := x4, zf := y4\<rparr>)"
    using vmcs_read64_eq [of ?d H] assms by auto
  have "read_exit_information H s =
    Some (s\<lparr>r15 := rax s, r14 := rax s, r13 := rax s, r12 := take_bit 32 (rax s), rdi := d4, cf := x4, zf := y4\<rparr>)"
    using 1 2 3 4 by (simp add: read_exit_information_def vmcs_read32_eq)
  then show ?thesis by blast
qed

lemma advance_guest_rip_eq:
  assumes "vmx_on s"
  shows "\<exists>x y. advance_guest_rip H s =
    Some (s\<lparr>rdi := VMCS_GUEST_RIP, rsi := r13 s + r12 s,
             vmcs_of := vmcs_put H (cur_vmcs s) [(VMCS_GUEST_RIP, r13 s + r12 s)] (vmcs_of s), cf := x, zf := y\<rparr>)"
  using vmcs_write64_eq [of "s\<lparr>rdi := VMCS_GUEST_RIP, rsi := r13 s + r12 s\<rparr>" H] assms
  by (auto simp: advance_guest_rip_def)

text \<open>The interrupted reason is none of the six the dispatcher knows.\<close>

definition known_reasons :: "u64 set" where
  "known_reasons = {EXIT_REASON_CR_ACCESS, EXIT_REASON_MSR_WRITE, EXIT_REASON_CPUID, EXIT_REASON_IO_INSTR,
     EXIT_REASON_VMCALL, EXIT_REASON_HLT}"

lemma vmexit_dispatch_other:
  "rdi s \<notin> known_reasons \<Longrightarrow> vmexit_dispatch H E ro s t = Some (s, t)"
  by (simp add: vmexit_dispatch_def known_reasons_def push_def pop_def Let_def)

lemma low_word_unknown: "low_word r 0x10 \<notin> known_reasons"
proof
  assume "low_word r 0x10 \<in> known_reasons"
  then have "(ucast (low_word r 0x10) :: u16) \<in> ucast ` known_reasons" by (rule imageI)
  then show False by (simp add: known_reasons_def exit_reasons)
qed

section \<open>The handler\<close>

definition segments_load :: "vmx_hw \<Rightarrow> vcpu \<Rightarrow> bool" where
  "segments_load H s \<longleftrightarrow> selector_loads H 0x10 \<and> selector_loads H (seg_ds s) \<and> selector_loads H (seg_es s)
     \<and> selector_loads H (seg_fs s) \<and> selector_loads H (seg_gs s)"

text \<open>The frame \<open>save_registers\<close> leaves on the stack, top first.\<close>

definition saved_frame :: "vcpu \<Rightarrow> u64 list" where
  "saved_frame s =
     [low_word (rax s) (seg_gs s), low_word (rax s) (seg_fs s), low_word (rax s) (seg_es s), low_word (rax s) (seg_ds s),
      r15 s, r14 s, r13 s, r12 s, r11 s, r10 s, r9 s, r8 s, rbp s, rdi s, rsi s, rdx s, rcx s, rbx s, rax s]"

lemma save_registers_eq:
  "save_registers s = s\<lparr>stk := saved_frame s @ stk s, rsp := rsp s - 152, rax := low_word (rax s) (seg_gs s)\<rparr>"
  by (simp add: save_registers_def saved_frame_def push_def mov_ax_eq Let_def)

lemma restore_registers_eq:
  assumes "segments_load H s" "stk u = saved_frame s @ stk s" "rsp u = rsp s - 152"
  shows "restore_registers H u =
    Some (u\<lparr>rax := rax s, rbx := rbx s, rcx := rcx s, rdx := rdx s, rsi := rsi s, rdi := rdi s, rbp := rbp s, rsp := rsp s,
            r8 := r8 s, r9 := r9 s, r10 := r10 s, r11 := r11 s, r12 := r12 s, r13 := r13 s, r14 := r14 s, r15 := r15 s,
            stk := stk s, seg_ds := seg_ds s, seg_es := seg_es s, seg_fs := seg_fs s, seg_gs := seg_gs s\<rparr>)"
  using assms
  by (simp add: restore_registers_def load_seg_def pop_def saved_frame_def segments_load_def)

text \<open>The guest as it is resumed: all but its instruction pointer, which is computed from \<open>rax\<close>.\<close>

definition stray_rip :: "vcpu \<Rightarrow> u64" where
  "stray_rip s = low_word (rax s) 0x10 + take_bit 32 (low_word (rax s) 0x10)"

lemma vmexit_handler_eq:
  assumes "vmx_on s" "segments_load H s"
  shows "\<exists>x y. vmexit_handler H E ro s t =
    (let s' = s\<lparr>vmcs_of := vmcs_put H (cur_vmcs s) [(VMCS_GUEST_RIP, stray_rip s)] (vmcs_of s), cf := x, zf := y\<rparr>
     in if cur_vmcs s \<noteq> None \<and> entry_succeeds H s' then Some (Resumed s' t) else Some (Halt_Loop (vm_fail s') t))"
proof -
  let ?R = "low_word (rax s) 0x10"
  let ?a = "s\<lparr>stk := saved_frame s @ stk s, rsp := rsp s - 152, rax := ?R,
     seg_ds := 0x10, seg_es := 0x10, seg_fs := 0x10, seg_gs := 0x10\<rparr>"
  have a: "load_data_segments H (save_registers s) = Some ?a"
    using assms(2) by (simp add: save_registers_eq load_data_segments_eq segments_load_def)
  obtain d x1 y1 where b: "read_exit_information H ?a =
    Some (?a\<lparr>r15 := ?R, r14 := ?R, r13 := ?R, r12 := take_bit 32 ?R, rdi := d, cf := x1, zf := y1\<rparr>)" (is "_ = Some ?b")
    using read_exit_information_eq [of ?a H] assms(1) by auto
  let ?c = "?b\<lparr>rdi := ?R\<rparr>"
  have c: "vmexit_dispatch H E ro (?b\<lparr>rdi := r15 ?b\<rparr>) t = Some (?c, t)"
    by (subst vmexit_dispatch_other) (simp_all add: low_word_unknown)
  obtain x2 y2 where d: "advance_guest_rip H ?c =
    Some (?c\<lparr>rdi := VMCS_GUEST_RIP, rsi := stray_rip s,
             vmcs_of := vmcs_put H (cur_vmcs s) [(VMCS_GUEST_RIP, stray_rip s)] (vmcs_of s), cf := x2, zf := y2\<rparr>)" (is "_ = Some ?d")
    using advance_guest_rip_eq [of ?c H] assms(1) by (auto simp: stray_rip_def)
  let ?e = "s\<lparr>vmcs_of := vmcs_put H (cur_vmcs s) [(VMCS_GUEST_RIP, stray_rip s)] (vmcs_of s), cf := x2, zf := y2\<rparr>"
  have e: "restore_registers H ?d = Some ?e"
    by (subst restore_registers_eq [OF assms(2)]) simp_all
  have "vmexit_handler H E ro s t = (if cur_vmcs s \<noteq> None \<and> entry_succeeds H ?e then Some (Resumed ?e t) else Some (Halt_Loop (vm_fail ?e) t))"
    using a b c d e assms(1) by (simp add: vmexit_handler_def vmentry_instr_def)
  then show ?thesis unfolding Let_def by blast
qed

section \<open>The interceptors\<close>

definition cr_access_log :: "u64 \<Rightarrow> u64 \<Rightarrow> u64 \<Rightarrow> bss \<Rightarrow> bss" where
  "cr_access_log tsc ro q t =
     (if q AND 0xF = 0
      then if drop_bit 4 (q AND 0x30) = 0 then snd (trace_log_event tsc (EVENT_CR0_WRITE ro) q t) else t
      else if q AND 0xF = 4 then snd (trace_log_event tsc (EVENT_CR4_WRITE ro) q t) else t)"

lemma clobber_frame [simp]:
  "rax (clobber c s) = rax s" "rbx (clobber c s) = rbx s" "rbp (clobber c s) = rbp s" "rsp (clobber c s) = rsp s"
  "stk (clobber c s) = stk s" "r12 (clobber c s) = r12 s" "r13 (clobber c s) = r13 s" "r14 (clobber c s) = r14 s"
  "r15 (clobber c s) = r15 s" "vmcs_of (clobber c s) = vmcs_of s" "cur_vmcs (clobber c s) = cur_vmcs s"
  "vmx_on (clobber c s) = vmx_on s" "mem (clobber c s) = mem s"
  by (simp_all add: clobber_def)

text \<open>What an interceptor keeps for the handler.\<close>

definition keeps :: "vcpu \<Rightarrow> vcpu \<Rightarrow> bool" where
  "keeps s u \<longleftrightarrow> rsp u = rsp s \<and> stk u = stk s \<and> r12 u = r12 s \<and> r13 u = r13 s
     \<and> r14 u = r14 s \<and> r15 u = r15 s \<and> vmx_on u = vmx_on s \<and> cur_vmcs u = cur_vmcs s"

lemma keeps_simps [simp]:
  "keeps s s" "keeps s (u\<lparr>rax := a\<rparr>) = keeps s u" "keeps s (u\<lparr>rbx := a\<rparr>) = keeps s u" "keeps s (u\<lparr>rcx := a\<rparr>) = keeps s u"
  "keeps s (u\<lparr>rdx := a\<rparr>) = keeps s u" "keeps s (u\<lparr>rsi := a\<rparr>) = keeps s u" "keeps s (u\<lparr>rdi := a\<rparr>) = keeps s u"
  "keeps s (u\<lparr>cf := x\<rparr>) = keeps s u" "keeps s (u\<lparr>zf := x\<rparr>) = keeps s u" "keeps s (u\<lparr>vmcs_of := V\<rparr>) = keeps s u"
  "keeps s (u\<lparr>mem := m\<rparr>) = keeps s u"
  "keeps s (clobber c u) = keeps s u"
  by (simp_all add: keeps_def)

lemma call_trace_log_event_frame:
  "keeps s (fst (call_trace_log_event E u t)) = keeps s u"
  "vmcs_of (fst (call_trace_log_event E u t)) = vmcs_of u"
  "snd (call_trace_log_event E u t) = snd (trace_log_event (te_tsc E) (rdi u) (rsi u) t)"
  by (simp_all add: call_trace_log_event_def case_prod_beta)

lemma check_cr_access_eq:
  assumes "vmx_on s" "rbx s = rax s AND 0xF"
  shows "\<exists>u. check_cr_access H E ro s t = Some (u, cr_access_log (te_tsc E) ro (rax s) t) \<and> keeps s u \<and> vmcs_of u = vmcs_of s"
proof (cases "rax s AND 0xF = 0")
  case True
  let ?q = "s\<lparr>rdi := VMCS_EXIT_QUALIFICATION\<rparr>"
  obtain d x y where v: "vmcs_read64 H ?q = Some (?q\<lparr>rdi := d, cf := x, zf := y\<rparr>)"
    using vmcs_read64_eq [of ?q H] assms by auto
  let ?c = "call_trace_log_event E (?q\<lparr>cf := x, zf := y, rbx := rax s, rax := 0, rdi := EVENT_CR0_WRITE ro, rsi := rax s\<rparr>) t"
  show ?thesis
  proof (cases "drop_bit 4 (rax s AND 0x30) = 0")
    case 0: True
    have "check_cr_access H E ro s t = Some (fst ?c, snd ?c)"
      using assms True 0 v by (simp add: check_cr_access_def)
    then show ?thesis using True 0 by (simp add: call_trace_log_event_frame cr_access_log_def)
  next
    case False
    then show ?thesis using assms True v by (simp add: check_cr_access_def cr_access_log_def)
  qed
next
  case False
  then show ?thesis
    using assms
    by (cases "rax s AND 0xF = 4")
      (auto simp: check_cr_access_def cr_access_log_def call_trace_log_event_frame prod_eq_iff)
qed

lemma intercept_cr_access_eq:
  assumes "vmx_on s"
  shows "\<exists>u. intercept_cr_access H E ro s t = Some (u, cr_access_log (te_tsc E) ro (r14 s) t)
    \<and> keeps s u \<and> vmcs_of u = vmcs_of s \<and> rax u = 0 \<and> rbp u = rbp s \<and> rbx u = rbx s"
proof -
  let ?p = "(push (rdi s) (push (rbx s) ((push (rbp s) s)\<lparr>rbp := rsp s - 8\<rparr>)))\<lparr>rax := r14 s, rbx := r14 s AND 0xF\<rparr>"
  obtain u where u: "check_cr_access H E ro ?p t = Some (u, cr_access_log (te_tsc E) ro (r14 s) t)" "keeps ?p u"
    "vmcs_of u = vmcs_of s"
    using check_cr_access_eq [of ?p H E ro t] assms by auto
  show ?thesis
    using u by (simp add: intercept_cr_access_def keeps_def pop_def push_def mov_eax_def Let_def)
qed

text \<open>The log after an MSR write, the number of the MSR being \<open>q\<close>; \<open>rsi\<close> is the data of the two
  events for which the code sets none.\<close>

definition msr_write_log :: "trace_env \<Rightarrow> u64 \<Rightarrow> u64 \<Rightarrow> u64 \<Rightarrow> memory \<Rightarrow> bss \<Rightarrow> bss option" where
  "msr_write_log E ro q data m t =
     (if q = 0xC0000082
      then map_option (\<lambda>x. fst (snd x)) (trace_check_integrity (te_host E) (te_hash_buffer E) (te_tsc E)
             (snd (trace_log_event (te_tsc E) (EVENT_LSTAR_WRITE ro) 0xC0000082 t)) m)
      else if q = 0xC0000081 then Some (snd (trace_log_event (te_tsc E) (EVENT_STAR_WRITE ro) data t))
      else if q = 0xC0000084 then Some (snd (trace_log_event (te_tsc E) (EVENT_SFMASK_WRITE ro) data t))
      else Some t)"

lemma check_msr_write_eq:
  shows "case msr_write_log E ro (rax s) (rsi s) (mem s) t of
     None \<Rightarrow> check_msr_write E ro s t = None
   | Some t' \<Rightarrow> \<exists>u. check_msr_write E ro s t = Some (u, t') \<and> keeps s u \<and> vmcs_of u = vmcs_of s"
proof (cases "rax s = 0xC0000082")
  case True
  let ?c = "call_trace_log_event E (s\<lparr>rbx := 0xC0000082, rdi := EVENT_LSTAR_WRITE ro, rsi := 0xC0000082\<rparr>) t"
  have c: "mem (fst ?c) = mem s" "keeps s (fst ?c)" "vmcs_of (fst ?c) = vmcs_of s"
    "snd ?c = snd (trace_log_event (te_tsc E) (EVENT_LSTAR_WRITE ro) 0xC0000082 t)"
    by (simp_all add: call_trace_log_event_def case_prod_beta)
  show ?thesis
    using True c
    by (auto simp: check_msr_write_def msr_write_log_def call_trace_check_integrity_def case_prod_beta split: option.splits)
next
  case False
  then show ?thesis
    by (auto simp: check_msr_write_def msr_write_log_def call_trace_log_event_frame prod_eq_iff Let_def)
qed

lemma intercept_msr_write_eq:
  assumes "vmx_on s"
  shows "case msr_write_log E ro (rax s) (rsi s) (mem s) t of
     None \<Rightarrow> intercept_msr_write H E ro s t = None
   | Some t' \<Rightarrow> \<exists>u. intercept_msr_write H E ro s t = Some (u, t') \<and> keeps s u \<and> vmcs_of u = vmcs_of s
       \<and> rax u = 0 \<and> rbp u = rbp s \<and> rbx u = rbx s"
proof -
  let ?p = "(push (rsi s) (push (rdi s) (push (rbx s) ((push (rbp s) s)\<lparr>rbp := rsp s - 8\<rparr>))))\<lparr>rdi := VMCS_GUEST_RCX\<rparr>"
  obtain d x y where v: "vmcs_read64 H ?p = Some (?p\<lparr>rdi := d, cf := x, zf := y\<rparr>)"
    using vmcs_read64_eq [of ?p H] assms by auto
  let ?q = "?p\<lparr>rdi := d, cf := x, zf := y, rbx := rax s\<rparr>"
  show ?thesis
  proof (cases "msr_write_log E ro (rax s) (rsi s) (mem s) t")
    case None
    then have "check_msr_write E ro ?q t = None" using check_msr_write_eq [of E ro ?q t] by simp
    then show ?thesis using None v by (simp add: intercept_msr_write_def Let_def)
  next
    case (Some t')
    then obtain u where u: "check_msr_write E ro ?q t = Some (u, t')" "keeps ?q u" "vmcs_of u = vmcs_of s"
      using check_msr_write_eq [of E ro ?q t] by auto
    then show ?thesis using Some v
      by (simp add: intercept_msr_write_def keeps_def pop_def push_def mov_eax_def Let_def)
  qed
qed

text \<open>The four results of \<^verbatim>\<open>cpuid\<close>, and the fields they are written to.\<close>

definition cpuid_fields :: "cpuid_regs \<Rightarrow> (u64 \<times> u64) list" where
  "cpuid_fields r = [(VMCS_GUEST_RAX, ucast (eax r)), (VMCS_GUEST_RBX, ucast (ebx r)), (VMCS_GUEST_RCX, ucast (ecx r)),
     (VMCS_GUEST_RDX, ucast (edx r))]"

lemma store_cpuid_eq:
  assumes "vmx_on s"
  shows "\<exists>u. store_cpuid H s = Some u \<and> keeps s u \<and> rbp u = rbp s
    \<and> vmcs_of u = vmcs_put H (cur_vmcs s) (cpuid_fields (hw_cpuid H (ucast (rax s)) (ucast (rcx s)))) (vmcs_of s)"
proof -
  let ?r = "hw_cpuid H (ucast (rax s)) (ucast (rcx s))"
  let ?V = "\<lambda>n. vmcs_put H (cur_vmcs s) (take n (cpuid_fields ?r)) (vmcs_of s)"
  let ?a = "(cpuid H s)\<lparr>rdi := VMCS_GUEST_RAX, rsi := rax (cpuid H s)\<rparr>"
  have a: "vmx_on ?a" "cur_vmcs ?a = cur_vmcs s" "vmcs_of ?a = vmcs_of s" "rdi ?a = VMCS_GUEST_RAX" "rsi ?a = ucast (eax ?r)"
    "rbx ?a = ucast (ebx ?r)" "rcx ?a = ucast (ecx ?r)" "rdx ?a = ucast (edx ?r)" "keeps s ?a" "rbp ?a = rbp s"
    using assms by (simp_all add: cpuid_def Let_def)
  obtain x1 y1 where 1: "vmcs_write64 H ?a = Some (?a\<lparr>vmcs_of := ?V 1, cf := x1, zf := y1\<rparr>)" (is "_ = Some ?b")
    using vmcs_write64_eq [OF a(1), of H] a by (auto simp: cpuid_fields_def)
  let ?b' = "?b\<lparr>rdi := VMCS_GUEST_RBX, rsi := rbx ?b\<rparr>"
  have b: "vmx_on ?b'" using a(1) by simp
  obtain x2 y2 where 2: "vmcs_write64 H ?b' = Some (?b'\<lparr>vmcs_of := ?V 2, cf := x2, zf := y2\<rparr>)" (is "_ = Some ?c")
    using vmcs_write64_eq [OF b, of H] a by (auto simp: cpuid_fields_def vmcs_put_append)
  let ?c' = "?c\<lparr>rdi := VMCS_GUEST_RCX, rsi := rcx ?c\<rparr>"
  have c: "vmx_on ?c'" using a(1) by simp
  obtain x3 y3 where 3: "vmcs_write64 H ?c' = Some (?c'\<lparr>vmcs_of := ?V 3, cf := x3, zf := y3\<rparr>)" (is "_ = Some ?d")
    using vmcs_write64_eq [OF c, of H] a by (auto simp: cpuid_fields_def vmcs_put_append)
  let ?d' = "?d\<lparr>rdi := VMCS_GUEST_RDX, rsi := rdx ?d\<rparr>"
  have d: "vmx_on ?d'" using a(1) by simp
  obtain x4 y4 where 4: "vmcs_write64 H ?d' = Some (?d'\<lparr>vmcs_of := ?V 4, cf := x4, zf := y4\<rparr>)"
    using vmcs_write64_eq [OF d, of H] a by (auto simp: cpuid_fields_def vmcs_put_append)
  have "?V 4 = vmcs_put H (cur_vmcs s) (cpuid_fields ?r) (vmcs_of s)" by (simp add: cpuid_fields_def)
  then show ?thesis using 1 2 3 4 a by (simp add: store_cpuid_def)
qed


lemma intercept_cpuid_eq:
  assumes "vmx_on s"
  shows "\<exists>u. intercept_cpuid H s = Some u \<and> keeps s u \<and> rbp u = rbp s \<and> rbx u = rbx s
    \<and> vmcs_of u = vmcs_put H (cur_vmcs s) (cpuid_fields (hw_cpuid H (ucast (rax s)) (ucast (rax s)))) (vmcs_of s)"
proof -
  let ?p = "(push (rdx s) (push (rcx s) (push (rbx s) ((push (rbp s) s)\<lparr>rbp := rsp s - 8\<rparr>))))\<lparr>rdi := VMCS_GUEST_RAX\<rparr>"
  obtain d x y where v: "vmcs_read64 H ?p = Some (?p\<lparr>rdi := d, cf := x, zf := y\<rparr>)"
    using vmcs_read64_eq [of ?p H] assms by auto
  let ?q = "?p\<lparr>rdi := d, cf := x, zf := y, rbx := rax s, rdi := VMCS_GUEST_RCX\<rparr>"
  obtain d' x' y' where w: "vmcs_read64 H ?q = Some (?q\<lparr>rdi := d', cf := x', zf := y'\<rparr>)"
    using vmcs_read64_eq [of ?q H] assms by auto
  let ?r = "?q\<lparr>rdi := d', cf := x', zf := y', rcx := rax s\<rparr>"
  obtain u where u: "store_cpuid H ?r = Some u" "keeps ?r u"
    "vmcs_of u = vmcs_put H (cur_vmcs s) (cpuid_fields (hw_cpuid H (ucast (rax s)) (ucast (rax s)))) (vmcs_of s)"
    using store_cpuid_eq [of ?r H] assms by auto
  show ?thesis
    using v w u by (simp add: intercept_cpuid_def keeps_def pop_def push_def Let_def)
qed

section \<open>Dispatch to the interceptors\<close>

lemma vmexit_dispatch_cr:
  assumes "vmx_on s" "rdi s = EXIT_REASON_CR_ACCESS"
  shows "\<exists>u. vmexit_dispatch H E ro s t = Some (u, cr_access_log (te_tsc E) ro (r14 s) t) \<and> keeps s u \<and> vmcs_of u = vmcs_of s"
proof -
  let ?p = "(push (rbp s) s)\<lparr>rbp := rsp s - 8\<rparr>"
  obtain u where u: "intercept_cr_access H E ro ?p t = Some (u, cr_access_log (te_tsc E) ro (r14 s) t)" "keeps ?p u"
    "vmcs_of u = vmcs_of s"
    using intercept_cr_access_eq [of ?p H E ro t] assms by auto
  then show ?thesis using assms by (simp add: vmexit_dispatch_def keeps_def pop_def push_def Let_def)
qed

lemma vmexit_dispatch_msr:
  assumes "vmx_on s" "rdi s = EXIT_REASON_MSR_WRITE"
  shows "case msr_write_log E ro (rax s) (rsi s) (mem s) t of
     None \<Rightarrow> vmexit_dispatch H E ro s t = None
   | Some t' \<Rightarrow> \<exists>u. vmexit_dispatch H E ro s t = Some (u, t') \<and> keeps s u \<and> vmcs_of u = vmcs_of s"
proof -
  let ?p = "(push (rbp s) s)\<lparr>rbp := rsp s - 8\<rparr>"
  show ?thesis
    using intercept_msr_write_eq [where s = ?p and E = E and ro = ro and t = t and H = H] assms
    by (cases "msr_write_log E ro (rax s) (rsi s) (mem s) t")
      (auto simp: vmexit_dispatch_def keeps_def pop_def push_def exit_reasons Let_def)
qed

lemma vmexit_dispatch_cpuid:
  assumes "vmx_on s" "rdi s = EXIT_REASON_CPUID"
  shows "\<exists>u. vmexit_dispatch H E ro s t = Some (u, t) \<and> keeps s u
    \<and> vmcs_of u = vmcs_put H (cur_vmcs s) (cpuid_fields (hw_cpuid H (ucast (rax s)) (ucast (rax s)))) (vmcs_of s)"
proof -
  let ?p = "(push (rbp s) s)\<lparr>rbp := rsp s - 8\<rparr>"
  obtain u where u: "intercept_cpuid H ?p = Some u" "keeps ?p u"
    "vmcs_of u = vmcs_put H (cur_vmcs s) (cpuid_fields (hw_cpuid H (ucast (rax s)) (ucast (rax s)))) (vmcs_of s)"
    using intercept_cpuid_eq [of ?p H] assms by auto
  then show ?thesis using assms by (simp add: vmexit_dispatch_def exit_reasons keeps_def pop_def push_def Let_def)
qed

lemma vmexit_dispatch_ignored:
  assumes "rdi s \<in> {EXIT_REASON_IO_INSTR, EXIT_REASON_VMCALL, EXIT_REASON_HLT}"
  shows "vmexit_dispatch H E ro s t = Some (s\<lparr>rax := 0\<rparr>, t)"
  using assms
  by (auto simp: vmexit_dispatch_def intercept_io_instruction_def exit_reasons pop_def push_def mov_eax_def Let_def)

end
