(* ===== verification/Boot_Entry.thy ===== *)
theory Boot_Entry
  imports Vmx_Machine
begin

text \<open>
  \<^verbatim>\<open>src/virtualization/intel_vmx/boot/entry.asm\<close>: the bare-metal entry point, up to and around
  the calls of \<open>hypervisor_init\<close> and \<open>hypervisor_main\<close>, which are parameters here (the C++ code
  is modelled in \<open>Orchestrator\<close>). The state is the processor of \<open>Vmx_Machine\<close> with the stack segment,
  the interrupt flag, \<^verbatim>\<open>MXCSR\<close> and the MSRs, which the code also writes.

  Shown: how the boot ends, and in what state C++ code is entered.
\<close>

record boot =
  bt_cpu :: vcpu
  bt_ss :: u16
  bt_if :: bool
  bt_mxcsr :: u32
  bt_msr :: "u32 \<Rightarrow> u64 option"

text \<open>What the processor decides beyond \<open>vmx_hw\<close>: the values an MSR takes, and whether AVX state is
  enabled in \<^verbatim>\<open>XCR0\<close>.\<close>

record boot_hw =
  bh_vmx :: vmx_hw
  bh_wrmsr :: "u32 \<Rightarrow> u64 \<Rightarrow> bool"
  bh_avx_state :: bool

abbreviation on_cpu :: "(vcpu \<Rightarrow> vcpu) \<Rightarrow> boot \<Rightarrow> boot" where
  "on_cpu f b \<equiv> b\<lparr>bt_cpu := f (bt_cpu b)\<rparr>"

section \<open>Data\<close>

text \<open>The \<^verbatim>\<open>.bss\<close> section, which starts at \<open>bb\<close>, a multiple of 16.\<close>

definition boot_stack_ptr :: "u64 \<Rightarrow> u64" where "boot_stack_ptr bb = bb"
definition stack_bottom :: "u64 \<Rightarrow> u64" where "stack_bottom bb = bb + 8"
definition stack_top :: "u64 \<Rightarrow> u64" where "stack_top bb = bb + 8 + 16384"
definition simd_mxcsr_init :: "u64 \<Rightarrow> u64" where "simd_mxcsr_init bb = bb + 8 + 16384"

definition IA32_EFER :: u64 where "IA32_EFER = 0xC0000080"

text \<open>Bits, each the value the code tests or sets.\<close>

definition EFER_LMA :: u64 where "EFER_LMA = push_bit 10 1"
definition CPUID_VMX :: u64 where "CPUID_VMX = push_bit 5 1"
definition FC_LOCK :: u64 where "FC_LOCK = 1"
definition FC_VMX_OUTSIDE_SMX :: u64 where "FC_VMX_OUTSIDE_SMX = push_bit 2 1"
definition CR4_OSFXSR :: u64 where "CR4_OSFXSR = push_bit 9 1"
definition CR4_OSXMMEXCPT :: u64 where "CR4_OSXMMEXCPT = push_bit 10 1"
definition CR4_OSXSAVE :: u64 where "CR4_OSXSAVE = push_bit 18 1"

lemmas boot_bits = EFER_LMA_def CPUID_VMX_def FC_LOCK_def FC_VMX_OUTSIDE_SMX_def CR4_OSFXSR_def CR4_OSXMMEXCPT_def
  CR4_OSXSAVE_def

section \<open>Instructions\<close>

definition boot_rdmsr :: "boot \<Rightarrow> boot option" where
  "boot_rdmsr b = (case bt_msr b (ucast (rcx (bt_cpu b))) of
                     None \<Rightarrow> None
                   | Some v \<Rightarrow> Some (on_cpu (\<lambda>s. s\<lparr>rax := take_bit 32 v, rdx := drop_bit 32 v\<rparr>) b))"

definition boot_wrmsr :: "boot_hw \<Rightarrow> boot \<Rightarrow> boot option" where
  "boot_wrmsr H b =
     (let m = ucast (rcx (bt_cpu b)); v = push_bit 32 (rdx (bt_cpu b)) OR take_bit 32 (rax (bt_cpu b))
      in if bt_msr b m \<noteq> None \<and> bh_wrmsr H m v then Some (b\<lparr>bt_msr := (bt_msr b)(m \<mapsto> v)\<rparr>) else None)"

text \<open>\<^verbatim>\<open>vzeroupper\<close> and \<^verbatim>\<open>ldmxcsr\<close> are undefined until the operating system has enabled the state.\<close>

definition boot_vzeroupper :: "boot_hw \<Rightarrow> boot \<Rightarrow> boot option" where
  "boot_vzeroupper H b =
     (if cr4 (bt_cpu b) AND CR4_OSXSAVE \<noteq> 0 \<and> bh_avx_state H then Some (on_cpu (\<lambda>s. s\<lparr>v0 := take 16 (v0 s)\<rparr>) b) else None)"

definition boot_ldmxcsr :: "u64 \<Rightarrow> boot \<Rightarrow> boot option" where
  "boot_ldmxcsr a b =
     (let v = load_dword (mem (bt_cpu b)) a
      in if cr4 (bt_cpu b) AND CR4_OSFXSR \<noteq> 0 \<and> take_bit 16 v = v then Some (b\<lparr>bt_mxcsr := v\<rparr>) else None)"

definition boot_load_seg :: "boot_hw \<Rightarrow> (boot \<Rightarrow> boot) \<Rightarrow> boot \<Rightarrow> boot option" where
  "boot_load_seg H seg b = (if selector_loads (bh_vmx H) (ucast (rax (bt_cpu b))) then Some (seg b) else None)"

section \<open>Routines\<close>

definition check_long_mode :: "boot \<Rightarrow> boot option" where
  "check_long_mode b = do {
     let b = on_cpu (\<lambda>s. push (rbx s) s) b;
     b \<leftarrow> boot_rdmsr (on_cpu (\<lambda>s. s\<lparr>rcx := IA32_EFER\<rparr>) b);
     let b = on_cpu (mov_eax (if rax (bt_cpu b) AND EFER_LMA \<noteq> 0 then 1 else 0)) b;
     Some (on_cpu (pop rbx_update) b)
   }"

definition enable_long_mode :: "boot \<Rightarrow> boot" where "enable_long_mode b = b"

text \<open>The part of \<open>check_vmx_support\<close> that looks at \<^verbatim>\<open>IA32_FEATURE_CONTROL\<close>.\<close>

definition check_feature_control :: "boot_hw \<Rightarrow> boot \<Rightarrow> boot option" where
  "check_feature_control H b = do {
     b \<leftarrow> boot_rdmsr (on_cpu (\<lambda>s. s\<lparr>rcx := IA32_FEATURE_CONTROL\<rparr>) b);
     if rax (bt_cpu b) AND FC_LOCK = 0
     then do {
       let b = on_cpu (\<lambda>s. s\<lparr>rax := rax s OR FC_VMX_OUTSIDE_SMX\<rparr>) b;
       let b = on_cpu (\<lambda>s. s\<lparr>rax := rax s OR FC_LOCK\<rparr>) b;
       b \<leftarrow> boot_wrmsr H b;
       Some (on_cpu (mov_eax 1) b)
     }
     else if rax (bt_cpu b) AND FC_VMX_OUTSIDE_SMX = 0 then Some (on_cpu (mov_eax 0) b)
     else Some (on_cpu (mov_eax 1) b)
   }"

definition check_vmx_support :: "boot_hw \<Rightarrow> boot \<Rightarrow> boot option" where
  "check_vmx_support H b = do {
     let b = on_cpu (\<lambda>s. push (rdx s) (push (rcx s) (push (rbx s) s))) b;
     let b = on_cpu (\<lambda>s. cpuid (bh_vmx H) (mov_eax 1 s)) b;
     b \<leftarrow> (if rcx (bt_cpu b) AND CPUID_VMX = 0 then Some (on_cpu (mov_eax 0) b) else check_feature_control H b);
     Some (on_cpu (\<lambda>s. pop rbx_update (pop rcx_update (pop rdx_update s))) b)
   }"

definition setup_page_tables :: "boot \<Rightarrow> boot" where "setup_page_tables b = b"

definition boot_write_cr4 :: "boot_hw \<Rightarrow> boot \<Rightarrow> boot option" where
  "boot_write_cr4 H b = map_option (\<lambda>s. b\<lparr>bt_cpu := s\<rparr>) (write_cr4 (bh_vmx H) (rax (bt_cpu b)) (bt_cpu b))"

definition init_simd_state :: "boot_hw \<Rightarrow> u64 \<Rightarrow> boot \<Rightarrow> boot option" where
  "init_simd_state H bb b = do {
     b \<leftarrow> boot_vzeroupper H b;
     b \<leftarrow> boot_ldmxcsr (simd_mxcsr_init bb) b;
     let b = on_cpu (\<lambda>s. s\<lparr>rax := cr4 s\<rparr>) b;
     let b = on_cpu (\<lambda>s. s\<lparr>rax := rax s OR CR4_OSFXSR\<rparr>) b;
     let b = on_cpu (\<lambda>s. s\<lparr>rax := rax s OR CR4_OSXMMEXCPT\<rparr>) b;
     boot_write_cr4 H b
   }"

section \<open>\<open>_start\<close>\<close>

definition clear_segments :: "boot_hw \<Rightarrow> boot \<Rightarrow> boot option" where
  "clear_segments H b = do {
     let b = on_cpu (\<lambda>s. s\<lparr>rax := rax s AND NOT 0xFFFF\<rparr>) b;
     b \<leftarrow> boot_load_seg H (on_cpu (\<lambda>s. s\<lparr>seg_ds := 0\<rparr>)) b;
     b \<leftarrow> boot_load_seg H (on_cpu (\<lambda>s. s\<lparr>seg_es := 0\<rparr>)) b;
     b \<leftarrow> boot_load_seg H (on_cpu (\<lambda>s. s\<lparr>seg_fs := 0\<rparr>)) b;
     b \<leftarrow> boot_load_seg H (on_cpu (\<lambda>s. s\<lparr>seg_gs := 0\<rparr>)) b;
     boot_load_seg H (\<lambda>b. b\<lparr>bt_ss := 0\<rparr>) b
   }"

text \<open>Everything before the first call of C++ code: \<open>Inl\<close> when there is no VMX.\<close>

definition boot_prepare :: "boot_hw \<Rightarrow> u64 \<Rightarrow> boot \<Rightarrow> (boot + boot) option" where
  "boot_prepare H bb b = do {
     let b = b\<lparr>bt_if := False\<rparr>;
     let b = on_cpu (\<lambda>s. s\<lparr>mem := store_quad (boot_stack_ptr bb) (rsp s) (mem s)\<rparr>) b;
     b \<leftarrow> clear_segments H b;
     let b = on_cpu (\<lambda>s. s\<lparr>rsp := stack_top bb\<rparr>) b;
     b \<leftarrow> check_long_mode b;
     let b = (if eax_zero (bt_cpu b) then enable_long_mode b else b);
     b \<leftarrow> check_vmx_support H b;
     if eax_zero (bt_cpu b) then Some (Inl b)
     else do {
       let b = setup_page_tables b;
       b \<leftarrow> init_simd_state H bb b;
       Some (Inr b)
     }
   }"

text \<open>Every way on ends in the halt loop; \<open>print_error\<close> gets the address of its message, in the
  \<^verbatim>\<open>.data\<close> section at \<open>bd\<close>, and returns. The two C++ functions are parameters.\<close>

definition VMX_ERROR_MSG :: "u64 \<Rightarrow> u64" where "VMX_ERROR_MSG bd = bd"
definition INIT_ERROR_MSG :: "u64 \<Rightarrow> u64" where "INIT_ERROR_MSG bd = bd + 45"

definition print_error :: "boot \<Rightarrow> boot" where "print_error b = b"

datatype boot_end = No_Vmx boot | Init_Failed boot | Main_Returned boot

definition boot_start ::
  "boot_hw \<Rightarrow> u64 \<Rightarrow> u64 \<Rightarrow> (boot \<Rightarrow> (u32 \<times> boot) option) \<Rightarrow> (boot \<Rightarrow> boot option) \<Rightarrow> boot \<Rightarrow> boot_end option" where
  "boot_start H bb bd hypervisor_init hypervisor_main b = do {
     r \<leftarrow> boot_prepare H bb b;
     case r of
       Inl b \<Rightarrow> Some (No_Vmx (print_error (on_cpu (\<lambda>s. s\<lparr>rdi := VMX_ERROR_MSG bd\<rparr>) b)))
     | Inr b \<Rightarrow> do {
         (r, b) \<leftarrow> hypervisor_init b;
         if r \<noteq> 0 then Some (Init_Failed (print_error (on_cpu (\<lambda>s. s\<lparr>rdi := INIT_ERROR_MSG bd\<rparr>) b)))
         else do { b \<leftarrow> hypervisor_main b; Some (Main_Returned (b\<lparr>bt_if := False\<rparr>)) }
       }
   }"

text \<open>\<open>exception_handler\<close> saves the registers and halts.\<close>

definition exception_handler :: "boot \<Rightarrow> boot" where
  "exception_handler b =
     (let push_all = fold (\<lambda>r s. push (r s) s)
            [rax, rbx, rcx, rdx, rsi, rdi, rbp, r8, r9, r10, r11, r12, r13, r14, r15];
          push_seg = fold (\<lambda>sg s. let s = s\<lparr>rax := (rax s AND NOT 0xFFFF) OR ucast (sg s)\<rparr> in push (rax s) s)
            [seg_ds, seg_es, seg_fs, seg_gs]
      in (on_cpu (\<lambda>s. push_seg (push_all s)) b)\<lparr>bt_if := False\<rparr>)"

section \<open>Constant data\<close>

text \<open>The multiboot2 header: magic, architecture, length, checksum; the GDT and the limit of its
  pointer, whose end label stands behind the pointer itself.\<close>

definition multiboot_header :: "u32 list" where
  "multiboot_header = [0xE85250D6, 0, 24, - (0xE85250D6 + 0 + 24)]"

definition gdt64 :: "u64 list" where
  "gdt64 = [0, push_bit 43 1 OR push_bit 44 1 OR push_bit 47 1 OR push_bit 53 1,
     push_bit 41 1 OR push_bit 43 1 OR push_bit 44 1 OR push_bit 47 1 OR push_bit 53 1]"

definition gdt64_limit :: nat where
  "gdt64_limit = (8 * length gdt64 + 2 + 8) - 1"

lemma multiboot_checksum: "sum_list multiboot_header = 0"
  by (simp add: multiboot_header_def)

lemma gdt64_limit_covers: "gdt64_limit + 1 = 8 * length gdt64 + 10"
  by (simp add: gdt64_limit_def)

section \<open>The state in which C++ code is entered\<close>

lemma clear_segments_frame:
  assumes "clear_segments H b = Some c"
  shows "rsp (bt_cpu c) = rsp (bt_cpu b)" "cr4 (bt_cpu c) = cr4 (bt_cpu b)" "mem (bt_cpu c) = mem (bt_cpu b)"
    "bt_msr c = bt_msr b" "bt_if c = bt_if b" "bt_ss c = 0"
    "seg_ds (bt_cpu c) = 0" "seg_es (bt_cpu c) = 0" "seg_fs (bt_cpu c) = 0" "seg_gs (bt_cpu c) = 0"
  using assms by (auto simp: clear_segments_def boot_load_seg_def bind_eq_Some_conv Let_def split: if_splits)

lemma check_long_mode_frame:
  assumes "check_long_mode b = Some c"
  shows "rsp (bt_cpu c) = rsp (bt_cpu b)" "cr4 (bt_cpu c) = cr4 (bt_cpu b)" "mem (bt_cpu c) = mem (bt_cpu b)"
    "bt_msr c = bt_msr b" "bt_if c = bt_if b" "bt_ss c = bt_ss b"
  using assms by (auto simp: check_long_mode_def boot_rdmsr_def pop_def bind_eq_Some_conv Let_def split: option.splits)

text \<open>\<^verbatim>\<open>IA32_FEATURE_CONTROL\<close> with VMX enabled and the lock set.\<close>

definition vmx_unlocked :: "boot \<Rightarrow> bool" where
  "vmx_unlocked b \<longleftrightarrow> (case bt_msr b 0x3A of None \<Rightarrow> False | Some v \<Rightarrow> bit v 0 \<and> bit v 2)"

lemma and_push_bit: "w AND push_bit n 1 = 0 \<longleftrightarrow> \<not> bit w n"
  by (simp add: bit_iff_and_push_bit_not_eq_0)

lemma lock_bit: "w AND FC_LOCK = 0 \<longleftrightarrow> \<not> bit w 0"
  using and_push_bit [of w 0] by (simp only: FC_LOCK_def push_bit_0_id id_apply)

lemma vmx_bit: "w AND FC_VMX_OUTSIDE_SMX = 0 \<longleftrightarrow> \<not> bit w 2"
  unfolding FC_VMX_OUTSIDE_SMX_def by (rule and_push_bit)

lemma fc_bits: "bit FC_LOCK 0" "bit FC_VMX_OUTSIDE_SMX 2"
  by (simp_all add: FC_LOCK_def FC_VMX_OUTSIDE_SMX_def)

lemma check_feature_control_result:
  assumes "check_feature_control H b = Some c"
  shows "rsp (bt_cpu c) = rsp (bt_cpu b)" "cr4 (bt_cpu c) = cr4 (bt_cpu b)" "mem (bt_cpu c) = mem (bt_cpu b)"
    "stk (bt_cpu c) = stk (bt_cpu b)" "bt_if c = bt_if b" "bt_ss c = bt_ss b"
    "\<not> eax_zero (bt_cpu c) \<Longrightarrow> vmx_unlocked c"
proof -
  obtain v where v: "bt_msr b 0x3A = Some v"
    using assms by (auto simp: check_feature_control_def boot_rdmsr_def IA32_FEATURE_CONTROL_def Let_def split: option.splits)
  let ?s = "(bt_cpu b)\<lparr>rcx := 0x3A, rax := take_bit 32 v, rdx := drop_bit 32 v\<rparr>"
  have r: "boot_rdmsr (on_cpu (\<lambda>s. s\<lparr>rcx := IA32_FEATURE_CONTROL\<rparr>) b) = Some (b\<lparr>bt_cpu := ?s\<rparr>)"
    by (simp add: boot_rdmsr_def IA32_FEATURE_CONTROL_def v)
  have f: "check_feature_control H b =
    (if bit v 0 then Some (b\<lparr>bt_cpu := mov_eax (if bit v 2 then 1 else 0) ?s\<rparr>)
     else do { b \<leftarrow> boot_wrmsr H (b\<lparr>bt_cpu := ?s\<lparr>rax := (take_bit 32 v OR FC_VMX_OUTSIDE_SMX) OR FC_LOCK\<rparr>\<rparr>); Some (on_cpu (mov_eax 1) b) })"
    by (simp add: check_feature_control_def r lock_bit vmx_bit bit_take_bit_iff Let_def)
  show "rsp (bt_cpu c) = rsp (bt_cpu b)" "cr4 (bt_cpu c) = cr4 (bt_cpu b)" "mem (bt_cpu c) = mem (bt_cpu b)"
    "stk (bt_cpu c) = stk (bt_cpu b)" "bt_if c = bt_if b" "bt_ss c = bt_ss b"
    using assms by (auto simp: f boot_wrmsr_def bind_eq_Some_conv Let_def split: if_splits)
  show "\<not> eax_zero (bt_cpu c) \<Longrightarrow> vmx_unlocked c"
    using assms by (auto simp: f boot_wrmsr_def bind_eq_Some_conv vmx_unlocked_def v fc_bits bit_or_iff bit_take_bit_iff Let_def split: if_splits)
qed

lemma check_vmx_support_result:
  assumes "check_vmx_support H b = Some c"
  shows "rsp (bt_cpu c) = rsp (bt_cpu b)" "cr4 (bt_cpu c) = cr4 (bt_cpu b)" "mem (bt_cpu c) = mem (bt_cpu b)"
    "bt_if c = bt_if b" "bt_ss c = bt_ss b"
    "\<not> eax_zero (bt_cpu c) \<Longrightarrow> vmx_unlocked c \<and> bit (ecx (hw_cpuid (bh_vmx H) 1 (ucast (rcx (bt_cpu b))))) 5"
proof -
  let ?a = "on_cpu (\<lambda>s. cpuid (bh_vmx H) (mov_eax 1 s)) (on_cpu (\<lambda>s. push (rdx s) (push (rcx s) (push (rbx s) s))) b)"
  let ?e = "ecx (hw_cpuid (bh_vmx H) 1 (ucast (rcx (bt_cpu b))))"
  have x: "rcx (bt_cpu ?a) AND CPUID_VMX = 0 \<longleftrightarrow> \<not> bit ?e 5"
    unfolding CPUID_VMX_def and_push_bit by (simp add: cpuid_def bit_simps Let_def)
  have a: "rsp (bt_cpu ?a) = rsp (bt_cpu b) - 24" "cr4 (bt_cpu ?a) = cr4 (bt_cpu b)" "mem (bt_cpu ?a) = mem (bt_cpu b)"
    by (simp_all add: cpuid_def Let_def)
  obtain d where d: "(if rcx (bt_cpu ?a) AND CPUID_VMX = 0 then Some (on_cpu (mov_eax 0) ?a) else check_feature_control H ?a) = Some d"
    and c: "c = on_cpu (\<lambda>s. pop rbx_update (pop rcx_update (pop rdx_update s))) d"
    using assms by (auto simp: check_vmx_support_def bind_eq_Some_conv Let_def)
  have "rsp (bt_cpu d) = rsp (bt_cpu ?a) \<and> cr4 (bt_cpu d) = cr4 (bt_cpu ?a) \<and> mem (bt_cpu d) = mem (bt_cpu ?a)
    \<and> bt_if d = bt_if b \<and> bt_ss d = bt_ss b \<and> (\<not> eax_zero (bt_cpu d) \<longrightarrow> vmx_unlocked d \<and> bit ?e 5)"
  proof (cases "rcx (bt_cpu ?a) AND CPUID_VMX = 0")
    case True
    then have "d = on_cpu (mov_eax 0) ?a" using d by simp
    then show ?thesis by simp
  next
    case False
    then have "check_feature_control H ?a = Some d" using d by simp
    from check_feature_control_result [OF this] show ?thesis using False x by simp
  qed
  then show "rsp (bt_cpu c) = rsp (bt_cpu b)" "cr4 (bt_cpu c) = cr4 (bt_cpu b)" "mem (bt_cpu c) = mem (bt_cpu b)"
    "bt_if c = bt_if b" "bt_ss c = bt_ss b"
    "\<not> eax_zero (bt_cpu c) \<Longrightarrow> vmx_unlocked c \<and> bit (ecx (hw_cpuid (bh_vmx H) 1 (ucast (rcx (bt_cpu b))))) 5"
    using a by (simp_all add: c pop_def eax_zero_def vmx_unlocked_def)
qed


lemma init_simd_state_result:
  assumes "init_simd_state H bb b = Some c"
  shows "rsp (bt_cpu c) = rsp (bt_cpu b)" "bt_if c = bt_if b" "bt_ss c = bt_ss b" "bt_msr c = bt_msr b"
    "bt_mxcsr c = load_dword (mem (bt_cpu b)) (simd_mxcsr_init bb)"
    "cr4 (bt_cpu b) AND CR4_OSXSAVE \<noteq> 0" "cr4 (bt_cpu b) AND CR4_OSFXSR \<noteq> 0"
    "cr4_after (bh_vmx H) ((cr4 (bt_cpu b) OR CR4_OSFXSR) OR CR4_OSXMMEXCPT) = Some (cr4 (bt_cpu c))"
  using assms
  by (auto simp: init_simd_state_def boot_vzeroupper_def boot_ldmxcsr_def boot_write_cr4_def write_cr4_def bind_eq_Some_conv Let_def
      split: if_splits option.splits)

lemma stack_top_misaligned:
  assumes "bb AND 0xF = 0"
  shows "stack_top bb AND 0xF = 8"
proof -
  have m: "w AND 0xF = take_bit 4 w" for w :: u64
    using take_bit_eq_mask [of 4 w] by (simp add: mask_eq_exp_minus_1)
  have n: "unat (take_bit 4 w) = unat w mod 16" for w :: u64
    by (simp add: unat_mod take_bit_eq_mod)
  have "unat bb mod 16 = 0" using assms n [of bb] by (simp add: m)
  then have "unat (bb + 16392) mod 16 = 8"
    by (simp add: unat_word_ariths mod_mod_cancel) presburger
  then have "unat (take_bit 4 (bb + 16392)) = unat (8 :: u64)" by (simp add: n)
  then show ?thesis by (simp only: word_unat_eq_iff m stack_top_def) (simp add: add.assoc)
qed

lemma load32_store64_apart: "load_dword (store_quad a v m) (16392 + a) = load_dword m (16392 + a)"
  unfolding load_dword_def store_quad_def by (subst read_write_other) (auto intro!: separateI)

text \<open>What holds when control reaches \<^verbatim>\<open>call hypervisor_init\<close>.\<close>

lemma boot_prepare_result:
  assumes "boot_prepare H bb b = Some (Inr c)"
  shows "rsp (bt_cpu c) = stack_top bb" "\<not> bt_if c" "vmx_unlocked c"
    "bt_mxcsr c = load_dword (mem (bt_cpu b)) (simd_mxcsr_init bb)"
    "cr4 (bt_cpu b) AND CR4_OSXSAVE \<noteq> 0" "cr4 (bt_cpu b) AND CR4_OSFXSR \<noteq> 0"
    "cr4_after (bh_vmx H) ((cr4 (bt_cpu b) OR CR4_OSFXSR) OR CR4_OSXMMEXCPT) = Some (cr4 (bt_cpu c))"
proof -
  let ?a = "on_cpu (\<lambda>s. s\<lparr>mem := store_quad (boot_stack_ptr bb) (rsp s) (mem s)\<rparr>) (b\<lparr>bt_if := False\<rparr>)"
  obtain b1 b2 b3 where 1: "clear_segments H ?a = Some b1"
    and 2: "check_long_mode (on_cpu (\<lambda>s. s\<lparr>rsp := stack_top bb\<rparr>) b1) = Some b2"
    and 3: "check_vmx_support H b2 = Some b3" "\<not> eax_zero (bt_cpu b3)" and 4: "init_simd_state H bb b3 = Some c"
    using assms by (auto simp: boot_prepare_def bind_eq_Some_conv enable_long_mode_def setup_page_tables_def Let_def split: if_splits)
  have m: "load_dword (mem (bt_cpu b3)) (simd_mxcsr_init bb) = load_dword (mem (bt_cpu b)) (simd_mxcsr_init bb)"
    using clear_segments_frame [OF 1] check_long_mode_frame [OF 2] check_vmx_support_result [OF 3(1)]
    by (simp add: boot_stack_ptr_def simd_mxcsr_init_def load32_store64_apart)
  note f = clear_segments_frame [OF 1] check_long_mode_frame [OF 2] check_vmx_support_result [OF 3(1)] init_simd_state_result [OF 4]
  show "rsp (bt_cpu c) = stack_top bb" "\<not> bt_if c" "cr4 (bt_cpu b) AND CR4_OSXSAVE \<noteq> 0" "cr4 (bt_cpu b) AND CR4_OSFXSR \<noteq> 0"
    "cr4_after (bh_vmx H) ((cr4 (bt_cpu b) OR CR4_OSFXSR) OR CR4_OSXMMEXCPT) = Some (cr4 (bt_cpu c))"
    "bt_mxcsr c = load_dword (mem (bt_cpu b)) (simd_mxcsr_init bb)"
    using f m by simp_all
  show "vmx_unlocked c" using f 3(2) by (simp add: vmx_unlocked_def)
qed

end
