(* ===== verification/Bare_Metal.thy ===== *)
theory Bare_Metal
  imports Backend Vm_Exit Boot_Entry
begin

text \<open>
  The bare-metal half of the program as a whole: \<open>_start\<close>, the VMX core, the VM-exit handler and
  the trace engine behind it, and the Intel backend of \<open>Backend\<close> over the real core instead of
  the stubs. Every property is over the definitions of the component theories; the machine of
  the witnesses is \<open>demo_hw\<close>.
\<close>

section \<open>The machine of the witnesses\<close>

definition demo_on :: vcpu where
  "demo_on = demo_vcpu\<lparr>cr4 := 0x2020, vmx_on := True\<rparr>"

definition demo_guest :: vcpu where
  "demo_guest = demo_on\<lparr>cur_vmcs := Some 0x200000, vmcs_of := (\<lambda>p f. if f = VMCS_EXIT_REASON then EXIT_REASON_CR_ACCESS else 0)\<rparr>"

definition demo_trace :: trace_env where
  "demo_trace = \<lparr>te_tsc = 77, te_host = avx2_host, te_hash_buffer = 0x9000, te_regs = host_ctx avx2_host\<rparr>"

definition demo_boot_hw :: boot_hw where
  "demo_boot_hw = \<lparr>bh_vmx = demo_hw\<lparr>hw_cpuid := (\<lambda>a c. \<lparr>eax = 0, ebx = 0, ecx = 0x20, edx = 0\<rparr>)\<rparr>, bh_wrmsr = (\<lambda>m v. True), bh_avx_state = True\<rparr>"

definition demo_boot :: boot where
  "demo_boot = \<lparr>bt_cpu = demo_vcpu\<lparr>cr4 := 0x40620\<rparr>, bt_ss = 0x10, bt_if = True, bt_mxcsr = 0x1F80,
     bt_msr = [0xC0000080 \<mapsto> 0x500, 0x3A \<mapsto> 5]\<rparr>"

lemma demo_on_facts:
  "vmx_on demo_on" "cur_vmcs demo_on = None" "vmx_on demo_guest" "cur_vmcs demo_guest = Some 0x200000"
  "mem demo_on = (\<lambda>_. 0)" "mem demo_guest = (\<lambda>_. 0)"
  by (simp_all add: demo_on_def demo_guest_def demo_vcpu_def)

lemma load64_zeroed: "load_quad (\<lambda>_. 0) a = 0"
proof -
  have "read_bytes (\<lambda>_. 0) a 8 = le_bytes 8 (0 :: u64)" by (simp add: read_bytes_def le_bytes_zero map_replicate_const)
  then show ?thesis by (simp add: load_quad_def enc_simps)
qed

lemma load32_zeroed: "load_dword (\<lambda>_. 0) a = 0"
proof -
  have "read_bytes (\<lambda>_. 0) a 4 = le_bytes 4 (0 :: u32)" by (simp add: read_bytes_def le_bytes_zero map_replicate_const)
  then show ?thesis by (simp add: load_dword_def enc_simps)
qed

section \<open>VMX operation\<close>

text \<open>C13: \<open>vmx_init\<close> never succeeds. On every machine it returns -1, -2 or -3 (as an unsigned
  half of \<open>rax\<close>) or faults, and no VMCS is touched; on a machine on which nothing stands in the way it
  comes back with -3, after \<^verbatim>\<open>VMXON\<close> was given the revision identifier as the address of its
  region (the operand is the region's first quadword): if the processor takes that address,
  VMX operation stays on. The caller's registers and stack are as before.\<close>

theorem vmx_init_never_succeeds:
  shows "(vmx_init H im s = Some t \<longrightarrow> rax t \<in> {0xFFFFFFFF, 0xFFFFFFFE, 0xFFFFFFFD} \<and> vmcs_of t = vmcs_of s \<and> same_frame s t)
    \<and> (vmx_ready H s \<and> aligned_image im \<and> rdmsr_of H 0x480 = Some v \<longrightarrow>
       (\<exists>t. vmx_init H im s = Some t \<and> rax t = 0xFFFFFFFD \<and> cr4 t AND CR4_VMXE_bit \<noteq> 0
          \<and> vmx_on t = vmxon_accepts H (ucast (ucast v AND 0x7FFFFFFF :: u32))
          \<and> read_bytes (mem t) (vmxon_region im) 4096 = le_bytes 4 (ucast v AND 0x7FFFFFFF :: u32) @ replicate 4092 0))"
  using vmx_init_result [of H im s t] vmx_init_ready [of H s im v] by (auto simp: region_id_def region_bytes_def)

theorem vmx_init_never_succeeds_witness:
  "\<exists>t. vmx_init demo_hw demo_image demo_vcpu = Some t \<and> rax t = 0xFFFFFFFD \<and> \<not> vmx_on t"
proof -
  have "rdmsr_of demo_hw 0x480 = Some 0x480" "\<not> vmxon_accepts demo_hw (ucast (ucast (0x480 :: u64) AND 0x7FFFFFFF :: u32))"
    by (simp_all add: demo_hw_def take_bit_eq_mod)
  then show ?thesis
    using vmx_init_never_succeeds [of demo_hw demo_image demo_vcpu _ "0x480"] demo_ready demo_aligned by auto
qed

text \<open>C15: The Intel backend over the real core. With \<open>vmx_init\<close> as the assembly computes it, the
  backend of an Intel host on which the hardware backend is enabled fails to initialise with -2
  whatever the machine does; \<open>setup_guest\<close> and \<open>launch\<close> are then refused with -1, and the status
  never claims validated hardware. (With the stubs all three succeed.)\<close>

theorem intel_backend_on_real_core:
  assumes "vmx_init H im s = Some t" "api_vmx_init A = rax t"
    and "vendor (detect_cpu_features (os_cpuid Os)) = Intel" "vmx (detect_cpu_features (os_cpuid Os))" "hardware_backend_enabled Os"
    and "\<not> iv_initialized (w_intel W)" "\<not> iv_configured (w_intel W)"
  shows "backend_init IntelVMX Os A W = Some (- 2, W) \<and> backend_setup_guest IntelVMX Os A W = Some (- 1, W)
    \<and> backend_launch IntelVMX Os A W = Some (- 1, W)
    \<and> (\<exists>st. backend_status_of IntelVMX Os W = Some (st, W) \<and> \<not> bs_hardware_validated st \<and> bs_mode st = ''hardware-vmx-pending'')"
proof -
  have "rax t \<noteq> 0" using vmx_init_result [OF assms(1)] by auto
  then show ?thesis
    using assms by (simp add: intel_init_def intel_setup_guest_def intel_launch_def intel_status_def Let_def)
qed

theorem intel_backend_on_real_core_witness:
  "backend_init IntelVMX (demo_os\<lparr>os_cpuid := intel_cpuid\<rparr>) (vmx_stubs\<lparr>api_vmx_init := 0xFFFFFFFD\<rparr>) demo_world = Some (- 2, demo_world)"
proof -
  obtain t where t: "vmx_init demo_hw demo_image demo_vcpu = Some t" "rax t = 0xFFFFFFFD"
    using vmx_init_ready [OF demo_ready demo_aligned, of "0x480"] by (auto simp: demo_hw_def)
  have h: "hardware_backend_enabled (demo_os\<lparr>os_cpuid := intel_cpuid\<rparr>)" by (simp add: hardware_backend_enabled_def demo_os_def)
  have w: "\<not> iv_initialized (w_intel demo_world)" "\<not> iv_configured (w_intel demo_world)" by (simp_all add: demo_world_def fresh_intel_def)
  have a: "api_vmx_init (vmx_stubs\<lparr>api_vmx_init := 0xFFFFFFFD\<rparr>) = rax t" using t(2) by simp
  from intel_backend_on_real_core [OF t(1) a _ _ h w] show ?thesis by (simp add: intel_cpuid_features)
qed

text \<open>C16: \<open>vmcs_setup\<close> cannot fail on the machine as \<^verbatim>\<open>VMXON\<close> leaves it: the processor may refuse
  \<^verbatim>\<open>VMCLEAR\<close> (it is given the quadword in the region, not the region's address), \<^verbatim>\<open>VMPTRLD\<close> and every \<^verbatim>\<open>vmwrite\<close>, the
  result is 0 all the same, as without a current VMCS a refusal sets the carry flag and the code looks
  at the zero flag. And \<open>vmx_init\<close> takes that 0 for a failure: it leaves VMX operation and returns -4.\<close>

theorem vmcs_setup_reports_success:
  assumes "vmx_on s" "cur_vmcs s = None" "aligned_image im" "control_msrs H"
  shows "(\<exists>t. vmcs_setup H im s = Some t \<and> rax t = 0 \<and> same_frame s t
      \<and> cur_vmcs t = (if vmptrld_accepts H (load_quad (mem s) (vmcs_region im)) then Some (load_quad (mem s) (vmcs_region im)) else None)
      \<and> (\<not> vmptrld_accepts H (load_quad (mem s) (vmcs_region im)) \<longrightarrow> vmcs_of t = vmcs_of s))
    \<and> (\<exists>t. vmx_init_vmcs H im s = Some t \<and> rax t = 0xFFFFFFFC \<and> \<not> vmx_on t)"
  using vmcs_setup_fresh [OF assms] vmx_init_vmcs_fresh [OF assms] by auto

theorem vmcs_setup_reports_success_witness:
  "\<exists>t. vmcs_setup (demo_hw\<lparr>vmclear_accepts := \<lambda>p. False, vmptrld_accepts := \<lambda>p. False\<rparr>) demo_image demo_on = Some t
     \<and> rax t = 0 \<and> vmcs_of t = vmcs_of demo_on"
proof -
  have "control_msrs (demo_hw\<lparr>vmclear_accepts := \<lambda>p. False, vmptrld_accepts := \<lambda>p. False\<rparr>)"
    using demo_msrs by (simp add: control_msrs_def)
  from vmcs_setup_reports_success [OF demo_on_facts(1,2) demo_aligned this] show ?thesis by auto
qed

text \<open>C17: What the VMCS holds after \<open>vmcs_setup\<close>, when the processor takes everything: exactly the fields
  of \<open>vmcs_fields\<close>, nothing else. The pin-based controls (encoding 0x4000) are not among them; their
  value, masked to 0, went into field 0. The stack for exits starts 12 bytes above the VMCS
  region, so that the 19 quadwords the handler pushes land inside the region.\<close>

theorem vmcs_contents:
  assumes "vmx_on s" "cur_vmcs s = None" "aligned_image im" "control_msrs H"
    and "p = load_quad (mem s) (vmcs_region im)" "vmptrld_accepts H p" "\<forall>fv\<in>set (vmcs_fields H im s). field_writable H (fst fv)"
  shows "\<exists>t. vmcs_setup H im s = Some t \<and> cur_vmcs t = Some p
    \<and> (\<forall>f. vmcs_of t p f = (case map_of (vmcs_fields H im s) f of None \<Rightarrow> vmcs_of s p f | Some v \<Rightarrow> v))
    \<and> vmcs_of t p 0x4000 = vmcs_of s p 0x4000 \<and> vmcs_of t p 0 = 0
    \<and> vmcs_of t p VMCS_HOST_RSP = vmcs_region im + 4108
    \<and> vmcs_of t p VMCS_HOST_RSP - of_nat (8 * length (saved_frame s)) = vmcs_region im + 3956"
proof -
  obtain t where t: "vmcs_setup H im s = Some t" "cur_vmcs t = Some p" "vmcs_of t = vmcs_put H (Some p) (vmcs_fields H im s) (vmcs_of s)"
    using vmcs_setup_fresh [OF assms(1-4)] assms(5,6) by auto
  have c: "vmcs_of t p f = (case map_of (vmcs_fields H im s) f of None \<Rightarrow> vmcs_of s p f | Some v \<Rightarrow> v)" for f
    using vmcs_put_contents [OF assms(7) vmcs_fields_distinct] t(3) by simp
  have "map_of (vmcs_fields H im s) 0x4000 = None" "map_of (vmcs_fields H im s) 0 = Some 0"
    "map_of (vmcs_fields H im s) VMCS_HOST_RSP = Some (vmcs_region im + 4108)"
    by (simp_all add: vmcs_fields_def control_fields_def guest_fields_def host_fields_def vmcs_encodings host_stack_for_exit_def vmcs_region_def)
  then show ?thesis using t(1,2) c by (simp add: saved_frame_def)
qed

theorem vmcs_contents_witness:
  "\<exists>t. vmcs_setup demo_hw demo_image demo_on = Some t \<and> vmcs_of t 0 0 = 0 \<and> vmcs_of t 0 VMCS_HOST_RSP = vmcs_region demo_image + 4108"
proof -
  have "0 = load_quad (mem demo_on) (vmcs_region demo_image)" by (simp add: demo_on_facts load64_zeroed)
  moreover have "vmptrld_accepts demo_hw 0" by (simp add: demo_hw_def)
  moreover have "\<forall>fv\<in>set (vmcs_fields demo_hw demo_image demo_on). field_writable demo_hw (fst fv)"
    by (simp add: vmcs_fields_def control_fields_def guest_fields_def host_fields_def vmcs_encodings) (simp add: demo_hw_def)
  ultimately show ?thesis
    using vmcs_contents [OF demo_on_facts(1,2) demo_aligned demo_msrs] by blast
qed

section \<open>VM exits\<close>

text \<open>C14: The exit handler does not handle exits. In VMX operation, whatever the reason, the
  qualification and the guest's instruction pointer in the VMCS, no interceptor runs and the trace
  engine is not called: the exit reason it works with is \<^verbatim>\<open>rax\<close> with its low word replaced by
  the data selector 0x10, as \<^verbatim>\<open>vmread\<close> has its operands exchanged. Every register is given back
  as the guest left it; but the guest's instruction pointer becomes a number computed from
  \<^verbatim>\<open>rax\<close>. Then the guest is resumed, or the machine halts.\<close>

theorem vmexit_handler_inert:
  assumes "vmx_on s" "segments_load H s"
  shows "\<exists>x y s'. s' = s\<lparr>vmcs_of := vmcs_put H (cur_vmcs s) [(VMCS_GUEST_RIP, stray_rip s)] (vmcs_of s), cf := x, zf := y\<rparr>
    \<and> vmexit_handler H E ro s t =
        Some (if cur_vmcs s \<noteq> None \<and> entry_succeeds H s' then Resumed s' t else Halt_Loop (vm_fail s') t)"
proof -
  obtain x y where "vmexit_handler H E ro s t =
    (let s' = s\<lparr>vmcs_of := vmcs_put H (cur_vmcs s) [(VMCS_GUEST_RIP, stray_rip s)] (vmcs_of s), cf := x, zf := y\<rparr>
     in if cur_vmcs s \<noteq> None \<and> entry_succeeds H s' then Some (Resumed s' t) else Some (Halt_Loop (vm_fail s') t))"
    using vmexit_handler_eq [OF assms, of E ro t] by blast
  then show ?thesis by (intro exI [of _ x] exI [of _ y]) (simp add: Let_def)
qed

theorem vmexit_handler_inert_witness:
  "\<exists>u. vmexit_handler (demo_hw\<lparr>entry_succeeds := \<lambda>s. True\<rparr>) demo_trace 0x5000 demo_guest zero_bss = Some (Resumed u zero_bss)
     \<and> vmcs_of u 0x200000 VMCS_GUEST_RIP = 0x20 \<and> vmcs_of demo_guest 0x200000 VMCS_EXIT_REASON = EXIT_REASON_CR_ACCESS"
proof -
  have "segments_load (demo_hw\<lparr>entry_succeeds := \<lambda>s. True\<rparr>) demo_guest" by (simp add: segments_load_def demo_hw_def)
  moreover have "stray_rip demo_guest = 0x20"
    by (simp add: stray_rip_def low_word_def demo_guest_def demo_on_def demo_vcpu_def take_bit_eq_mod)
  moreover have "field_writable (demo_hw\<lparr>entry_succeeds := \<lambda>s. True\<rparr>) VMCS_GUEST_RIP" by (simp add: demo_hw_def VMCS_GUEST_RIP_def)
  moreover have "vmcs_of demo_guest 0x200000 VMCS_EXIT_REASON = EXIT_REASON_CR_ACCESS" by (simp add: demo_guest_def)
  ultimately show ?thesis
    using vmexit_handler_inert [OF demo_on_facts(3), of "demo_hw\<lparr>entry_succeeds := \<lambda>s. True\<rparr>" demo_trace "0x5000" zero_bss]
    by (auto simp: vmcs_put_def demo_on_facts)
qed

text \<open>C20: What the dispatcher logs for a control register access, if it is ever given the reason, in any
  state the trace engine can reach with room in its log: a write of CR0 and any access to CR4
  (reads too) add one event, everything else none. The type of the event is the low byte of the
  address of a string, its data the qualification, not the value written.\<close>

theorem cr_exit_logged:
  assumes "trace_reach (te_host E) (te_hash_buffer E) t (mem s)" "unat (write_index t) < 1024"
    and "vmx_on s" "rdi s = EXIT_REASON_CR_ACCESS"
  shows "\<exists>u t'. vmexit_dispatch H E ro s t = Some (u, t') \<and> keeps s u \<and> vmcs_of u = vmcs_of s
    \<and> log_view t' = log_view t @
        (if r14 s AND 0xF = 0 \<and> drop_bit 4 (r14 s AND 0x30) = 0 then [(take_bit 32 (te_tsc E), ucast ro, r14 s)]
         else if r14 s AND 0xF = 4 then [(take_bit 32 (te_tsc E), ucast (ro + 19), r14 s)] else [])"
proof -
  have i: "log_inv t" by (rule trace_reach_log_inv [OF assms(1)])
  have "log_view (snd (trace_log_event tsc ty d t)) = log_view t @ [(take_bit 32 tsc, ucast ty, d)]" for tsc ty d
    using log_accepted(2) [OF i] assms(2) by (simp add: TRACE_MAX_EVENTS_def log_record_def)
  then show ?thesis
    using vmexit_dispatch_cr [OF assms(3,4), of H E ro t]
    by (auto simp: cr_access_log_def EVENT_CR0_WRITE_def EVENT_CR4_WRITE_def)
qed

theorem cr_exit_logged_witness:
  "\<exists>u t'. vmexit_dispatch demo_hw demo_trace 0x5041 (demo_guest\<lparr>rdi := EXIT_REASON_CR_ACCESS, r14 := 0x14\<rparr>) zero_bss = Some (u, t')
     \<and> log_view t' = [(77, 0x54, 0x14)]"
proof -
  let ?s = "demo_guest\<lparr>rdi := EXIT_REASON_CR_ACCESS, r14 := 0x14\<rparr>"
  have r: "trace_reach (te_host demo_trace) (te_hash_buffer demo_trace) zero_bss (mem ?s)"
    using loaded_reach by (simp add: demo_on_facts)
  have w: "unat (write_index zero_bss) < 1024" "vmx_on ?s" "rdi ?s = EXIT_REASON_CR_ACCESS"
    by (simp_all add: zero_bss_def demo_on_facts)
  from cr_exit_logged [OF r w, of demo_hw "0x5041"] show ?thesis
    by (auto simp: demo_trace_def log_view_def zero_bss_def take_bit_eq_mod)
qed

text \<open>C19: The syscall hook detector looks at the wrong register. \<^verbatim>\<open>WRMSR\<close> has the number of the MSR in
  \<^verbatim>\<open>rcx\<close>; the dispatcher, if it is ever given the reason (the handler never does, see above), judges
  by \<^verbatim>\<open>rax\<close>. So for every \<^verbatim>\<open>rcx\<close>, \<^verbatim>\<open>IA32_LSTAR\<close> included, nothing is logged and nothing checked unless
  \<^verbatim>\<open>rax\<close> happens to be 0xC0000081, 0xC0000082 or 0xC0000084. Then one event is logged, and for
  0xC0000082 the integrity check runs; in every state the trace engine can reach, with room in
  its log, it finds nothing. The call comes back with the VMCS and the trace engine's failure
  counter as they were.\<close>

theorem msr_write_judged_by_rax:
  assumes "trace_reach (te_host E) (te_hash_buffer E) t (mem s)" "unat (write_index t) < 1024"
    and "vmx_on s" "rdi s = EXIT_REASON_MSR_WRITE"
  shows "\<exists>u t'. vmexit_dispatch H E ro s t = Some (u, t') \<and> keeps s u \<and> vmcs_of u = vmcs_of s
    \<and> (rax s \<notin> {0xC0000081, 0xC0000082, 0xC0000084} \<longrightarrow> t' = t)
    \<and> log_view t' = log_view t @
        (if rax s = 0xC0000082 then [(take_bit 32 (te_tsc E), ucast (ro + 38), 0xC0000082)]
         else if rax s = 0xC0000081 then [(take_bit 32 (te_tsc E), ucast (EVENT_STAR_WRITE ro), rsi s)]
         else if rax s = 0xC0000084 then [(take_bit 32 (te_tsc E), ucast (EVENT_SFMASK_WRITE ro), rsi s)] else [])
    \<and> integrity_checks (trace_stats t') = integrity_checks (trace_stats t) + (if rax s = 0xC0000082 then 1 else 0)
    \<and> integrity_failures (trace_stats t') = 0"
proof -
  let ?log = "\<lambda>ty d. snd (trace_log_event (te_tsc E) ty d t)"
  have i: "log_inv t" by (rule trace_reach_log_inv [OF assms(1)])
  have r: "trace_reach (te_host E) (te_hash_buffer E) (?log ty d) (mem s)" for ty d
    by (rule trace_reach.log [OF assms(1)]) (rule prod.collapse [symmetric])
  have f: "integrity_failures (trace_stats t) = 0" "integrity_failures (trace_stats (?log ty d)) = 0" for ty d
    using trace_reach_blank [OF assms(1)] trace_reach_blank [OF r] by blast+
  have c: "trace_check_integrity (te_host E) (te_hash_buffer E) (te_tsc E) (?log ty d) (mem s)
    = Some (ok, (?log ty d)\<lparr>trace_stats := (trace_stats (?log ty d))\<lparr>integrity_checks := integrity_checks (trace_stats (?log ty d)) + 1\<rparr>\<rparr>, mem s)"
    for ty d
    using trace_reach_blank [OF r] by (intro check_integrity_blank) auto
  have l: "log_view (?log ty d) = log_view t @ [(take_bit 32 (te_tsc E), ucast ty, d)]" for ty d
    using log_accepted(2) [OF i] assms(2) by (simp add: TRACE_MAX_EVENTS_def log_record_def)
  have k: "integrity_checks (trace_stats (?log ty d)) = integrity_checks (trace_stats t)" for ty d
    by (simp add: trace_log_event_def Let_def)
  note d = vmexit_dispatch_msr [OF assms(3,4), where E = E and ro = ro and t = t and H = H]
  consider "rax s = 0xC0000082" | "rax s = 0xC0000081" | "rax s = 0xC0000084"
    | "rax s \<notin> {0xC0000081, 0xC0000082, 0xC0000084}" by blast
  then show ?thesis
  proof cases
    case 1
    have "msr_write_log E ro (rax s) (rsi s) (mem s) t
      = Some (?log (EVENT_LSTAR_WRITE ro) 0xC0000082\<lparr>trace_stats := (trace_stats (?log (EVENT_LSTAR_WRITE ro) 0xC0000082))
          \<lparr>integrity_checks := integrity_checks (trace_stats (?log (EVENT_LSTAR_WRITE ro) 0xC0000082)) + 1\<rparr>\<rparr>)"
      using c 1 by (simp add: msr_write_log_def)
    with d 1 l k f show ?thesis by (auto simp: log_view_def EVENT_LSTAR_WRITE_def)
  next
    case 2
    then have "msr_write_log E ro (rax s) (rsi s) (mem s) t = Some (?log (EVENT_STAR_WRITE ro) (rsi s))"
      by (simp add: msr_write_log_def)
    with d 2 l k f show ?thesis by auto
  next
    case 3
    then have "msr_write_log E ro (rax s) (rsi s) (mem s) t = Some (?log (EVENT_SFMASK_WRITE ro) (rsi s))"
      by (simp add: msr_write_log_def)
    with d 3 l k f show ?thesis by auto
  next
    case 4
    then have "msr_write_log E ro (rax s) (rsi s) (mem s) t = Some t" by (simp add: msr_write_log_def)
    with d 4 f show ?thesis by auto
  qed
qed

theorem msr_write_judged_by_rax_witness:
  "\<exists>u. vmexit_dispatch demo_hw demo_trace 0x5041 (demo_guest\<lparr>rdi := EXIT_REASON_MSR_WRITE, rcx := 0xC0000082, rax := 0x1234\<rparr>) zero_bss
     = Some (u, zero_bss)"
proof -
  let ?s = "demo_guest\<lparr>rdi := EXIT_REASON_MSR_WRITE, rcx := 0xC0000082, rax := 0x1234\<rparr>"
  have r: "trace_reach (te_host demo_trace) (te_hash_buffer demo_trace) zero_bss (mem ?s)"
    using loaded_reach by (simp add: demo_on_facts)
  have w: "unat (write_index zero_bss) < 1024" "vmx_on ?s" "rdi ?s = EXIT_REASON_MSR_WRITE" "rax ?s = 0x1234"
    by (simp_all add: zero_bss_def demo_on_facts)
  from msr_write_judged_by_rax [OF r w(1-3), of demo_hw "0x5041"] w(4) show ?thesis by auto
qed

text \<open>C21: A \<^verbatim>\<open>CPUID\<close> exit, if the dispatcher is given one, destroys the guest: the four results are
  written to the fields the header names \<open>VMCS_GUEST_RAX\<close> to \<open>VMCS_GUEST_RDX\<close>, of which the last two have the
  encodings of the guest's stack and instruction pointer. Leaf and subleaf are both \<^verbatim>\<open>rax\<close>.\<close>

theorem cpuid_exit_overwrites_rip:
  assumes "vmx_on s" "rdi s = EXIT_REASON_CPUID" "cur_vmcs s = Some p"
    and "r = hw_cpuid H (ucast (rax s)) (ucast (rax s))" "\<forall>fv\<in>set (cpuid_fields r). field_writable H (fst fv)"
  shows "\<exists>u. vmexit_dispatch H E ro s t = Some (u, t) \<and> keeps s u
    \<and> vmcs_of u p VMCS_GUEST_RSP = ucast (ecx r) \<and> vmcs_of u p VMCS_GUEST_RIP = ucast (edx r)
    \<and> (\<forall>q f. q \<noteq> p \<or> f \<notin> {0x6818, 0x681A, VMCS_GUEST_RSP, VMCS_GUEST_RIP} \<longrightarrow> vmcs_of u q f = vmcs_of s q f)"
proof -
  have d: "distinct (map fst (cpuid_fields r))"
    by (simp add: cpuid_fields_def VMCS_GUEST_RAX_def VMCS_GUEST_RBX_def VMCS_GUEST_RCX_def VMCS_GUEST_RDX_def)
  obtain u where u: "vmexit_dispatch H E ro s t = Some (u, t)" "keeps s u" "vmcs_of u = vmcs_put H (Some p) (cpuid_fields r) (vmcs_of s)"
    using vmexit_dispatch_cpuid [OF assms(1,2), of H E ro t] assms(3,4) by auto
  have c: "vmcs_of u p f = (case map_of (cpuid_fields r) f of None \<Rightarrow> vmcs_of s p f | Some v \<Rightarrow> v)" for f
    using vmcs_put_contents [OF assms(5) d] u(3) by simp
  have o: "vmcs_of u q f = vmcs_of s q f" if "q \<noteq> p" for q f using u(3) that by (simp add: vmcs_put_def)
  have e: "vmcs_of u q f = vmcs_of s q f" if "q \<noteq> p \<or> f \<notin> {0x6818, 0x681A, VMCS_GUEST_RSP, VMCS_GUEST_RIP}" for q f
  proof (cases "q = p")
    case True
    then have "map_of (cpuid_fields r) f = None"
      using that by (simp add: cpuid_fields_def VMCS_GUEST_RAX_def VMCS_GUEST_RBX_def VMCS_GUEST_RCX_def VMCS_GUEST_RDX_def
          VMCS_GUEST_RSP_def VMCS_GUEST_RIP_def)
    then show ?thesis using c [of f] True by simp
  qed (rule o)
  have "map_of (cpuid_fields r) VMCS_GUEST_RSP = Some (ucast (ecx r))" "map_of (cpuid_fields r) VMCS_GUEST_RIP = Some (ucast (edx r))"
    by (simp_all add: cpuid_fields_def VMCS_GUEST_RAX_def VMCS_GUEST_RBX_def VMCS_GUEST_RCX_def VMCS_GUEST_RDX_def
        VMCS_GUEST_RSP_def VMCS_GUEST_RIP_def)
  then have "vmcs_of u p VMCS_GUEST_RSP = ucast (ecx r)" "vmcs_of u p VMCS_GUEST_RIP = ucast (edx r)" by (simp_all add: c)
  with u(1,2) e show ?thesis by blast
qed

theorem cpuid_exit_overwrites_rip_witness:
  "\<exists>u. vmexit_dispatch demo_hw demo_trace 0 (demo_guest\<lparr>rdi := EXIT_REASON_CPUID\<rparr>) zero_bss = Some (u, zero_bss)
     \<and> vmcs_of u 0x200000 VMCS_GUEST_RSP = 3 \<and> vmcs_of u 0x200000 VMCS_GUEST_RIP = 4"
proof -
  let ?s = "demo_guest\<lparr>rdi := EXIT_REASON_CPUID\<rparr>"
  define r where "r = hw_cpuid demo_hw (ucast (rax ?s)) (ucast (rax ?s))"
  have r: "ecx r = 3" "edx r = 4" by (simp_all add: r_def demo_hw_def)
  have "\<forall>fv\<in>set (cpuid_fields r). field_writable demo_hw (fst fv)"
    by (simp add: cpuid_fields_def demo_hw_def VMCS_GUEST_RAX_def VMCS_GUEST_RBX_def VMCS_GUEST_RCX_def VMCS_GUEST_RDX_def)
  moreover have "vmx_on ?s" "rdi ?s = EXIT_REASON_CPUID" "cur_vmcs ?s = Some 0x200000" by (simp_all add: demo_on_facts)
  ultimately have "\<exists>u. vmexit_dispatch demo_hw demo_trace 0 ?s zero_bss = Some (u, zero_bss) \<and> keeps ?s u
    \<and> vmcs_of u 0x200000 VMCS_GUEST_RSP = ucast (ecx r) \<and> vmcs_of u 0x200000 VMCS_GUEST_RIP = ucast (edx r)"
    using cpuid_exit_overwrites_rip [OF _ _ _ r_def] by blast
  then show ?thesis by (auto simp: r)
qed

section \<open>Boot\<close>

text \<open>C18: The state in which the boot code enters C++. It gets there only if the processor has VMX
  and \<^verbatim>\<open>IA32_FEATURE_CONTROL\<close> then allows it, and only if the loader had already switched on the SSE and AVX state
  (\<^verbatim>\<open>vzeroupper\<close> and \<^verbatim>\<open>ldmxcsr\<close> come before the code sets the bits). Interrupts are off. The stack
  pointer is 8 modulo 16 where the ABI asks for 0; and \<^verbatim>\<open>MXCSR\<close> is loaded from a variable nobody
  initialises, so it is 0: every SSE exception is unmasked.\<close>

theorem boot_enters_cpp:
  assumes "boot_prepare H bb b = Some (Inr c)" "bb AND 0xF = 0" "load_dword (mem (bt_cpu b)) (simd_mxcsr_init bb) = 0"
  shows "rsp (bt_cpu c) AND 0xF = 8 \<and> bt_mxcsr c = 0 \<and> \<not> bt_if c
    \<and> (\<exists>v. bt_msr c 0x3A = Some v \<and> bit v 0 \<and> bit v 2)
    \<and> bit (cr4 (bt_cpu b)) 9 \<and> bit (cr4 (bt_cpu b)) 18
    \<and> cr4_after (bh_vmx H) ((cr4 (bt_cpu b) OR CR4_OSFXSR) OR CR4_OSXMMEXCPT) = Some (cr4 (bt_cpu c))"
proof -
  note r = boot_prepare_result [OF assms(1)]
  have "bit (cr4 (bt_cpu b)) 9" "bit (cr4 (bt_cpu b)) 18"
    using r(5,6) and_push_bit [of "cr4 (bt_cpu b)" 9] and_push_bit [of "cr4 (bt_cpu b)" 18]
    unfolding CR4_OSFXSR_def CR4_OSXSAVE_def by blast+
  then show ?thesis
    using r stack_top_misaligned [OF assms(2)] assms(3) by (auto simp: vmx_unlocked_def split: option.splits)
qed

theorem boot_enters_cpp_witness:
  "\<exists>c. boot_prepare demo_boot_hw 0x600000 demo_boot = Some (Inr c) \<and> rsp (bt_cpu c) AND 0xF = 8 \<and> bt_mxcsr c = 0"
proof -
  have z: "load_dword (store_quad a v (\<lambda>_. 0)) (a + 16392) = 0" for a v
  proof -
    have "load_dword (store_quad a v (\<lambda>_. 0)) (16392 + a) = load_dword (\<lambda>_. 0) (16392 + a)" by (rule load32_store64_apart)
    then show ?thesis by (simp add: load32_zeroed add.commute)
  qed
  have z': "load_dword (store_quad 0x600000 v (\<lambda>_. 0)) 0x604008 = 0" for v using z [of "0x600000" v] by simp
  have "\<exists>c. boot_prepare demo_boot_hw 0x600000 demo_boot = Some (Inr c)"
    by (simp add: demo_boot_hw_def demo_boot_def demo_vcpu_def demo_hw_def boot_prepare_def clear_segments_def boot_load_seg_def
        check_long_mode_def boot_rdmsr_def IA32_EFER_def boot_bits check_vmx_support_def check_feature_control_def
        IA32_FEATURE_CONTROL_def cpuid_def init_simd_state_def boot_vzeroupper_def boot_ldmxcsr_def boot_write_cr4_def
        write_cr4_def eax_zero_def mov_eax_def pop_def push_def boot_stack_ptr_def simd_mxcsr_init_def z' setup_page_tables_def Let_def)
  then obtain c where c: "boot_prepare demo_boot_hw 0x600000 demo_boot = Some (Inr c)" by blast
  have "load_dword (mem (bt_cpu demo_boot)) (simd_mxcsr_init 0x600000) = 0" by (simp add: demo_boot_def demo_vcpu_def load32_zeroed)
  with boot_enters_cpp [OF c] c show ?thesis by simp
qed

end
