(* ===== verification/Spec2Isabelle.thy ===== *)
theory Spec2Isabelle
  imports Program_Runs Registers Bare_Metal
begin

text \<open>
  \<^bold>\<open>Kernova-TEE: a verification development\<close>

  \<^bold>\<open>The program.\<close> A userspace service (C++ and NASM under \<^verbatim>\<open>service-api/service-cpp\<close>) keeps a
  one-megabyte "enclave" buffer, moves data into and out of it with vector routines, traces
  events, and selects a virtualization backend: the Linux driver (\<^verbatim>\<open>service-kernel/linux\<close>) through
  \<^verbatim>\<open>/dev/kernova\<close>, Intel VMX through assembly routines or their stubs, a userspace model of AMD
  SVM, or nothing. Driver and service share \<^verbatim>\<open>shared/kernova_abi.h\<close>. \<^verbatim>\<open>main\<close> starts the monitor,
  opens the enclave, brings the backend up, runs self tests and shuts down.

  \<^bold>\<open>Theories and the code they model\<close> (paths below \<^verbatim>\<open>src/service-api/service-cpp\<close> unless they start
  with \<^verbatim>\<open>service-kernel\<close> or \<^verbatim>\<open>shared\<close>):

  \<^item> \<open>Kernova_Prelude\<close>: machine integers, byte-addressed memory (\<open>read_bytes\<close>, \<open>write_bytes\<close>,
    \<open>copy_mem\<close>, \<open>separate\<close>), little-endian encoding, byte pages; the collections \<open>mem_simps\<close>,
    \<open>page_simps\<close>, \<open>enc_simps\<close>.
  \<^item> \<open>X86_Machine\<close>: registers, stack, string and vector instructions the routines use.
  \<^item> \<open>Simd_Packer\<close>, \<open>Simd_Hash\<close>: \<^verbatim>\<open>src/marshall/simd_packer.asm\<close>, one definition per routine and loop
    under the label's name. \<open>Simd_Abi\<close>: these routines as C++ calls them (\<open>c_simd_pack_data\<close> ...), with
    the interfaces \<open>byte_copier\<close> and \<open>marshaller\<close> their callers rely on. \<open>Simd_Overlap\<close>: what packing does
    when source and destination overlap, which nothing in the program excludes.
  \<^item> \<open>Trace_Engine\<close>: \<^verbatim>\<open>src/monitor/trace_engine.asm\<close>; the record \<open>bss\<close> is its data section,
    \<open>trace_reach\<close> the reachable states; interfaces \<open>event_log\<close> and \<open>tamper_evident\<close>.
  \<^item> \<open>Cpu_Features\<close>: \<^verbatim>\<open>src/virtualization/cpu_features.cpp\<close>. \<open>Amd_Svm\<close>:
    \<^verbatim>\<open>src/virtualization/amd_svm/amd_svm.cpp\<close>. \<open>Registers\<close>: \<^verbatim>\<open>include/registers.hpp\<close>.
  \<^item> \<open>Kernova_Abi\<close>: \<^verbatim>\<open>shared/kernova_abi.h\<close>, structures and request numbers; the byte layout the C compiler
    gives the structures is written out as encoders (interface \<open>wire_struct\<close>).
  \<^item> \<open>Kernel_Svm\<close>: \<^verbatim>\<open>service-kernel/linux/amd_svm/amd_svm.c\<close> and \<^verbatim>\<open>intel_vmx.c\<close>. \<open>Kernel_Driver\<close>:
    \<^verbatim>\<open>service-kernel/linux/kernova_main.c\<close>; \<open>driver_reach\<close> are the states requests lead to, \<open>lifecycle\<close>
    is the abstract specification.
  \<^item> \<open>Backend\<close>: \<^verbatim>\<open>src/virtualization/hypervisor_backend.cpp\<close> and \<^verbatim>\<open>src/vmx_stubs.cpp\<close>; interfaces
    \<open>kernova_device\<close> (what the driver backend relies on, discharged by the driver's model) and
    \<open>guarded_backend\<close> (the order of calls every hardware backend enforces).
  \<^item> \<open>Orchestrator\<close>: \<^verbatim>\<open>src/main.cpp\<close>; the record \<open>process\<close> holds all globals of the program, the objects
    of the backends, the trace engine's data and the memory. \<open>Program_Runs\<close>: its properties and a
    concrete program.
  \<^item> \<open>Vmx_Machine\<close>: the processor with control registers and VMX instructions (\<open>vcpu\<close> extends the registers of
    \<open>X86_Machine\<close>; \<open>vmx_hw\<close> is what the processor decides). \<open>Vmx_Core\<close>: \<^verbatim>\<open>intel_vmx/core/vmx_init.asm\<close> and
    \<^verbatim>\<open>vmcs_config.asm\<close>. \<open>Vm_Exit\<close>: \<^verbatim>\<open>intel_vmx/monitor/intercept.asm\<close>, which calls the trace engine.
    \<open>Boot_Entry\<close>: \<^verbatim>\<open>intel_vmx/boot/entry.asm\<close>. The constants are those of \<^verbatim>\<open>include/vmx_defs.inc\<close>.
    \<open>Bare_Metal\<close>: the properties of this half, and the Intel backend over the real core.

  \<^bold>\<open>What the lemmas show.\<close> The vector routines copy, clear and hash exactly the bytes they should on
  the AVX2 path, with the calling convention kept, and what goes wrong on the AVX-512 path; the
  trace log refines a bounded list; the driver frees every page whatever CPUs its requests run on; if all
  run on one CPU it never crashes, refines its life cycle and gives every register back, and on
  several CPUs it does not; the driver's backend inherits this for any sequence of
  calls of a process that stays on its CPU, crashes the kernel when the process migrates before the
  launch, and takes a guest the hardware refuses for a validated one; the orchestrator's calls are characterised on every input, its initialisation returns in
  every environment, and whole runs of \<^verbatim>\<open>main\<close> succeed in userspace and crash with AVX-512F. Of the
  bare-metal half, every routine is characterised by an equation on every machine; from these
  follow that \<^verbatim>\<open>vmx_init\<close> cannot succeed, what \<^verbatim>\<open>vmcs_setup\<close> writes and reports, that the exit handler never
  reaches an interceptor, what the interceptors would do, and how the boot code enters C++.

  \<^bold>\<open>Conventions.\<close> Machine words have the code's width and wrap. \<open>None\<close> is a call that does not come
  back: a fault, a kernel crash, a return to a wrong address. Error codes are integers as in
  the code. Loops are structural recursion on the number of iterations or \<open>function\<close>s with a
  proved measure, so there is no fuel. Code outside the repository is a parameter: \<open>kenv\<close> (CPUID, feature
  flags, page allocator, address translation, what VMRUN does to memory) with \<open>kenv_ok\<close> as what the
  driver relies on, \<open>os\<close> (environment variables, opening the device), \<open>penv\<close> (allocator, addresses of
  buffers), \<open>vmx_api\<close> (the results of the VMX entry points), \<open>vmx_hw\<close> and \<open>boot_hw\<close> (which MSRs, pointers, VMCS fields
  and selectors the processor accepts), \<open>vmx_image\<close> (where the linker puts the data). A request to the driver is one step, as its
  mutex makes it. \<open>device_good\<close> says that all requests of a client run on the CPU \<open>os_cpu\<close>; a theorem that
  assumes it says nothing of a process that migrates, and its text says so.

  \<^bold>\<open>Not modelled.\<close> Console output of the backends and the driver; faults of user memory inside the
  service; the execution of guest code between two exits, and page faults in the bare-metal routines;
  the global interrupt flag, which VMRUN leaves clear and the driver never sets again, and a guest that
  resets the machine (\<open>vmrun\<close> returns whenever EFER.SVME is set); the fault of a write to CR4 with bits the
  CPU does not have in \<open>Registers\<close> (\<open>Vmx_Machine\<close> has it);
  the unused macros of \<^verbatim>\<open>avx_macros.inc\<close>; the web client, tests, scripts and containers.
\<close>

end
